(* ===== verification/Prelude.thy ===== *)
theory Prelude
  imports Main "HOL-Library.Word"
begin

text \<open>
  Shared vocabulary of the development: the Go machine types, the result of running a
  Go function (a value, a panic, or no return at all), the combinators in which the
  effectful code is written, and the decimal printing of the \<^verbatim>\<open>%d\<close> verb.
\<close>

named_theorems go_simps \<open>unfolding rules of the combinators\<close>

section \<open>Machine types\<close>

type_synonym uint64 = "64 word"
type_synonym int64 = "64 word"
type_synonym uint32 = "32 word"
type_synonym int32 = "32 word"
type_synonym uint8 = "8 word"

text \<open>
  A Go string and the contents of a \<open>[]byte\<close> are both sequences of bytes, a \<^typ>\<open>char\<close>
  being one byte. A \<open>[]byte\<close> can also be \<open>nil\<close>, which several functions distinguish
  from the empty slice.
\<close>

type_synonym slice = "string option"

definition bytes_of :: "slice \<Rightarrow> string" where
  "bytes_of s = (case s of None \<Rightarrow> [] | Some b \<Rightarrow> b)"

lemma bytes_of_simps [simp]: "bytes_of None = []" "bytes_of (Some b) = b"
  by (simp_all add: bytes_of_def)

text \<open>\<open>bytes.Equal\<close>: a nil slice equals an empty one.\<close>

definition bytes_Equal :: "slice \<Rightarrow> slice \<Rightarrow> bool" where
  "bytes_Equal a b \<longleftrightarrow> bytes_of a = bytes_of b"

text \<open>Error values. Only identity with \<open>nil\<close>, \<open>io.EOF\<close> and the status of an
  Elasticsearch error are ever inspected by the code.\<close>

datatype go_error = EOF | ElasticError int | Err string

section \<open>Running effectful code\<close>

text \<open>
  Running a function in a state gives nothing at all (it never returns: \<^const>\<open>None\<close>),
  or an outcome together with the state reached. A panic keeps the state: what was written
  before the panic stays written, and deferred calls still run.
\<close>

datatype panic = NilDeref | IndexOutOfRange | NilInterfaceCall | SendOnClosed | CloseOfClosed | DivideByZero

datatype 'a outcome = Ret 'a | Panic panic

type_synonym ('s, 'a) go = "'s \<Rightarrow> ('a outcome \<times> 's) option"

definition ret :: "'a \<Rightarrow> ('s, 'a) go" where
  "ret x = (\<lambda>s. Some (Ret x, s))"

definition pan :: "panic \<Rightarrow> ('s, 'a) go" where
  "pan p = (\<lambda>s. Some (Panic p, s))"

definition bnd :: "('s, 'a) go \<Rightarrow> ('a \<Rightarrow> ('s, 'b) go) \<Rightarrow> ('s, 'b) go" where
  "bnd m f = (\<lambda>s. case m s of None \<Rightarrow> None
     | Some (o1, s1) \<Rightarrow> (case o1 of Ret x \<Rightarrow> f x s1 | Panic p \<Rightarrow> Some (Panic p, s1)))"

definition sq :: "('s, 'a) go \<Rightarrow> ('s, 'b) go \<Rightarrow> ('s, 'b) go" where
  "sq m n = bnd m (\<lambda>_. n)"

definition rd :: "('s \<Rightarrow> 'a) \<Rightarrow> ('s, 'a) go" where
  "rd f = (\<lambda>s. Some (Ret (f s), s))"

definition upd :: "('s \<Rightarrow> 's) \<Rightarrow> ('s, unit) go" where
  "upd f = (\<lambda>s. Some (Ret (), f s))"

definition whn :: "bool \<Rightarrow> ('s, unit) go \<Rightarrow> ('s, unit) go" where
  "whn b m = (if b then m else ret ())"

text \<open>A \<open>for range\<close> loop over a slice; a panic in the body leaves the loop.\<close>

primrec each :: "('a \<Rightarrow> ('s, unit) go) \<Rightarrow> 'a list \<Rightarrow> ('s, unit) go" where
  "each f [] = ret ()"
| "each f (x # xs) = sq (f x) (each f xs)"

text \<open>The same with the index, counted from \<open>i\<close>.\<close>

primrec each_from :: "nat \<Rightarrow> (nat \<Rightarrow> 'a \<Rightarrow> ('s, unit) go) \<Rightarrow> 'a list \<Rightarrow> ('s, unit) go" where
  "each_from i f [] = ret ()"
| "each_from i f (x # xs) = sq (f i x) (each_from (Suc i) f xs)"

text \<open>\<open>defer\<close>: the deferred call runs when the body returns and when it panics.\<close>

definition deferred :: "('s, unit) go \<Rightarrow> ('s, 'a) go \<Rightarrow> ('s, 'a) go" where
  "deferred d m = (\<lambda>s. case m s of None \<Rightarrow> None
     | Some (o1, s1) \<Rightarrow> (case d s1 of None \<Rightarrow> None
         | Some (Ret _, s2) \<Rightarrow> Some (o1, s2)
         | Some (Panic p, s2) \<Rightarrow> Some (Panic p, s2)))"

lemma ret_run [simp, go_simps]: "ret x s = Some (Ret x, s)"
  and pan_run [simp, go_simps]: "pan p s = Some (Panic p, s)"
  and rd_run [simp, go_simps]: "rd f s = Some (Ret (f s), s)"
  and upd_run [simp, go_simps]: "upd g s = Some (Ret (), g s)"
  by (simp_all add: ret_def pan_def rd_def upd_def)

lemma bnd_ret [simp, go_simps]: "bnd (ret x) f = f x"
  and bnd_pan [simp, go_simps]: "bnd (pan p) f = pan p"
  by (simp_all add: bnd_def fun_eq_iff)

lemma bnd_rd [simp, go_simps]: "bnd (rd g) f s = f (g s) s"
  and bnd_upd [simp, go_simps]: "bnd (upd u) h s = h () (u s)"
  by (simp_all add: bnd_def)

lemma sq_ret [simp, go_simps]: "sq (ret x) m = m"
  and sq_pan [simp, go_simps]: "sq (pan p) m = pan p"
  and sq_upd [simp, go_simps]: "sq (upd g) m s = m (g s)"
  by (simp_all add: sq_def)

lemma bnd_Ret: "m s = Some (Ret x, s') \<Longrightarrow> bnd m f s = f x s'"
  and bnd_Panic: "m s = Some (Panic p, s') \<Longrightarrow> bnd m f s = Some (Panic p, s')"
  and bnd_None: "m s = None \<Longrightarrow> bnd m f s = None"
  by (simp_all add: bnd_def)

lemma sq_Ret: "m s = Some (Ret x, s') \<Longrightarrow> sq m n s = n s'"
  and sq_Panic: "m s = Some (Panic p, s') \<Longrightarrow> sq m n s = Some (Panic p, s')"
  and sq_None: "m s = None \<Longrightarrow> sq m n s = None"
  by (simp_all add: sq_def bnd_def)

lemma bnd_assoc: "bnd (bnd m f) g = bnd m (\<lambda>x. bnd (f x) g)"
  by (rule ext) (auto simp: bnd_def split: option.splits outcome.splits)

lemma sq_assoc: "sq (sq m n) k = sq m (sq n k)"
  by (simp add: sq_def bnd_assoc)

lemma whn_simps [simp, go_simps]: "whn True m = m" "whn False m = ret ()"
  by (simp_all add: whn_def)

lemma each_append: "each f (xs @ ys) = sq (each f xs) (each f ys)"
  by (induction xs) (simp_all only: append.simps each.simps sq_assoc sq_ret)

lemma bnd_RetE:
  assumes "bnd m f s = Some (Ret y, t)"
  obtains x s1 where "m s = Some (Ret x, s1)" "f x s1 = Some (Ret y, t)"
  using assms by (auto simp: bnd_def split: option.splits outcome.splits)

lemma sq_RetE:
  assumes "sq m n s = Some (Ret y, t)"
  obtains x s1 where "m s = Some (Ret x, s1)" "n s1 = Some (Ret y, t)"
  using assms unfolding sq_def by (rule bnd_RetE)

text \<open>The combinator is monotone, so that a loop can be a \<^theory_text>\<open>partial_function\<close>.\<close>

lemma bnd_mono [partial_function_mono]:
  fixes m :: "('c \<Rightarrow> 'd option) \<Rightarrow> ('s, 'a) go"
    and f :: "('c \<Rightarrow> 'd option) \<Rightarrow> 'a \<Rightarrow> ('s, 'b) go"
  assumes m: "\<And>s. mono_option (\<lambda>F. m F s)"
    and f: "\<And>x s. mono_option (\<lambda>F. f F x s)"
  shows "mono_option (\<lambda>F. bnd (m F) (f F) s)"
proof (rule monotoneI)
  fix F G :: "'c \<Rightarrow> 'd option"
  assume FG: "fun_ord option_ord F G"
  from m FG have 1: "option_ord (m F s) (m G s)" for s by (blast dest: monotoneD)
  from f FG have 2: "option_ord (f F x s) (f G x s)" for x s by (blast dest: monotoneD)
  show "option_ord (bnd (m F) (f F) s) (bnd (m G) (f G) s)"
  proof (cases "m F s")
    case None
    then show ?thesis by (simp add: bnd_def flat_ord_def)
  next
    case (Some r)
    with 1[of s] have "m G s = Some r" by (simp add: flat_ord_def)
    with Some 2 show ?thesis
      by (cases r) (auto simp: bnd_def flat_ord_def split: outcome.splits)
  qed
qed

lemma sq_mono [partial_function_mono]:
  assumes "\<And>s. mono_option (\<lambda>F. m F s)" and "\<And>s. mono_option (\<lambda>F. n F s)"
  shows "mono_option (\<lambda>F. sq (m F) (n F) s)"
  unfolding sq_def by (rule bnd_mono) (use assms in auto)

section \<open>Frames: what a function leaves alone\<close>

text \<open>A computation keeps an observation \<open>v\<close> of the state, whatever its outcome.\<close>

definition keeps :: "('s \<Rightarrow> 'v) \<Rightarrow> ('s, 'a) go \<Rightarrow> bool" where
  "keeps v m \<longleftrightarrow> (\<forall>s. case m s of None \<Rightarrow> True | Some (_, t) \<Rightarrow> v t = v s)"

named_theorems keeps_intros \<open>frame rules\<close>

lemma keepsI: "(\<And>s o1 t. m s = Some (o1, t) \<Longrightarrow> v t = v s) \<Longrightarrow> keeps v m"
  by (auto simp: keeps_def split: option.split)

lemma keepsD: "keeps v m \<Longrightarrow> m s = Some (o1, t) \<Longrightarrow> v t = v s"
  by (force simp: keeps_def dest: spec[of _ s])

lemma keeps_ret [keeps_intros, simp]: "keeps v (ret x)"
  and keeps_pan [keeps_intros, simp]: "keeps v (pan p)"
  and keeps_rd [keeps_intros, simp]: "keeps v (rd f)"
  by (auto intro: keepsI)

lemma keeps_upd [keeps_intros]: "(\<And>s. v (f s) = v s) \<Longrightarrow> keeps v (upd f)"
  by (rule keepsI) auto

lemma keeps_bnd [keeps_intros]:
  assumes "keeps v m" and "\<And>x. keeps v (f x)"
  shows "keeps v (bnd m f)"
proof (rule keepsI)
  fix s o1 t assume "bnd m f s = Some (o1, t)"
  then show "v t = v s"
    using keepsD[OF assms(1)] keepsD[OF assms(2)]
    by (fastforce simp: bnd_def split: option.splits outcome.splits)
qed

lemma keeps_sq [keeps_intros]: "keeps v m \<Longrightarrow> keeps v n \<Longrightarrow> keeps v (sq m n)"
  by (simp add: sq_def keeps_bnd)

lemma keeps_if [keeps_intros]:
  "(b \<Longrightarrow> keeps v m) \<Longrightarrow> (\<not> b \<Longrightarrow> keeps v n) \<Longrightarrow> keeps v (if b then m else n)"
  by simp

lemma keeps_whn [keeps_intros]: "(b \<Longrightarrow> keeps v m) \<Longrightarrow> keeps v (whn b m)"
  by (simp add: whn_def)

lemma keeps_each [keeps_intros]: "(\<And>x. keeps v (f x)) \<Longrightarrow> keeps v (each f xs)"
  by (induction xs) (auto intro: keeps_intros)

lemma keeps_each_from [keeps_intros]: "(\<And>i x. keeps v (f i x)) \<Longrightarrow> keeps v (each_from i f xs)"
  by (induction xs arbitrary: i) (auto intro: keeps_intros)

lemma keeps_deferred [keeps_intros]: "keeps v d \<Longrightarrow> keeps v m \<Longrightarrow> keeps v (deferred d m)"
  by (rule keepsI)
    (auto simp: deferred_def split: option.splits outcome.splits, (metis keepsD)+)

section \<open>Invariants\<close>

text \<open>A computation preserves a predicate on states, whatever its outcome.\<close>

definition preserves :: "('s \<Rightarrow> bool) \<Rightarrow> ('s, 'a) go \<Rightarrow> bool" where
  "preserves I m \<longleftrightarrow> (\<forall>s o1 t. m s = Some (o1, t) \<longrightarrow> I s \<longrightarrow> I t)"

named_theorems preserves_intros \<open>invariant rules\<close>

lemma preservesI: "(\<And>s o1 t. m s = Some (o1, t) \<Longrightarrow> I s \<Longrightarrow> I t) \<Longrightarrow> preserves I m"
  by (auto simp: preserves_def)

lemma preservesD: "preserves I m \<Longrightarrow> m s = Some (o1, t) \<Longrightarrow> I s \<Longrightarrow> I t"
  by (auto simp: preserves_def)

lemma preserves_ret [preserves_intros, simp]: "preserves I (ret x)"
  and preserves_pan [preserves_intros, simp]: "preserves I (pan p)"
  and preserves_rd [preserves_intros, simp]: "preserves I (rd f)"
  by (auto simp: preserves_def)

lemma preserves_upd [preserves_intros]: "(\<And>s. I s \<Longrightarrow> I (f s)) \<Longrightarrow> preserves I (upd f)"
  by (auto simp: preserves_def)

lemma preserves_bnd [preserves_intros]:
  "preserves I m \<Longrightarrow> (\<And>x. preserves I (f x)) \<Longrightarrow> preserves I (bnd m f)"
  by (rule preservesI)
    (auto simp: bnd_def split: option.splits outcome.splits, (metis preservesD)+)

lemma preserves_sq [preserves_intros]: "preserves I m \<Longrightarrow> preserves I n \<Longrightarrow> preserves I (sq m n)"
  by (simp add: sq_def preserves_bnd)

lemma preserves_if [preserves_intros]:
  "(b \<Longrightarrow> preserves I m) \<Longrightarrow> (\<not> b \<Longrightarrow> preserves I n) \<Longrightarrow> preserves I (if b then m else n)"
  by simp

lemma preserves_whn [preserves_intros]: "(b \<Longrightarrow> preserves I m) \<Longrightarrow> preserves I (whn b m)"
  by (simp add: whn_def)

lemma preserves_option [preserves_intros]:
  "(x = None \<Longrightarrow> preserves I m) \<Longrightarrow> (\<And>y. x = Some y \<Longrightarrow> preserves I (n y)) \<Longrightarrow>
    preserves I (case x of None \<Rightarrow> m | Some y \<Rightarrow> n y)"
  by (cases x) auto

lemma preserves_sum [preserves_intros]:
  "(\<And>y. x = Inl y \<Longrightarrow> preserves I (m y)) \<Longrightarrow> (\<And>y. x = Inr y \<Longrightarrow> preserves I (n y)) \<Longrightarrow>
    preserves I (case x of Inl y \<Rightarrow> m y | Inr y \<Rightarrow> n y)"
  by (cases x) auto

lemma preserves_prod [preserves_intros]:
  "(\<And>a b. x = (a, b) \<Longrightarrow> preserves I (m a b)) \<Longrightarrow> preserves I (case x of (a, b) \<Rightarrow> m a b)"
  by (cases x) auto

lemma preserves_each [preserves_intros]:
  "(\<And>x. x \<in> set xs \<Longrightarrow> preserves I (f x)) \<Longrightarrow> preserves I (each f xs)"
  by (induction xs) (auto intro: preserves_intros)

lemma preserves_each_from [preserves_intros]:
  "(\<And>i x. x \<in> set xs \<Longrightarrow> preserves I (f i x)) \<Longrightarrow> preserves I (each_from i f xs)"
  by (induction xs arbitrary: i) (auto intro: preserves_intros)

lemma preserves_deferred [preserves_intros]:
  "preserves I d \<Longrightarrow> preserves I m \<Longrightarrow> preserves I (deferred d m)"
  by (rule preservesI)
    (auto simp: deferred_def split: option.splits outcome.splits, (metis preservesD)+)

lemma keeps_preserves: "keeps v m \<longleftrightarrow> (\<forall>c. preserves (\<lambda>s. v s = c) m)"
  by (auto simp: keeps_def preserves_def split: option.splits)

section \<open>Functions that end\<close>

text \<open>A computation that ends in every state, with a value or a panic.\<close>

definition ends :: "('s, 'a) go \<Rightarrow> bool" where
  "ends m \<longleftrightarrow> (\<forall>s. m s \<noteq> None)"

named_theorems ends_intros \<open>rules for ending\<close>

lemma endsD: "ends m \<Longrightarrow> \<exists>o1 t. m s = Some (o1, t)"
  by (auto simp: ends_def)

lemma ends_ret [ends_intros, simp]: "ends (ret x)"
  and ends_pan [ends_intros, simp]: "ends (pan p)"
  and ends_rd [ends_intros, simp]: "ends (rd f)"
  and ends_upd [ends_intros, simp]: "ends (upd g)"
  by (auto simp: ends_def)

lemma ends_bnd [ends_intros]: "ends m \<Longrightarrow> (\<And>x. ends (f x)) \<Longrightarrow> ends (bnd m f)"
  by (auto simp: ends_def bnd_def split: option.splits outcome.splits)

lemma ends_sq [ends_intros]: "ends m \<Longrightarrow> ends n \<Longrightarrow> ends (sq m n)"
  by (simp add: sq_def ends_bnd)

lemma ends_if [ends_intros]: "(b \<Longrightarrow> ends m) \<Longrightarrow> (\<not> b \<Longrightarrow> ends n) \<Longrightarrow> ends (if b then m else n)"
  by simp

lemma ends_whn [ends_intros]: "(b \<Longrightarrow> ends m) \<Longrightarrow> ends (whn b m)"
  by (simp add: whn_def)

lemma ends_option [ends_intros]: "(x = None \<Longrightarrow> ends m) \<Longrightarrow> (\<And>y. x = Some y \<Longrightarrow> ends (n y)) \<Longrightarrow>
    ends (case x of None \<Rightarrow> m | Some y \<Rightarrow> n y)"
  by (cases x) auto

lemma ends_sum [ends_intros]: "(\<And>y. x = Inl y \<Longrightarrow> ends (m y)) \<Longrightarrow> (\<And>y. x = Inr y \<Longrightarrow> ends (n y)) \<Longrightarrow>
    ends (case x of Inl y \<Rightarrow> m y | Inr y \<Rightarrow> n y)"
  by (cases x) auto

lemma ends_prod [ends_intros]: "(\<And>a b. x = (a, b) \<Longrightarrow> ends (m a b)) \<Longrightarrow> ends (case x of (a, b) \<Rightarrow> m a b)"
  by (cases x) auto

lemma ends_each [ends_intros]: "(\<And>x. x \<in> set xs \<Longrightarrow> ends (f x)) \<Longrightarrow> ends (each f xs)"
  by (induction xs) (auto intro: ends_intros)

lemma ends_each_from [ends_intros]: "(\<And>i x. ends (f i x)) \<Longrightarrow> ends (each_from i f xs)"
  by (induction xs arbitrary: i) (auto intro: ends_intros)

lemma ends_deferred [ends_intros]: "ends d \<Longrightarrow> ends m \<Longrightarrow> ends (deferred d m)"
  unfolding ends_def deferred_def
  by (auto split: option.splits outcome.splits) (metis option.distinct(1))

section \<open>Decimal printing\<close>

definition digit_char :: "nat \<Rightarrow> char" where
  "digit_char d = char_of (48 + d)"

definition digit_val :: "char \<Rightarrow> nat" where
  "digit_val c = of_char c - 48"

definition is_digit :: "char \<Rightarrow> bool" where
  "is_digit c \<longleftrightarrow> 48 \<le> (of_char c :: nat) \<and> (of_char c :: nat) \<le> 57"

fun show_nat :: "nat \<Rightarrow> string" where
  "show_nat n = (if n < 10 then [digit_char n] else show_nat (n div 10) @ [digit_char (n mod 10)])"

declare show_nat.simps [simp del]

definition show_int :: "int \<Rightarrow> string" where
  "show_int i = (if i < 0 then CHR ''-'' # show_nat (nat (- i)) else show_nat (nat i))"

definition read_nat :: "string \<Rightarrow> nat" where
  "read_nat s = foldl (\<lambda>a c. 10 * a + digit_val c) 0 s"

lemma digit_val_char [simp]: "d < 10 \<Longrightarrow> digit_val (digit_char d) = d"
  by (simp add: digit_val_def digit_char_def of_char_of)

lemma is_digit_char [simp]: "d < 10 \<Longrightarrow> is_digit (digit_char d)"
  by (simp add: is_digit_def digit_char_def of_char_of)

lemma read_nat_append: "read_nat (xs @ [c]) = 10 * read_nat xs + digit_val c"
  by (simp add: read_nat_def)

lemma read_show_nat [simp]: "read_nat (show_nat n) = n"
proof (induction n rule: show_nat.induct)
  case (1 n)
  show ?case
  proof (cases "n < 10")
    case True
    then show ?thesis by (subst show_nat.simps) (simp add: read_nat_def)
  next
    case False
    with 1 have "read_nat (show_nat (n div 10)) = n div 10" by simp
    with False show ?thesis by (subst show_nat.simps) (simp add: read_nat_append)
  qed
qed

lemma show_nat_inject [simp]: "show_nat a = show_nat b \<longleftrightarrow> a = b"
  by (metis read_show_nat)

lemma show_nat_digits: "\<forall>c \<in> set (show_nat n). is_digit c"
proof (induction n rule: show_nat.induct)
  case (1 n)
  then show ?case by (subst show_nat.simps) auto
qed

lemma show_nat_nonempty [simp]: "show_nat n \<noteq> []"
  by (subst show_nat.simps) simp

lemma dash_not_digit: "\<not> is_digit (CHR ''-'')"
  by (simp add: is_digit_def)

lemma dash_notin_show_nat [simp]: "CHR ''-'' \<notin> set (show_nat n)"
  using show_nat_digits dash_not_digit by blast

text \<open>A separator that occurs in neither prefix splits a concatenation in one way only.\<close>

lemma append_sep_inject:
  assumes "c \<notin> set xs" and "c \<notin> set ys" and "xs @ c # us = ys @ c # vs"
  shows "xs = ys \<and> us = vs"
  using assms
proof (induction xs arbitrary: ys)
  case Nil
  then show ?case by (cases ys) auto
next
  case (Cons x xs)
  then show ?case by (cases ys) auto
qed

text \<open>Characters given by their code evaluate to literals.\<close>

lemma char_of_numeral [simp]: "char_of (numeral k :: nat) =
    Char (odd (numeral k :: nat)) (odd (numeral k div 2 :: nat)) (odd (numeral k div 4 :: nat))
      (odd (numeral k div 8 :: nat)) (odd (numeral k div 16 :: nat)) (odd (numeral k div 32 :: nat))
      (odd (numeral k div 64 :: nat)) (odd (numeral k div 128 :: nat))"
  by (simp add: char_of_def bit_iff_odd)

section \<open>Unsigned 64-bit counters\<close>

lemma uint64_dec: "h > l \<Longrightarrow> unat (h - 1 :: uint64) = unat h - 1"
  by (metis One_nat_def Suc_pred' bot_nat_0.not_eq_extremum not_less_zero unat_eq_zero
      unat_minus_one word_less_nat_alt)

lemma uint64_inc_max: "h \<noteq> - 1 \<Longrightarrow> unat (h + 1 :: uint64) = unat h + 1"
  by (metis Suc_eq_plus1 add.commute add_eq_0_iff unatSuc)

lemma uint64_inc: "h < l \<Longrightarrow> unat (h + 1 :: uint64) = unat h + 1"
  using uint64_inc_max[of h] by (metis word_order.extremum_strict)

end
