(* ===== verification/Go_Text.thy ===== *)
theory Go_Text
  imports Prelude
begin

text \<open>
  The string operations of the Go standard library that the indexer uses, over byte
  strings: \<open>strings.HasPrefix/HasSuffix/TrimSuffix/Contains/ToLower\<close>, ranging over the
  runes of a string (UTF-8 decoding with its error rune), and \<open>encoding/hex\<close>.

  The Unicode character tables beyond ASCII are data, not code: they are fields of the
  record \<open>lib\<close>, together with the third-party encoders (base58, base58check, the
  protobuf size, the libp2p peer id), none of which is under src/.
\<close>

record lib =
  uni_IsUpper :: "nat \<Rightarrow> bool"                       \<comment> \<open>code points from 128 on\<close>
  uni_IsLower :: "nat \<Rightarrow> bool"
  uni_IsNumber :: "nat \<Rightarrow> bool"
  uni_ToLower :: "nat \<Rightarrow> nat"
  base58_Encode :: "string \<Rightarrow> string"
  base58check_Encode :: "string \<Rightarrow> string \<Rightarrow> string"     \<comment> \<open>version and data, both in hex\<close>
  base58check_Decode :: "string \<Rightarrow> string option"       \<comment> \<open>hex of version and data\<close>
  libp2p_PeerId :: "string \<Rightarrow> string option"

section \<open>Searching and trimming\<close>

definition HasPrefix :: "string \<Rightarrow> string \<Rightarrow> bool" where
  "HasPrefix s p \<longleftrightarrow> take (length p) s = p"

definition HasSuffix :: "string \<Rightarrow> string \<Rightarrow> bool" where
  "HasSuffix s suf \<longleftrightarrow> length suf \<le> length s \<and> drop (length s - length suf) s = suf"

fun Join :: "string list \<Rightarrow> string \<Rightarrow> string" where
  "Join [] sep = []"
| "Join [s] sep = s"
| "Join (s # ss) sep = s @ sep @ Join ss sep"

definition TrimSuffix :: "string \<Rightarrow> string \<Rightarrow> string" where
  "TrimSuffix s suf = (if HasSuffix s suf then take (length s - length suf) s else s)"

fun Contains :: "string \<Rightarrow> string \<Rightarrow> bool" where
  "Contains [] sub = (sub = [])"
| "Contains (c # cs) sub = (HasPrefix (c # cs) sub \<or> Contains cs sub)"

lemma HasPrefix_iff: "HasPrefix s p \<longleftrightarrow> (\<exists>r. s = p @ r)"
  unfolding HasPrefix_def by (metis append_eq_conv_conj append_take_drop_id)

lemma HasSuffix_iff: "HasSuffix s suf \<longleftrightarrow> (\<exists>r. s = r @ suf)"
proof
  assume "HasSuffix s suf"
  then have "s = take (length s - length suf) s @ suf"
    unfolding HasSuffix_def by (metis append_take_drop_id)
  then show "\<exists>r. s = r @ suf" ..
qed (auto simp: HasSuffix_def)

lemma HasSuffix_append [simp]: "HasSuffix (p @ suf) suf"
  by (auto simp: HasSuffix_iff)

lemma TrimSuffix_append [simp]: "TrimSuffix (p @ suf) suf = p"
  by (simp add: TrimSuffix_def)

lemma Contains_iff: "Contains s sub \<longleftrightarrow> (\<exists>u v. s = u @ sub @ v)"
proof (induction s)
  case (Cons c cs)
  have "(\<exists>u v. c # cs = u @ sub @ v) \<longleftrightarrow> (\<exists>v. c # cs = sub @ v) \<or> (\<exists>u v. cs = u @ sub @ v)"
    (is "?L \<longleftrightarrow> ?R")
  proof
    assume ?L
    then obtain u v where "c # cs = u @ sub @ v" by blast
    then show ?R by (cases u) auto
  next
    assume ?R
    then show ?L by (metis append_Cons append_Nil)
  qed
  with Cons show ?case by (simp add: HasPrefix_iff)
qed auto

section \<open>Runes\<close>

definition RuneError :: nat where "RuneError = 65533"

definition cont_byte :: "nat \<Rightarrow> nat \<Rightarrow> nat \<Rightarrow> bool" where
  "cont_byte lo hi b \<longleftrightarrow> lo \<le> b \<and> b \<le> hi"

text \<open>\<open>utf8.DecodeRuneInString\<close>: the rune and its width; an invalid sequence is the
  error rune of width one. The range of the second byte depends on the first.\<close>

definition second_lo :: "nat \<Rightarrow> nat" where
  "second_lo b0 = (if b0 = 224 then 160 else if b0 = 240 then 144 else 128)"

definition second_hi :: "nat \<Rightarrow> nat" where
  "second_hi b0 = (if b0 = 237 then 159 else if b0 = 244 then 143 else 191)"

definition decode_tail :: "nat \<Rightarrow> nat list \<Rightarrow> nat \<times> nat" where
  "decode_tail b0 bs =
     (if b0 < 194 \<or> 244 < b0 then (RuneError, 1)
      else if b0 < 224 then
        (case bs of b1 # _ \<Rightarrow> if cont_byte 128 191 b1
             then ((b0 - 192) * 64 + (b1 - 128), 2) else (RuneError, 1)
         | [] \<Rightarrow> (RuneError, 1))
      else if b0 < 240 then
        (case bs of b1 # b2 # _ \<Rightarrow>
           if cont_byte (second_lo b0) (second_hi b0) b1 \<and> cont_byte 128 191 b2
             then ((b0 - 224) * 4096 + (b1 - 128) * 64 + (b2 - 128), 3) else (RuneError, 1)
         | _ \<Rightarrow> (RuneError, 1))
      else
        (case bs of b1 # b2 # b3 # _ \<Rightarrow>
           if cont_byte (second_lo b0) (second_hi b0) b1 \<and> cont_byte 128 191 b2 \<and> cont_byte 128 191 b3
             then ((b0 - 240) * 262144 + (b1 - 128) * 4096 + (b2 - 128) * 64 + (b3 - 128), 4)
             else (RuneError, 1)
         | _ \<Rightarrow> (RuneError, 1)))"

definition decode_rune :: "char \<Rightarrow> string \<Rightarrow> nat \<times> nat" where
  "decode_rune c cs = (let b0 = of_char c in
     if b0 < 128 then (b0, 1) else decode_tail b0 (map of_char (take 3 cs)))"

fun runes :: "string \<Rightarrow> nat list" where
  "runes [] = []"
| "runes (c # cs) = (let (r, n) = decode_rune c cs in r # runes (drop (n - 1) cs))"

definition encode_rune :: "nat \<Rightarrow> string" where
  "encode_rune r = map char_of
     (if r < 128 then [r]
      else if r < 2048 then [192 + r div 64, 128 + r mod 64]
      else if (55296 \<le> r \<and> r \<le> 57343) \<or> 1114111 < r then [239, 191, 189]
      else if r < 65536 then [224 + r div 4096, 128 + r div 64 mod 64, 128 + r mod 64]
      else [240 + r div 262144, 128 + r div 4096 mod 64, 128 + r div 64 mod 64, 128 + r mod 64])"

lemma runes_ascii:
  "\<forall>c \<in> set s. (of_char c :: nat) < 128 \<Longrightarrow> runes s = map of_char s"
  by (induction s) (auto simp: decode_rune_def)

definition IsUpper :: "'z lib_scheme \<Rightarrow> nat \<Rightarrow> bool" where
  "IsUpper L r \<longleftrightarrow> (if r < 128 then 65 \<le> r \<and> r \<le> 90 else uni_IsUpper L r)"

definition IsLower :: "'z lib_scheme \<Rightarrow> nat \<Rightarrow> bool" where
  "IsLower L r \<longleftrightarrow> (if r < 128 then 97 \<le> r \<and> r \<le> 122 else uni_IsLower L r)"

definition IsNumber :: "'z lib_scheme \<Rightarrow> nat \<Rightarrow> bool" where
  "IsNumber L r \<longleftrightarrow> (if r < 128 then 48 \<le> r \<and> r \<le> 57 else uni_IsNumber L r)"

definition rune_lower :: "'z lib_scheme \<Rightarrow> nat \<Rightarrow> nat" where
  "rune_lower L r = (if r < 128 then (if 65 \<le> r \<and> r \<le> 90 then r + 32 else r)
     else uni_ToLower L r)"

definition byte_lower :: "char \<Rightarrow> char" where
  "byte_lower c = (let b = (of_char c :: nat) in
     if 65 \<le> b \<and> b \<le> 90 then char_of (b + 32) else c)"

definition ToLower :: "'z lib_scheme \<Rightarrow> string \<Rightarrow> string" where
  "ToLower L s = (if \<forall>c \<in> set s. (of_char c :: nat) < 128 then map byte_lower s
     else concat (map (\<lambda>r. encode_rune (rune_lower L r)) (runes s)))"

lemma byte_lower_idem: "byte_lower (byte_lower c) = byte_lower c"
  by (simp add: byte_lower_def Let_def of_char_of)

lemma byte_lower_ascii: "(of_char c :: nat) < 128 \<Longrightarrow> (of_char (byte_lower c) :: nat) < 128"
  by (simp add: byte_lower_def Let_def of_char_of)

lemma ToLower_ascii_idem:
  "\<forall>c \<in> set s. (of_char c :: nat) < 128 \<Longrightarrow> ToLower L (ToLower L s) = ToLower L s"
  by (simp add: ToLower_def byte_lower_ascii byte_lower_idem)

section \<open>Hexadecimal\<close>

definition hex_char :: "nat \<Rightarrow> char" where
  "hex_char d = char_of (if d < 10 then 48 + d else 87 + d)"

definition hex_val :: "char \<Rightarrow> nat option" where
  "hex_val c = (let b = of_char c in
     if 48 \<le> b \<and> b \<le> 57 then Some (b - 48)
     else if 97 \<le> b \<and> b \<le> 102 then Some (b - 87)
     else if 65 \<le> b \<and> b \<le> 70 then Some (b - 55)
     else None)"

definition hex_EncodeToString :: "string \<Rightarrow> string" where
  "hex_EncodeToString s =
     concat (map (\<lambda>c. [hex_char (of_char c div 16), hex_char (of_char c mod 16)]) s)"

fun hex_DecodeString :: "string \<Rightarrow> string option" where
  "hex_DecodeString [] = Some []"
| "hex_DecodeString [c] = None"
| "hex_DecodeString (a # b # s) = (case (hex_val a, hex_val b, hex_DecodeString s) of
     (Some x, Some y, Some r) \<Rightarrow> Some (char_of (16 * x + y) # r)
   | _ \<Rightarrow> None)"

lemma hex_val_char [simp]: "d < 16 \<Longrightarrow> hex_val (hex_char d) = Some d"
  by (auto simp: hex_val_def hex_char_def of_char_of Let_def)

lemma hex_roundtrip [simp]: "hex_DecodeString (hex_EncodeToString s) = Some s"
proof (induction s)
  case (Cons c s)
  have "(of_char c :: nat) div 16 < 16" by (rule less_mult_imp_div_less) simp
  with Cons show ?case
    by (simp add: hex_EncodeToString_def)
qed (simp add: hex_EncodeToString_def)

lemma hex_Encode_Cons: "hex_EncodeToString (c # s) =
    hex_char (of_char c div 16) # hex_char (of_char c mod 16) # hex_EncodeToString s"
  by (simp add: hex_EncodeToString_def)

lemma hex_Encode_append:
  "hex_EncodeToString (s @ t) = hex_EncodeToString s @ hex_EncodeToString t"
  by (simp add: hex_EncodeToString_def)

end
