(* ===== verification/Chain_Types.thy ===== *)
theory Chain_Types
  imports Go_Text
begin

text \<open>
  The messages of the Aergo node that the indexer reads (\<open>types/blockchain.pb.go\<close>,
  \<open>types/rpc.pb.go\<close>) with their nil-safe getters, and the address codec of
  \<open>types/address.go\<close>. A pointer field is an \<open>option\<close>: \<open>None\<close> is nil. A field selected
  through a nil pointer panics, a getter called on one returns the zero value.
\<close>

section \<open>Messages\<close>

type_synonym TxType = int32

definition TxType_NORMAL :: TxType where "TxType_NORMAL = 0"
definition TxType_GOVERNANCE :: TxType where "TxType_GOVERNANCE = 1"
definition TxType_REDEPLOY :: TxType where "TxType_REDEPLOY = 2"
definition TxType_FEEDELEGATION :: TxType where "TxType_FEEDELEGATION = 3"
definition TxType_TRANSFER :: TxType where "TxType_TRANSFER = 4"
definition TxType_CALL :: TxType where "TxType_CALL = 5"
definition TxType_DEPLOY :: TxType where "TxType_DEPLOY = 6"
definition TxType_MULTICALL :: TxType where "TxType_MULTICALL = 7"

lemmas TxType_defs = TxType_NORMAL_def TxType_GOVERNANCE_def TxType_REDEPLOY_def
  TxType_FEEDELEGATION_def TxType_TRANSFER_def TxType_CALL_def TxType_DEPLOY_def TxType_MULTICALL_def

record TxBody =
  TxBody_Nonce :: uint64
  TxBody_Account :: slice
  TxBody_Recipient :: slice
  TxBody_Amount :: slice
  TxBody_Payload :: slice
  TxBody_GasLimit :: uint64
  TxBody_GasPrice :: slice
  TxBody_Type :: TxType
  TxBody_ChainIdHash :: slice
  TxBody_Sign :: slice

record Tx =
  Tx_Hash :: slice
  Tx_Body :: "TxBody option"

record BlockHeader =
  BlockHeader_ChainID :: slice
  BlockHeader_PrevBlockHash :: slice
  BlockHeader_BlockNo :: uint64
  BlockHeader_Timestamp :: int64
  BlockHeader_BlocksRootHash :: slice
  BlockHeader_TxsRootHash :: slice
  BlockHeader_ReceiptsRootHash :: slice
  BlockHeader_Confirms :: uint64
  BlockHeader_PubKey :: slice
  BlockHeader_CoinbaseAccount :: slice
  BlockHeader_Sign :: slice
  BlockHeader_Consensus :: slice

record BlockBody =
  BlockBody_Txs :: "Tx list"

record Block =
  Block_Hash :: slice
  Block_Header :: "BlockHeader option"
  Block_Body :: "BlockBody option"

record Event =
  Event_ContractAddress :: slice
  Event_EventName :: string
  Event_JsonArgs :: string
  Event_EventIdx :: int32
  Event_TxHash :: slice
  Event_BlockHash :: slice
  Event_BlockNo :: uint64
  Event_TxIndex :: int32

record Receipt =
  Receipt_ContractAddress :: slice
  Receipt_Status :: string
  Receipt_Ret :: string
  Receipt_TxHash :: slice
  Receipt_FeeUsed :: slice
  Receipt_CumulativeFeeUsed :: slice
  Receipt_Bloom :: slice
  Receipt_Events :: "Event list"
  Receipt_BlockNo :: uint64
  Receipt_BlockHash :: slice
  Receipt_TxIndex :: int32
  Receipt_From :: slice
  Receipt_To :: slice
  Receipt_FeeDelegation :: bool
  Receipt_GasUsed :: uint64

record ChainId =
  ChainId_Magic :: string
  ChainId_Public :: bool
  ChainId_Mainnet :: bool
  ChainId_Consensus :: string
  ChainId_Version :: int32

text \<open>Of \<open>ChainInfo\<close> only the chain id is read.\<close>

record ChainInfo =
  ChainInfo_Id :: "ChainId option"

section \<open>Getters\<close>

definition GetTxHash :: "Tx \<Rightarrow> slice" where "GetTxHash tx = Tx_Hash tx"
definition GetBody :: "Tx \<Rightarrow> TxBody option" where "GetBody tx = Tx_Body tx"

definition GetRecipient :: "TxBody option \<Rightarrow> slice" where
  "GetRecipient b = (case b of None \<Rightarrow> None | Some x \<Rightarrow> TxBody_Recipient x)"

definition GetAmount :: "TxBody option \<Rightarrow> slice" where
  "GetAmount b = (case b of None \<Rightarrow> None | Some x \<Rightarrow> TxBody_Amount x)"

definition GetPayload :: "TxBody option \<Rightarrow> slice" where
  "GetPayload b = (case b of None \<Rightarrow> None | Some x \<Rightarrow> TxBody_Payload x)"

definition GetType :: "TxBody option \<Rightarrow> TxType" where
  "GetType b = (case b of None \<Rightarrow> TxType_NORMAL | Some x \<Rightarrow> TxBody_Type x)"

definition GetEvents :: "Receipt option \<Rightarrow> Event list" where
  "GetEvents r = (case r of None \<Rightarrow> [] | Some x \<Rightarrow> Receipt_Events x)"

lemma getters_simps [simp]:
  "GetRecipient None = None" "GetRecipient (Some x) = TxBody_Recipient x"
  "GetAmount None = None" "GetAmount (Some x) = TxBody_Amount x"
  "GetPayload None = None" "GetPayload (Some x) = TxBody_Payload x"
  "GetType None = TxType_NORMAL" "GetType (Some x) = TxBody_Type x"
  "GetEvents None = []" "GetEvents (Some r) = Receipt_Events r"
  by (simp_all add: GetRecipient_def GetAmount_def GetPayload_def GetType_def GetEvents_def)

text \<open>Selecting through a pointer.\<close>

definition deref :: "'a option \<Rightarrow> 'a outcome" where
  "deref p = (case p of None \<Rightarrow> Panic NilDeref | Some x \<Rightarrow> Ret x)"

lemma deref_simps [simp]: "deref None = Panic NilDeref" "deref (Some x) = Ret x"
  by (simp_all add: deref_def)

section \<open>Pure code that can panic\<close>

definition obnd :: "'a outcome \<Rightarrow> ('a \<Rightarrow> 'b outcome) \<Rightarrow> 'b outcome" where
  "obnd x f = (case x of Ret v \<Rightarrow> f v | Panic p \<Rightarrow> Panic p)"

lemma obnd_simps [simp]: "obnd (Ret v) f = f v" "obnd (Panic p) f = Panic p"
  by (simp_all add: obnd_def)

definition lft :: "'a outcome \<Rightarrow> ('s, 'a) go" where
  "lft x = (\<lambda>s. Some (x, s))"

lemma lft_simps [simp, go_simps]: "lft (Ret v) = ret v" "lft (Panic p) = pan p"
  by (simp_all add: lft_def ret_def pan_def)

lemma keeps_lft [keeps_intros]: "keeps v (lft x)"
  by (rule keepsI) (simp add: lft_def)

section \<open>Addresses\<close>

definition AddressVersion :: nat where "AddressVersion = 66"

text \<open>The version printed by \<open>%x\<close>.\<close>

definition version_hex :: string where "version_hex = ''42''"

definition EncodeAddress :: "'z lib_scheme \<Rightarrow> slice \<Rightarrow> string" where
  "EncodeAddress L addr = base58check_Encode L version_hex (hex_EncodeToString (bytes_of addr))"

text \<open>An error, or the bytes behind the version byte; a decoded text without any byte is an
  index out of range.\<close>

definition DecodeAddress :: "'z lib_scheme \<Rightarrow> string \<Rightarrow> (go_error + string) outcome" where
  "DecodeAddress L encodedAddr =
     (case base58check_Decode L encodedAddr of
        None \<Rightarrow> Ret (Inl (Err ''base58check''))
      | Some decodedString \<Rightarrow>
          (case hex_DecodeString decodedString of
             None \<Rightarrow> Ret (Inl (Err ''hex''))
           | Some [] \<Rightarrow> Panic IndexOutOfRange
           | Some (version # decoded) \<Rightarrow>
               if (of_char version :: nat) \<noteq> AddressVersion then Ret (Inl (Err ''Invalid address version''))
               else Ret (Inr decoded)))"

text \<open>The documented behaviour of the base58check package: it decodes to the hex text of
  the version followed by the data what it encoded from them.\<close>

definition base58check_codec :: "'z lib_scheme \<Rightarrow> bool" where
  "base58check_codec L \<longleftrightarrow> (\<forall>v d. base58check_Decode L (base58check_Encode L v d) = Some (v @ d))"

lemma hex_version: "version_hex @ hex_EncodeToString d = hex_EncodeToString (CHR 0x42 # d)"
  by (simp add: version_hex_def hex_Encode_Cons hex_char_def)

lemma DecodeAddress_Encode:
  "base58check_codec L \<Longrightarrow> DecodeAddress L (EncodeAddress L a) = Ret (Inr (bytes_of a))"
  by (simp add: base58check_codec_def DecodeAddress_def EncodeAddress_def hex_version AddressVersion_def)

lemma version_char: "of_char v = (66 :: nat) \<Longrightarrow> v = CHR 0x42"
proof -
  assume "of_char v = (66 :: nat)"
  then have "of_char v = (of_char (CHR 0x42) :: nat)" by simp
  then show ?thesis by (simp only: of_char_eq_iff)
qed

lemma DecodeAddress_version: "DecodeAddress L s = Ret (Inr d) \<Longrightarrow>
    \<exists>t. base58check_Decode L s = Some t \<and> hex_DecodeString t = Some (CHR 0x42 # d)"
  by (auto simp: DecodeAddress_def AddressVersion_def split: option.splits list.splits if_splits
      dest: version_char)

end
