(* ===== verification/Account.thy ===== *)
theory Account
  imports Chain_Types
begin

text \<open>
  Account names (\<open>indexer/transaction/account.go\<close>) and peer ids
  (\<open>indexer/transaction/block.go\<close>): which byte strings are shown as they are, and which are
  encoded as addresses. Decoding keeps the panic of \<^const>\<open>DecodeAddress\<close> on a text that
  decodes to no byte at all.
\<close>

definition IsAergoSystem :: "string \<Rightarrow> bool" where
  "IsAergoSystem address \<longleftrightarrow> address = ''aergo.system''"

definition IsAlias :: "'z lib_scheme \<Rightarrow> string \<Rightarrow> bool" where
  "IsAlias L address \<longleftrightarrow>
     (if length address \<noteq> 12 then False
      else list_all (\<lambda>c. \<not> (\<not> IsUpper L c \<and> \<not> IsLower L c \<and> \<not> IsNumber L c)) (runes address))"

definition IsInternalName :: "string \<Rightarrow> bool" where
  "IsInternalName name \<longleftrightarrow>
     name \<in> {''aergo.name'', ''aergo.system'', ''aergo.enterprise'', ''aergo.vault''}"

definition IsBalanceNotResolved :: "'z lib_scheme \<Rightarrow> string \<Rightarrow> bool" where
  "IsBalanceNotResolved L name \<longleftrightarrow> IsAlias L name \<or> IsAergoSystem name"

definition DecodeAccount :: "'z lib_scheme \<Rightarrow> string \<Rightarrow> slice outcome" where
  "DecodeAccount L account =
     (if account = [] then Ret None
      else if IsAlias L account \<or> IsInternalName account then Ret (Some account)
      else obnd (DecodeAddress L account)
        (\<lambda>r. Ret (case r of Inl _ \<Rightarrow> None | Inr dec \<Rightarrow> Some dec)))"

definition EncodeAccount :: "'z lib_scheme \<Rightarrow> slice \<Rightarrow> string" where
  "EncodeAccount L account =
     (case account of None \<Rightarrow> []
      | Some b \<Rightarrow> if IsAlias L b \<or> IsInternalName b then b else EncodeAddress L account)"

definition EncodeAndResolveAccount :: "'z lib_scheme \<Rightarrow> slice \<Rightarrow> uint64 \<Rightarrow> string" where
  "EncodeAndResolveAccount L account blockNo = EncodeAccount L account"

definition MakePeerId :: "'z lib_scheme \<Rightarrow> slice \<Rightarrow> string" where
  "MakePeerId L pubKey = (case libp2p_PeerId L (bytes_of pubKey) of None \<Rightarrow> [] | Some peerId \<Rightarrow> peerId)"

lemma IsInternalName_length: "IsInternalName n \<Longrightarrow> length n \<le> 16 \<and> n \<noteq> []"
  by (auto simp: IsInternalName_def)

lemma IsAlias_length: "IsAlias L n \<Longrightarrow> length n = 12 \<and> n \<noteq> []"
  by (auto simp: IsAlias_def split: if_splits)

lemma long_not_name: "16 < length n \<Longrightarrow> \<not> IsAlias L n \<and> \<not> IsInternalName n \<and> n \<noteq> []"
  using IsInternalName_length IsAlias_length by force

lemma runes_member_ascii:
  "\<forall>c \<in> set s. (of_char c :: nat) < 128 \<Longrightarrow> set (runes s) = of_char ` set s"
  by (simp add: runes_ascii)

text \<open>An alias never contains a dot, so no internal name is one.\<close>

lemma ascii_alias: "\<forall>c \<in> set s. (of_char c :: nat) < 128 \<Longrightarrow>
    IsAlias L s \<longleftrightarrow> length s = 12 \<and>
      (\<forall>c \<in> set s. let r = (of_char c :: nat) in
         (65 \<le> r \<and> r \<le> 90) \<or> (97 \<le> r \<and> r \<le> 122) \<or> (48 \<le> r \<and> r \<le> 57))"
  by (auto simp: IsAlias_def runes_ascii list_all_iff IsUpper_def IsLower_def IsNumber_def Let_def)

lemma alias_not_internal: "IsInternalName n \<Longrightarrow> \<not> IsAlias L n"
  by (auto simp: IsInternalName_def ascii_alias Let_def)

lemma DecodeAccount_EncodeAddress:
  assumes "base58check_codec L" and "16 < length (EncodeAddress L (Some b))"
  shows "DecodeAccount L (EncodeAddress L (Some b)) = Ret (Some b)"
  using assms(1) long_not_name[OF assms(2), of L] by (simp add: DecodeAccount_def DecodeAddress_Encode)

lemma EncodeAccount_nil [simp]: "EncodeAccount L None = []"
  by (simp add: EncodeAccount_def)

lemma EncodeAccount_alias: "IsAlias L b \<Longrightarrow> EncodeAccount L (Some b) = b"
  and EncodeAccount_internal: "IsInternalName b \<Longrightarrow> EncodeAccount L (Some b) = b"
  and EncodeAccount_address:
    "\<not> IsAlias L b \<Longrightarrow> \<not> IsInternalName b \<Longrightarrow> EncodeAccount L (Some b) = EncodeAddress L (Some b)"
  by (simp_all add: EncodeAccount_def)

lemma DecodeAccount_name: "IsAlias L n \<or> IsInternalName n \<Longrightarrow> DecodeAccount L n = Ret (Some n)"
  using IsAlias_length IsInternalName_length by (fastforce simp: DecodeAccount_def)

end
