(* ===== verification/Go_Float.thy ===== *)
theory Go_Float
  imports Complex_Main Prelude
begin

text \<open>
  The numbers of the indexed documents: \<open>math/big\<close> integers read and printed in decimal,
  \<open>strconv.Atoi\<close>, and the 32-bit floats that \<open>strconv.ParseFloat(s, 32)\<close> and
  \<open>big.Float\<close> produce, rounded to nearest with ties to even.
\<close>

section \<open>Rounding a ratio to a binary precision\<close>

fun bit_length :: "nat \<Rightarrow> nat" where
  "bit_length n = (if n = 0 then 0 else Suc (bit_length (n div 2)))"

declare bit_length.simps [simp del]

lemma bit_length_numeral [simp]:
  "bit_length 0 = 0" "bit_length (Suc 0) = 1"
  "bit_length (numeral k) = Suc (bit_length (numeral k div 2))"
  by (subst bit_length.simps, simp)+

text \<open>The ratio scaled by a power of two: numerator and denominator of \<open>num / den / 2 ^ e\<close>.\<close>

definition scale_num :: "nat \<Rightarrow> int \<Rightarrow> nat" where
  "scale_num num e = (if e \<ge> 0 then num else num * 2 ^ nat (- e))"

definition scale_den :: "nat \<Rightarrow> int \<Rightarrow> nat" where
  "scale_den den e = (if e \<ge> 0 then den * 2 ^ nat e else den)"

text \<open>The exponent of the leading bit of \<open>num / den\<close>.\<close>

definition log2_ratio :: "nat \<Rightarrow> nat \<Rightarrow> int" where
  "log2_ratio num den =
     (let k = int (bit_length num) - int (bit_length den) in
      if scale_num num k \<ge> scale_den den k then k else k - 1)"

definition round_half_even :: "nat \<Rightarrow> nat \<Rightarrow> nat" where
  "round_half_even n d = (let q = n div d; r = n mod d in
     if 2 * r > d \<or> (2 * r = d \<and> odd q) then q + 1 else q)"

text \<open>Round to \<open>p\<close> significant bits, the exponent not below \<open>emin\<close> (no bound: \<open>None\<close>).\<close>

definition round_bits :: "nat \<Rightarrow> int option \<Rightarrow> nat \<Rightarrow> nat \<Rightarrow> nat \<times> int" where
  "round_bits p emin num den =
     (if num = 0 then (0, 0)
      else let e0 = log2_ratio num den - (int p - 1);
               e = (case emin of None \<Rightarrow> e0 | Some l \<Rightarrow> max e0 l);
               m = round_half_even (scale_num num e) (scale_den den e)
           in if m = 2 ^ p then (2 ^ (p - 1), e + 1) else (m, e))"

section \<open>float32\<close>

text \<open>\<open>Fin32 neg m e\<close> is \<open>\<plusminus> m * 2 ^ e\<close>, normalised: \<open>m\<close> has 24 bits or \<open>e = - 149\<close>.\<close>

datatype float32 = NaN32 | Inf32 bool | Fin32 bool nat int

definition zero32 :: float32 where "zero32 = Fin32 False 0 0"

text \<open>The rounded value, and whether it overflowed (then it is an infinity).\<close>

definition f32_of_ratio :: "bool \<Rightarrow> nat \<Rightarrow> nat \<Rightarrow> float32 \<times> bool" where
  "f32_of_ratio neg num den =
     (let (m, e) = round_bits 24 (Some (- 149)) num den in
      if m = 0 then (Fin32 neg 0 0, False)
      else if e > 104 then (Inf32 neg, True)
      else (Fin32 neg m e, False))"

text \<open>Comparison with an integer constant, as in \<open>f > 0\<close> and \<open>f >= 10000\<close>.\<close>

fun f32_gt0 :: "float32 \<Rightarrow> bool" where
  "f32_gt0 NaN32 = False"
| "f32_gt0 (Inf32 neg) = (\<not> neg)"
| "f32_gt0 (Fin32 neg m e) = (\<not> neg \<and> m > 0)"

fun f32_ge :: "float32 \<Rightarrow> nat \<Rightarrow> bool" where
  "f32_ge NaN32 k = False"
| "f32_ge (Inf32 neg) k = (\<not> neg)"
| "f32_ge (Fin32 neg m e) k =
     (if neg then m = 0 \<and> k = 0 else scale_den m e \<ge> scale_num k e)"

section \<open>Reading numbers\<close>

definition lower_byte :: "char \<Rightarrow> nat" where
  "lower_byte c = (let b = (of_char c :: nat) in if b div 32 mod 2 = 1 then b else b + 32)"

definition is_hex_letter :: "char \<Rightarrow> bool" where
  "is_hex_letter c \<longleftrightarrow> 97 \<le> lower_byte c \<and> lower_byte c \<le> 102"

text \<open>\<open>strconv.underscoreOK\<close>: what was seen last is the start, a digit, an underscore or
  something else.\<close>

datatype saw = SawStart | SawDigit | SawUnderscore | SawOther

fun underscore_scan :: "bool \<Rightarrow> saw \<Rightarrow> string \<Rightarrow> bool" where
  "underscore_scan hex w [] = (w \<noteq> SawUnderscore)"
| "underscore_scan hex w (c # cs) =
     (if is_digit c \<or> (hex \<and> is_hex_letter c) then underscore_scan hex SawDigit cs
      else if c = CHR ''_'' then w = SawDigit \<and> underscore_scan hex SawUnderscore cs
      else w \<noteq> SawUnderscore \<and> underscore_scan hex SawOther cs)"

definition drop_sign :: "string \<Rightarrow> string" where
  "drop_sign s = (case s of [] \<Rightarrow> [] | c # cs \<Rightarrow> if c = CHR ''+'' \<or> c = CHR ''-'' then cs else s)"

definition has_minus :: "string \<Rightarrow> bool" where
  "has_minus s = (case s of [] \<Rightarrow> False | c # _ \<Rightarrow> c = CHR ''-'')"

definition underscoreOK :: "string \<Rightarrow> bool" where
  "underscoreOK s = (case drop_sign s of
     a # b # r \<Rightarrow> if a = CHR ''0'' \<and> lower_byte b \<in> {98, 111, 120}
       then underscore_scan (lower_byte b = 120) SawDigit r
       else underscore_scan False SawStart (a # b # r)
   | r \<Rightarrow> underscore_scan False SawStart r)"

text \<open>The mantissa loop of \<open>strconv.readFloat\<close>: the digits read so far, the number of
  them behind the point, and which characters were seen.\<close>

record mant =
  m_val :: nat
  m_frac :: nat
  m_dot :: bool
  m_digits :: bool
  m_under :: bool

definition mant0 :: mant where
  "mant0 = \<lparr>m_val = 0, m_frac = 0, m_dot = False, m_digits = False, m_under = False\<rparr>"

definition add_digit :: "nat \<Rightarrow> nat \<Rightarrow> mant \<Rightarrow> mant" where
  "add_digit base d a = a\<lparr>m_val := base * m_val a + d, m_digits := True,
     m_frac := (if m_dot a then Suc (m_frac a) else m_frac a)\<rparr>"

fun read_mant :: "nat \<Rightarrow> mant \<Rightarrow> string \<Rightarrow> mant \<times> string" where
  "read_mant base a [] = (a, [])"
| "read_mant base a (c # cs) =
     (if c = CHR ''_'' then read_mant base (a\<lparr>m_under := True\<rparr>) cs
      else if c = CHR ''.'' then
        (if m_dot a then (a, c # cs) else read_mant base (a\<lparr>m_dot := True\<rparr>) cs)
      else if is_digit c then read_mant base (add_digit base (digit_val c) a) cs
      else if base = 16 \<and> is_hex_letter c
        then read_mant base (add_digit base (lower_byte c - 87) a) cs
      else (a, c # cs))"

text \<open>The exponent digits: the value stops growing at five digits.\<close>

fun read_exp :: "nat \<Rightarrow> bool \<Rightarrow> string \<Rightarrow> nat \<times> bool \<times> string" where
  "read_exp e u [] = (e, u, [])"
| "read_exp e u (c # cs) =
     (if is_digit c then read_exp (if e < 10000 then 10 * e + digit_val c else e) u cs
      else if c = CHR ''_'' then read_exp e True cs
      else (e, u, c # cs))"

definition read_exponent :: "nat \<Rightarrow> string \<Rightarrow> (int \<times> bool \<times> string) option" where
  "read_exponent expChar s = (case s of
     c # cs \<Rightarrow> if lower_byte c = expChar then
         (case drop_sign cs of [] \<Rightarrow> None
          | d # ds \<Rightarrow> if is_digit d then
                (let (e, u, r) = read_exp 0 False (d # ds) in
                 Some (if has_minus cs then - int e else int e, u, r))
              else None)
       else if expChar = 112 then None else Some (0, False, s)
   | [] \<Rightarrow> if expChar = 112 then None else Some (0, False, []))"

text \<open>The whole text as sign, numerator and denominator.\<close>

definition read_float :: "string \<Rightarrow> (bool \<times> nat \<times> nat) option" where
  "read_float s =
     (let body = drop_sign s;
          hex = (case body of a # b # _ # _ \<Rightarrow> a = CHR ''0'' \<and> lower_byte b = 120 | _ \<Rightarrow> False);
          (a, r) = (if hex then read_mant 16 mant0 (drop 2 body) else read_mant 10 mant0 body)
      in if \<not> m_digits a then None
         else (case read_exponent (if hex then 112 else 101) r of
             None \<Rightarrow> None
           | Some (e, u, rest) \<Rightarrow>
               if rest \<noteq> [] \<or> ((m_under a \<or> u) \<and> \<not> underscoreOK s) then None
               else (let x = (if hex then e - 4 * int (m_frac a) else e - int (m_frac a));
                         b = (if hex then 2 else 10)
                     in Some (has_minus s,
                          if x \<ge> 0 then m_val a * b ^ nat x else m_val a,
                          if x \<ge> 0 then 1 else b ^ nat (- x)))))"

definition special_float :: "string \<Rightarrow> float32 option" where
  "special_float s =
     (let low = map lower_byte (drop_sign s);
          inf = map of_char ''inf''; infinity = map of_char ''infinity''; nan = map of_char ''nan''
      in if low = inf \<or> low = infinity then Some (Inf32 (has_minus s))
         else if map lower_byte s = nan then Some NaN32 else None)"

text \<open>\<open>strconv.ParseFloat(s, 32)\<close>: a syntax or a range error is \<open>Inl\<close>.\<close>

definition ParseFloat32 :: "string \<Rightarrow> go_error + float32" where
  "ParseFloat32 s = (case special_float s of
     Some f \<Rightarrow> Inr f
   | None \<Rightarrow> (case read_float s of
         None \<Rightarrow> Inl (Err ''invalid syntax'')
       | Some (neg, num, den) \<Rightarrow>
           (case f32_of_ratio neg num den of
              (f, overflow) \<Rightarrow> if overflow then Inl (Err ''value out of range'') else Inr f)))"

text \<open>\<open>(*big.Int).SetString(s, 10)\<close>, \<open>String\<close> and \<open>SetBytes\<close>.\<close>

definition big_SetString :: "string \<Rightarrow> int option" where
  "big_SetString s = (let d = drop_sign s in
     if d \<noteq> [] \<and> list_all is_digit d
     then Some (if has_minus s then - int (read_nat d) else int (read_nat d)) else None)"

definition big_String :: "int \<Rightarrow> string" where
  "big_String = show_int"

definition big_SetBytes :: "string \<Rightarrow> nat" where
  "big_SetBytes b = foldl (\<lambda>a c. 256 * a + of_char c) 0 b"

text \<open>\<open>strconv.Atoi\<close> on a 64-bit platform.\<close>

definition Atoi :: "string \<Rightarrow> int option" where
  "Atoi s = (case big_SetString s of None \<Rightarrow> None
     | Some i \<Rightarrow> if - (2 ^ 63) \<le> i \<and> i < 2 ^ 63 then Some i else None)"

section \<open>Rounding is to nearest\<close>

lemma bit_length_bounds:
  "0 < n \<Longrightarrow> \<exists>k. bit_length n = Suc k \<and> 2 ^ k \<le> n \<and> n < 2 ^ Suc k"
proof (induction n rule: bit_length.induct)
  case (1 n)
  have eq: "bit_length n = Suc (bit_length (n div 2))"
    using 1(2) by (subst bit_length.simps) simp
  show ?case
  proof (cases "n div 2 = 0")
    case True
    with 1 have "n = 1" by simp
    then show ?thesis by (simp add: bit_length.simps)
  next
    case False
    with 1 obtain k where k: "bit_length (n div 2) = Suc k" "2 ^ k \<le> n div 2" "n div 2 < 2 ^ Suc k"
      by auto
    from k(2) have "2 ^ Suc k \<le> n" by simp
    moreover from k(3) have "n < 2 ^ Suc (Suc k)" by simp
    ultimately show ?thesis using eq k(1) by auto
  qed
qed

lemma scale_ratio: "den > 0 \<Longrightarrow>
    real (scale_num num e) / real (scale_den den e) = real num / real den / 2 powi e"
  by (simp add: scale_num_def scale_den_def power_int_def field_simps)

lemma scale_den_pos: "0 < den \<Longrightarrow> 0 < scale_den den e"
  by (simp add: scale_den_def)

lemma scale_le_iff:
  assumes "0 < den"
  shows "scale_den den e \<le> scale_num num e \<longleftrightarrow> 2 powi e \<le> real num / real den"
proof -
  have "scale_den den e \<le> scale_num num e \<longleftrightarrow> 1 \<le> real (scale_num num e) / real (scale_den den e)"
    using scale_den_pos[OF assms, of e] by (simp add: le_divide_eq)
  also have "\<dots> \<longleftrightarrow> 2 powi e \<le> real num / real den"
    using assms by (simp add: scale_ratio[OF assms] le_divide_eq mult.commute)
  finally show ?thesis .
qed

lemma log2_ratio_bounds:
  assumes "0 < num" and "0 < den"
  shows "2 powi (log2_ratio num den) \<le> real num / real den"
    and "real num / real den < 2 powi (log2_ratio num den + 1)"
proof -
  obtain i where i: "bit_length num = Suc i" "2 ^ i \<le> num" "num < 2 ^ Suc i"
    using bit_length_bounds assms(1) by blast
  obtain j where j: "bit_length den = Suc j" "2 ^ j \<le> den" "den < 2 ^ Suc j"
    using bit_length_bounds assms(2) by blast
  let ?x = "real num / real den" and ?k = "int i - int j"
  from i(2,3) have i': "2 ^ i \<le> real num" "real num < 2 ^ Suc i"
    by (metis of_nat_le_iff of_nat_numeral of_nat_power, metis of_nat_less_iff of_nat_numeral of_nat_power)
  from j(2,3) have j': "2 ^ j \<le> real den" "real den < 2 ^ Suc j"
    by (metis of_nat_le_iff of_nat_numeral of_nat_power, metis of_nat_less_iff of_nat_numeral of_nat_power)
  have pk: "2 powi (?k + 1) = 2 ^ Suc i / (2 ^ j :: real)" "2 powi (?k - 1) = 2 ^ i / (2 ^ Suc j :: real)"
    by (simp_all add: power_int_diff power_int_add)
  have up: "?x < 2 powi (?k + 1)"
    unfolding pk using i' j' assms by (intro frac_less) auto
  have lo: "2 powi (?k - 1) \<le> ?x"
    unfolding pk using i' j' assms by (intro frac_le) auto
  have L: "log2_ratio num den = (if 2 powi ?k \<le> ?x then ?k else ?k - 1)"
    using scale_le_iff[OF assms(2), of ?k num] by (simp add: log2_ratio_def i(1) j(1) Let_def)
  show "2 powi (log2_ratio num den) \<le> ?x" using L lo by simp
  show "?x < 2 powi (log2_ratio num den + 1)" using L up by auto
qed

lemma round_half_even_error:
  assumes "0 < d"
  shows "\<bar>real (round_half_even n d) - real n / real d\<bar> \<le> 1 / 2"
proof -
  let ?q = "n div d" and ?r = "n mod d"
  have n: "real n = real ?q * real d + real ?r"
    by (metis div_mult_mod_eq of_nat_add of_nat_mult)
  have x: "real n / real d = real ?q + real ?r / real d"
    using assms by (simp add: n field_simps)
  have r: "real ?r / real d < 1" "0 \<le> real ?r / real d" using assms by auto
  show ?thesis
  proof (cases "2 * ?r > d \<or> (2 * ?r = d \<and> odd ?q)")
    case True
    then have "d \<le> 2 * ?r" by auto
    then have "1 / 2 \<le> real ?r / real d" using assms by (simp add: field_simps)
    with True r show ?thesis by (auto simp: round_half_even_def Let_def x)
  next
    case False
    then have "2 * ?r \<le> d" by auto
    then have "real ?r / real d \<le> 1 / 2" using assms by (simp add: field_simps)
    with False r show ?thesis by (auto simp: round_half_even_def Let_def x)
  qed
qed

lemma round_half_even_ge:
  assumes "0 < d" and "M * d \<le> n"
  shows "M \<le> round_half_even n d"
proof -
  have "M \<le> n div d" using assms by (metis div_le_mono nonzero_mult_div_cancel_right less_numeral_extra(3))
  then show ?thesis by (auto simp: round_half_even_def Let_def)
qed

lemma round_half_even_exact: "0 < d \<Longrightarrow> round_half_even (k * d) d = k"
  by (simp add: round_half_even_def)

lemma round_bits_cases:
  assumes "0 < num" and "0 < den" and "0 < p" and rb: "round_bits p emin num den = (m, e)"
  obtains e1 where
    "e1 = (case emin of None \<Rightarrow> log2_ratio num den - (int p - 1)
                      | Some l \<Rightarrow> max (log2_ratio num den - (int p - 1)) l)"
    and "real m * 2 powi e = real (round_half_even (scale_num num e1) (scale_den den e1)) * 2 powi e1"
    and "(m, e) = (round_half_even (scale_num num e1) (scale_den den e1), e1) \<or> (m, e) = (2 ^ (p - 1), e1 + 1)"
proof -
  define e1 where "e1 = (case emin of None \<Rightarrow> log2_ratio num den - (int p - 1)
                      | Some l \<Rightarrow> max (log2_ratio num den - (int p - 1)) l)"
  let ?m = "round_half_even (scale_num num e1) (scale_den den e1)"
  have me: "(m, e) = (if ?m = 2 ^ p then (2 ^ (p - 1), e1 + 1) else (?m, e1))"
    using rb assms(1) by (auto simp: round_bits_def Let_def e1_def split: if_splits)
  have "(2 :: real) ^ p = 2 * 2 ^ (p - 1)" using assms(3) by (cases p) simp_all
  then have "real m * 2 powi e = real ?m * 2 powi e1"
    using me by (auto simp: power_int_add split: if_splits)
  then show thesis using that[of e1] me by (auto simp: e1_def split: if_splits)
qed

text \<open>The rounded value is within half a unit in the last place of the exact one.\<close>

lemma round_bits_error:
  assumes "0 < num" and "0 < den" and "0 < p" and "round_bits p emin num den = (m, e)"
    and e1: "e1 = (case emin of None \<Rightarrow> log2_ratio num den - (int p - 1)
                      | Some l \<Rightarrow> max (log2_ratio num den - (int p - 1)) l)"
  shows "\<bar>real m * 2 powi e - real num / real den\<bar> \<le> 2 powi e1 / 2"
proof -
  let ?m = "round_half_even (scale_num num e1) (scale_den den e1)"
  obtain e2 where "e2 = e1" and v: "real m * 2 powi e = real ?m * 2 powi e1"
    using round_bits_cases[OF assms(1-4)] e1 by metis
  have x: "real num / real den = real (scale_num num e1) / real (scale_den den e1) * 2 powi e1"
    by (simp add: scale_ratio[OF assms(2)])
  have "\<bar>real ?m - real (scale_num num e1) / real (scale_den den e1)\<bar> \<le> 1 / 2"
    by (rule round_half_even_error[OF scale_den_pos[OF assms(2)]])
  then have "\<bar>real ?m - real (scale_num num e1) / real (scale_den den e1)\<bar> * 2 powi e1 \<le> 1 / 2 * 2 powi e1"
    by (rule mult_right_mono) simp
  moreover have ab: "\<bar>a * b - c * b\<bar> = \<bar>a - c\<bar> * b" if "0 \<le> b" for a b c :: real
    using that by (simp add: abs_mult flip: left_diff_distrib)
  ultimately show ?thesis
    unfolding v x by (subst ab) simp_all
qed

lemma f32_of_ratio_error:
  assumes "0 < num" and "0 < den" and "f32_of_ratio neg num den = (Fin32 s m e, False)"
  shows "\<bar>real m * 2 powi e - real num / real den\<bar>
    \<le> max (2 powi (- 150)) (2 powi (- 24) * (real num / real den))"
proof -
  let ?x = "real num / real den" and ?k = "log2_ratio num den"
  obtain m1 e1 where rb: "round_bits 24 (Some (- 149)) num den = (m1, e1)" by fastforce
  have v: "real m * 2 powi e = real m1 * 2 powi e1"
    using assms(3) by (auto simp: f32_of_ratio_def rb split: if_splits)
  have err: "\<bar>real m * 2 powi e - ?x\<bar> \<le> 2 powi (max (?k - 23) (- 149)) / 2"
    unfolding v using round_bits_error[OF assms(1,2) _ rb] by simp
  have half: "(2 :: real) powi j / 2 = 2 powi (j - 1)" for j by (simp add: power_int_diff)
  show ?thesis
  proof (cases "- 149 \<le> ?k - 23")
    case True
    then have "max (?k - 23) (- 149) - 1 = - 24 + ?k" by linarith
    then have "2 powi (max (?k - 23) (- 149)) / 2 = (2 :: real) powi (- 24) * 2 powi ?k"
      unfolding half by (metis power_int_add zero_neq_numeral)
    also have "\<dots> \<le> 2 powi (- 24) * ?x"
      using log2_ratio_bounds(1)[OF assms(1,2)] by (intro mult_left_mono) auto
    finally show ?thesis using err by linarith
  next
    case False
    then have "2 powi (max (?k - 23) (- 149)) / 2 = (2 :: real) powi (- 150)" by (simp add: half)
    then show ?thesis using err by linarith
  qed
qed

section \<open>Integers as float32\<close>

lemma scale_int_pos: "0 \<le> e \<Longrightarrow> scale_num n e = n \<and> scale_den d e = d * 2 ^ nat e"
  and scale_int_neg: "e \<le> 0 \<Longrightarrow> scale_num n e = n * 2 ^ nat (- e) \<and> scale_den d e = d"
  by (auto simp: scale_num_def scale_den_def)

lemma log2_nat:
  assumes "0 < n" obtains k where "log2_ratio n 1 = int k" "2 ^ k \<le> n" "n < 2 ^ Suc k"
proof -
  obtain i where i: "bit_length n = Suc i" "2 ^ i \<le> n" "n < 2 ^ Suc i"
    using bit_length_bounds assms by blast
  have "bit_length 1 = 1" by (simp add: bit_length.simps)
  with i have "log2_ratio n 1 = int i" by (simp add: log2_ratio_def scale_num_def scale_den_def)
  with i that show thesis by blast
qed

lemma f32_small_nat:
  assumes "0 < n" and "n < 2 ^ 24"
  obtains j where "f32_of_ratio neg n 1 = (Fin32 neg (n * 2 ^ j) (- int j), False)"
proof -
  obtain k where k: "log2_ratio n 1 = int k" "2 ^ k \<le> n" "n < 2 ^ Suc k"
    using log2_nat assms(1) by blast
  have k24: "k < 24"
  proof (rule ccontr)
    assume "\<not> k < 24"
    then have "(2 :: nat) ^ 24 \<le> 2 ^ k" by (intro power_increasing) auto
    with k(2) assms(2) show False by linarith
  qed
  define j where "j = 23 - k"
  have e: "max (int k - 23) (- 149) = - int j" using k24 by (simp add: j_def)
  have "n * 2 ^ j < 2 ^ Suc k * 2 ^ j" using k(3) by simp
  also have "\<dots> = 2 ^ 24" unfolding j_def using k24 by (simp add: power_add[symmetric])
  finally have lt: "n * 2 ^ j < 2 ^ 24" .
  have "round_half_even (scale_num n (- int j)) (scale_den 1 (- int j)) = n * 2 ^ j"
    using round_half_even_exact[of 1 "n * 2 ^ j"] by (simp add: scale_int_neg del: One_nat_def)
  then have "round_bits 24 (Some (- 149)) n 1 = (n * 2 ^ j, - int j)"
    using assms(1) lt by (simp add: round_bits_def Let_def k(1) e del: One_nat_def)
  then have "f32_of_ratio neg n 1 = (Fin32 neg (n * 2 ^ j) (- int j), False)"
    using assms(1) by (simp add: f32_of_ratio_def)
  with that show thesis by blast
qed

lemma f32_large_nat:
  assumes "2 ^ 24 \<le> n"
  obtains m e k where "f32_of_ratio neg n 1 = (if e > 104 then (Inf32 neg, True) else (Fin32 neg m e, False))"
    and "2 ^ 23 \<le> m" "2 ^ k \<le> n" "n < 2 ^ Suc k" "24 \<le> k" "e = int k - 23 \<or> e = int k - 22"
proof -
  have n0: "0 < n" using assms by (metis less_le_trans zero_less_numeral zero_less_power)
  obtain k where k: "log2_ratio n 1 = int k" "2 ^ k \<le> n" "n < 2 ^ Suc k"
    using log2_nat n0 by blast
  have k24: "24 \<le> k"
  proof (rule ccontr)
    assume "\<not> 24 \<le> k"
    then have "(2 :: nat) ^ Suc k \<le> 2 ^ 24" by (intro power_increasing) auto
    with k(3) assms show False by linarith
  qed
  obtain m e where rb: "round_bits 24 (Some (- 149)) n 1 = (m, e)" by fastforce
  have mx: "max (int k - 23) (- 149) = int k - 23" using k24 by simp
  let ?m = "round_half_even (scale_num n (int k - 23)) (scale_den 1 (int k - 23))"
  have me: "(m, e) = (?m, int k - 23) \<or> (m, e) = (2 ^ 23, int k - 22)"
  proof (rule round_bits_cases[OF n0 zero_less_one _ rb])
    fix e1
    assume e1: "e1 = (case Some (- 149) of None \<Rightarrow> log2_ratio n 1 - (int 24 - 1)
        | Some l \<Rightarrow> max (log2_ratio n 1 - (int 24 - 1)) l)"
      and d: "(m, e) = (round_half_even (scale_num n e1) (scale_den 1 e1), e1) \<or>
        (m, e) = (2 ^ (24 - 1), e1 + 1)"
    from e1 mx have "e1 = int k - 23" by (simp only: k(1) option.case)
    with d show ?thesis by simp
  qed simp
  have nk: "nat (int k - 23) = k - 23" by simp
  have sc: "scale_num n (int k - 23) = n" "scale_den 1 (int k - 23) = 2 ^ (k - 23)"
    using k24 scale_int_pos[of "int k - 23" n 1] by (simp_all add: nk)
  have "(2 :: nat) ^ 23 * 2 ^ (k - 23) = 2 ^ (23 + (k - 23))" by (rule power_add[symmetric])
  then have "(2 :: nat) ^ 23 * 2 ^ (k - 23) \<le> n" using k(2) k24 by simp
  then have "2 ^ 23 \<le> ?m" unfolding sc by (intro round_half_even_ge zero_less_power) simp
  with me have m: "2 ^ 23 \<le> m" by auto
  then have "m \<noteq> 0" by (metis le_zero_eq power_not_zero zero_neq_numeral)
  then have "f32_of_ratio neg n 1 = (if e > 104 then (Inf32 neg, True) else (Fin32 neg m e, False))"
    by (simp add: f32_of_ratio_def rb del: One_nat_def)
  with that m k k24 me show thesis by blast
qed

text \<open>A positive integer below \<open>2 ^ 127\<close> rounds without overflow, and comparing its rounding
  with a constant of at most 24 bits is comparing the integer itself.\<close>

lemma f32_nat_compare:
  assumes "0 < n" and "n < 2 ^ 127" and "0 < c" and "c \<le> 2 ^ 24"
  obtains f where "f32_of_ratio False n 1 = (f, False)" "f32_gt0 f" "f32_ge f c \<longleftrightarrow> c \<le> n"
proof (cases "n < 2 ^ 24")
  case True
  obtain j where j: "f32_of_ratio False n 1 = (Fin32 False (n * 2 ^ j) (- int j), False)"
    using f32_small_nat[OF assms(1) True] by blast
  moreover have "f32_ge (Fin32 False (n * 2 ^ j) (- int j)) c \<longleftrightarrow> c \<le> n"
    by (simp add: scale_int_neg)
  ultimately show thesis using that assms(1) by simp
next
  case False
  then have n24: "2 ^ 24 \<le> n" by simp
  obtain m e k where r: "f32_of_ratio False n 1 =
      (if e > 104 then (Inf32 False, True) else (Fin32 False m e, False))"
    and b: "2 ^ 23 \<le> m" "2 ^ k \<le> n" "n < 2 ^ Suc k" "24 \<le> k" "e = int k - 23 \<or> e = int k - 22"
    by (rule f32_large_nat[OF n24, of False]) blast
  have "k < 127"
  proof (rule ccontr)
    assume "\<not> k < 127"
    then have "(2 :: nat) ^ 127 \<le> 2 ^ k" by (intro power_increasing) auto
    with b(2) assms(2) show False by linarith
  qed
  with b(5) have e: "e \<le> 104" "1 \<le> e" using b(4) by auto
  have "(2 :: nat) ^ 1 \<le> 2 ^ nat e" using e by (intro power_increasing) auto
  then have "2 ^ 23 * 2 \<le> m * 2 ^ nat e" using b(1) by (intro mult_le_mono) simp_all
  with assms(4) have "c \<le> m * 2 ^ nat e" by simp
  with e have ge: "f32_ge (Fin32 False m e) c" by (simp add: scale_int_pos)
  have "0 < m" using b(1) by (metis less_le_trans zero_less_numeral zero_less_power)
  moreover have "c \<le> n" using assms(4) n24 by linarith
  ultimately show thesis using that[of "Fin32 False m e"] r e ge by simp
qed

text \<open>From \<open>2 ^ 128\<close> on every integer overflows.\<close>

lemma f32_nat_overflow:
  assumes "2 ^ 128 \<le> n"
  shows "f32_of_ratio False n 1 = (Inf32 False, True)"
proof -
  have "(2 :: nat) ^ 24 \<le> 2 ^ 128" by (intro power_increasing) auto
  with assms have n24: "2 ^ 24 \<le> n" by linarith
  obtain m e k where r: "f32_of_ratio False n 1 =
      (if e > 104 then (Inf32 False, True) else (Fin32 False m e, False))"
    and b: "2 ^ k \<le> n" "n < 2 ^ Suc k" "e = int k - 23 \<or> e = int k - 22"
    by (rule f32_large_nat[OF n24, of False]) blast
  have "128 \<le> k"
  proof (rule ccontr)
    assume "\<not> 128 \<le> k"
    then have "(2 :: nat) ^ Suc k \<le> 2 ^ 128" by (intro power_increasing) auto
    with b(2) assms show False by linarith
  qed
  with b(3) have "e > 104" by auto
  with r show ?thesis by simp
qed

section \<open>Reading a decimal integer\<close>

lemma is_digit_not_special:
  assumes "is_digit c"
  shows "c \<noteq> CHR ''+''" "c \<noteq> CHR ''-''" "c \<noteq> CHR ''_''" "c \<noteq> CHR ''.''"
    "lower_byte c < 97" "48 \<le> lower_byte c"
  using assms by (auto simp: is_digit_def lower_byte_def Let_def)

lemma drop_sign_digits: "list_all is_digit s \<Longrightarrow> drop_sign s = s"
  and has_minus_digits: "list_all is_digit s \<Longrightarrow> \<not> has_minus s"
  by (cases s; simp add: drop_sign_def has_minus_def is_digit_not_special)+

lemma read_mant_digits: "list_all is_digit s \<Longrightarrow> \<not> m_dot a \<Longrightarrow>
    read_mant 10 a s = (a\<lparr>m_val := foldl (\<lambda>v c. 10 * v + digit_val c) (m_val a) s,
      m_digits := m_digits a \<or> s \<noteq> []\<rparr>, [])"
  by (induction s arbitrary: a) (simp_all add: is_digit_not_special add_digit_def)

lemma show_nat_list_all [simp]: "list_all is_digit (show_nat n)"
  using show_nat_digits by (simp add: list_all_iff)

lemma digits_not_hex:
  assumes "list_all is_digit s"
  shows "\<not> (case s of a # b # _ # _ \<Rightarrow> a = CHR ''0'' \<and> lower_byte b = 120 | _ \<Rightarrow> False)"
  using assms by (auto split: list.split dest!: is_digit_not_special(5))

lemma read_float_nat: "read_float (show_nat n) = Some (False, n, 1)"
proof -
  let ?s = "show_nat n"
  have d: "list_all is_digit ?s" by simp
  have "foldl (\<lambda>v c. 10 * v + digit_val c) 0 ?s = n"
    using read_show_nat[of n] by (simp add: read_nat_def)
  then have "read_mant 10 mant0 ?s = (mant0\<lparr>m_val := n, m_digits := True\<rparr>, [])"
    using read_mant_digits[OF d, of mant0] by (simp add: mant0_def)
  then show ?thesis
    using digits_not_hex[OF d] drop_sign_digits[OF d] has_minus_digits[OF d]
    by (simp add: read_float_def Let_def read_exponent_def mant0_def)
qed

lemma special_float_nat: "special_float (show_nat n) = None"
proof -
  obtain c cs where s: "show_nat n = c # cs" by (cases "show_nat n") auto
  have "is_digit c" using show_nat_digits[of n] s by simp
  then have "lower_byte c < 97" by (rule is_digit_not_special)
  moreover have "drop_sign (c # cs) = c # cs"
    using drop_sign_digits[of "show_nat n"] s show_nat_list_all[of n] by metis
  ultimately show ?thesis using s by (auto simp: special_float_def Let_def)
qed

lemma ParseFloat32_nat: "ParseFloat32 (show_nat n) =
    (case f32_of_ratio False n 1 of (f, o1) \<Rightarrow> if o1 then Inl (Err ''value out of range'') else Inr f)"
  by (simp add: ParseFloat32_def special_float_nat read_float_nat)

lemma big_SetString_show [simp]: "big_SetString (show_int i) = Some i"
proof (cases "i < 0")
  case True
  then show ?thesis
    by (simp add: big_SetString_def show_int_def drop_sign_def has_minus_def Let_def)
next
  case False
  then show ?thesis
    using drop_sign_digits[of "show_nat (nat i)"] has_minus_digits[of "show_nat (nat i)"]
    by (simp add: big_SetString_def show_int_def Let_def)
qed

lemma big_roundtrip: "big_SetString s = Some i \<Longrightarrow> big_SetString (big_String i) = Some i"
  by (simp add: big_String_def)

lemma Atoi_show: "- (2 ^ 63) \<le> i \<Longrightarrow> i < 2 ^ 63 \<Longrightarrow> Atoi (show_int i) = Some i"
  by (simp add: Atoi_def)

end
