(* ===== verification/Go_Json.thy ===== *)
theory Go_Json
  imports Go_Text Go_Float
begin

text \<open>
  \<open>encoding/json\<close> as the indexer uses it: \<open>Unmarshal\<close> of a text into an
  \<open>interface{}\<close>, a \<open>[]interface{}\<close>, a \<open>map[string]interface{}\<close> or a struct of strings,
  and \<open>Marshal\<close> of strings. A lexer (one automaton over the bytes) feeds a pushdown
  automaton over the tokens, whose stack is the \<open>parseState\<close> stack of the Go scanner,
  bounded by its nesting limit.
\<close>

datatype json = JNull | JBool bool | JNum string | JStr string
  | JArr "json list" | JObj "(string \<times> json) list"

datatype token = TLit json | TLBrack | TRBrack | TLBrace | TRBrace | TComma | TColon

section \<open>Lexer\<close>

text \<open>A character of a string literal: a byte, or the code unit of a \<open>\u\<close> escape.\<close>

datatype str_unit = Raw char | Unit nat

definition fix_utf8 :: "string \<Rightarrow> string" where
  "fix_utf8 s = concat (map encode_rune (runes s))"

definition is_surrogate :: "nat \<Rightarrow> bool" where
  "is_surrogate r \<longleftrightarrow> 55296 \<le> r \<and> r \<le> 57343"

definition surrogate_pair :: "nat \<Rightarrow> nat \<Rightarrow> bool" where
  "surrogate_pair h l \<longleftrightarrow> 55296 \<le> h \<and> h < 56320 \<and> 56320 \<le> l \<and> l < 57344"

fun decode_units :: "string \<Rightarrow> str_unit list \<Rightarrow> string" where
  "decode_units raw [] = fix_utf8 (rev raw)"
| "decode_units raw (Raw c # us) = decode_units (c # raw) us"
| "decode_units raw (Unit h # Unit l # us) =
     (if surrogate_pair h l
      then fix_utf8 (rev raw) @ encode_rune ((h - 55296) * 1024 + (l - 56320) + 65536) @ decode_units [] us
      else fix_utf8 (rev raw) @ encode_rune (if is_surrogate h then RuneError else h)
             @ decode_units [] (Unit l # us))"
| "decode_units raw (Unit h # us) =
     fix_utf8 (rev raw) @ encode_rune (if is_surrogate h then RuneError else h) @ decode_units [] us"

datatype lex_mode = Idle | InStr "str_unit list" | InEsc "str_unit list"
  | InHex "str_unit list" nat nat | InNum string | InWord string

definition is_space :: "char \<Rightarrow> bool" where
  "is_space c \<longleftrightarrow> (of_char c :: nat) \<in> {32, 9, 13, 10}"

definition is_num_char :: "char \<Rightarrow> bool" where
  "is_num_char c \<longleftrightarrow> is_digit c \<or> c \<in> set ''+-.eE''"

definition is_word_char :: "char \<Rightarrow> bool" where
  "is_word_char c \<longleftrightarrow> 97 \<le> (of_char c :: nat) \<and> (of_char c :: nat) \<le> 122"

text \<open>The grammar of a number.\<close>

definition json_exp_ok :: "string \<Rightarrow> bool" where
  "json_exp_ok s = (case s of [] \<Rightarrow> True
     | c # cs \<Rightarrow> (c = CHR ''e'' \<or> c = CHR ''E'') \<and> drop_sign cs \<noteq> [] \<and> list_all is_digit (drop_sign cs))"

definition json_frac_ok :: "string \<Rightarrow> bool" where
  "json_frac_ok s = (case s of
     c # cs \<Rightarrow> if c = CHR ''.'' then takeWhile is_digit cs \<noteq> [] \<and> json_exp_ok (dropWhile is_digit cs)
       else json_exp_ok s
   | [] \<Rightarrow> True)"

definition json_number_ok :: "string \<Rightarrow> bool" where
  "json_number_ok s =
     (let b = (case s of c # cs \<Rightarrow> if c = CHR ''-'' then cs else s | [] \<Rightarrow> []);
          ds = takeWhile is_digit b
      in ds \<noteq> [] \<and> (hd ds = CHR ''0'' \<longrightarrow> length ds = 1) \<and> json_frac_ok (dropWhile is_digit b))"

definition word_token :: "string \<Rightarrow> token option" where
  "word_token w = (if w = ''null'' then Some (TLit JNull)
     else if w = ''true'' then Some (TLit (JBool True))
     else if w = ''false'' then Some (TLit (JBool False)) else None)"

definition num_token :: "string \<Rightarrow> token option" where
  "num_token n = (if json_number_ok n then Some (TLit (JNum n)) else None)"

definition punct_token :: "char \<Rightarrow> token option" where
  "punct_token c = (if c = CHR ''['' then Some TLBrack else if c = CHR '']'' then Some TRBrack
     else if c = CHR ''{'' then Some TLBrace else if c = CHR ''}'' then Some TRBrace
     else if c = CHR '','' then Some TComma else if c = CHR '':'' then Some TColon else None)"

definition escape_unit :: "char \<Rightarrow> str_unit option" where
  "escape_unit c = map_option Raw
     (map_of [(CHR ''b'', CHR 0x08), (CHR ''f'', CHR 0x0C), (CHR ''n'', CHR 0x0A), (CHR ''r'', CHR 0x0D),
              (CHR ''t'', CHR 0x09), (CHR 0x5C, CHR 0x5C), (CHR ''/'', CHR ''/''), (CHR 0x22, CHR 0x22)] c)"

definition cons_tok :: "token option \<Rightarrow> token list option \<Rightarrow> token list option" where
  "cons_tok t ts = (case (t, ts) of (Some x, Some xs) \<Rightarrow> Some (x # xs) | _ \<Rightarrow> None)"

text \<open>What the start of a token puts the automaton into.\<close>

definition start_mode :: "char \<Rightarrow> lex_mode option" where
  "start_mode c = (if c = CHR 0x22 then Some (InStr [])
     else if is_digit c \<or> c = CHR ''-'' then Some (InNum [c])
     else if is_word_char c then Some (InWord [c]) else None)"

fun lex_go :: "lex_mode \<Rightarrow> string \<Rightarrow> token list option" where
  "lex_go Idle [] = Some []"
| "lex_go (InNum n) [] = cons_tok (num_token (rev n)) (Some [])"
| "lex_go (InWord w) [] = cons_tok (word_token (rev w)) (Some [])"
| "lex_go _ [] = None"
| "lex_go (InStr us) (c # cs) =
     (if c = CHR 0x22 then cons_tok (Some (TLit (JStr (decode_units [] (rev us))))) (lex_go Idle cs)
      else if c = CHR 0x5C then lex_go (InEsc us) cs
      else if (of_char c :: nat) < 32 then None
      else lex_go (InStr (Raw c # us)) cs)"
| "lex_go (InEsc us) (c # cs) =
     (if c = CHR ''u'' then lex_go (InHex us 0 0) cs
      else case escape_unit c of None \<Rightarrow> None | Some u \<Rightarrow> lex_go (InStr (u # us)) cs)"
| "lex_go (InHex us n v) (c # cs) =
     (case hex_val c of None \<Rightarrow> None
      | Some d \<Rightarrow> if n = 3 then lex_go (InStr (Unit (16 * v + d) # us)) cs
                  else lex_go (InHex us (Suc n) (16 * v + d)) cs)"
| "lex_go (InNum n) (c # cs) =
     (if is_num_char c then lex_go (InNum (c # n)) cs
      else cons_tok (num_token (rev n))
        (if is_space c then lex_go Idle cs
         else case start_mode c of Some m \<Rightarrow> lex_go m cs | None \<Rightarrow> cons_tok (punct_token c) (lex_go Idle cs)))"
| "lex_go (InWord w) (c # cs) =
     (if is_word_char c then lex_go (InWord (c # w)) cs
      else cons_tok (word_token (rev w))
        (if is_space c then lex_go Idle cs
         else case start_mode c of Some m \<Rightarrow> lex_go m cs | None \<Rightarrow> cons_tok (punct_token c) (lex_go Idle cs)))"
| "lex_go Idle (c # cs) =
     (if is_space c then lex_go Idle cs
      else case start_mode c of Some m \<Rightarrow> lex_go m cs | None \<Rightarrow> cons_tok (punct_token c) (lex_go Idle cs))"

section \<open>Parser\<close>

datatype frame = FArr "json list" | FObj "(string \<times> json) list" string

datatype expect = WantValue | WantValueOrEnd | WantKey | WantKeyOrEnd | WantColon | WantCommaOrEnd
  | Finished json

definition maxNestingDepth :: nat where "maxNestingDepth = 10000"

fun put_value :: "json \<Rightarrow> frame list \<Rightarrow> expect \<times> frame list" where
  "put_value v [] = (Finished v, [])"
| "put_value v (FArr vs # fs) = (WantCommaOrEnd, FArr (v # vs) # fs)"
| "put_value v (FObj ms k # fs) = (WantCommaOrEnd, FObj ((k, v) # ms) k # fs)"

definition push_frame :: "expect \<Rightarrow> frame \<Rightarrow> frame list \<Rightarrow> (expect \<times> frame list) option" where
  "push_frame e f fs = (if length fs < maxNestingDepth then Some (e, f # fs) else None)"

definition value_token :: "token \<Rightarrow> frame list \<Rightarrow> (expect \<times> frame list) option" where
  "value_token t fs = (case t of
     TLit (JStr s) \<Rightarrow> Some (put_value (JStr s) fs)
   | TLit v \<Rightarrow> Some (put_value v fs)
   | TLBrack \<Rightarrow> push_frame WantValueOrEnd (FArr []) fs
   | TLBrace \<Rightarrow> push_frame WantKeyOrEnd (FObj [] []) fs
   | _ \<Rightarrow> None)"

definition key_token :: "token \<Rightarrow> frame list \<Rightarrow> (expect \<times> frame list) option" where
  "key_token t fs = (case (t, fs) of
     (TLit (JStr k), FObj ms _ # r) \<Rightarrow> Some (WantColon, FObj ms k # r) | _ \<Rightarrow> None)"

fun parse_step :: "expect \<times> frame list \<Rightarrow> token \<Rightarrow> (expect \<times> frame list) option" where
  "parse_step (WantValue, fs) t = value_token t fs"
| "parse_step (WantValueOrEnd, FArr vs # fs) TRBrack = Some (put_value (JArr (rev vs)) fs)"
| "parse_step (WantValueOrEnd, fs) t = value_token t fs"
| "parse_step (WantKeyOrEnd, FObj ms k # fs) TRBrace = Some (put_value (JObj (rev ms)) fs)"
| "parse_step (WantKeyOrEnd, fs) t = key_token t fs"
| "parse_step (WantKey, fs) t = key_token t fs"
| "parse_step (WantColon, fs) TColon = Some (WantValue, fs)"
| "parse_step (WantCommaOrEnd, FArr vs # fs) TComma = Some (WantValue, FArr vs # fs)"
| "parse_step (WantCommaOrEnd, FObj ms k # fs) TComma = Some (WantKey, FObj ms k # fs)"
| "parse_step (WantCommaOrEnd, FArr vs # fs) TRBrack = Some (put_value (JArr (rev vs)) fs)"
| "parse_step (WantCommaOrEnd, FObj ms k # fs) TRBrace = Some (put_value (JObj (rev ms)) fs)"
| "parse_step _ _ = None"

fun parse_tokens :: "expect \<times> frame list \<Rightarrow> token list \<Rightarrow> (expect \<times> frame list) option" where
  "parse_tokens st [] = Some st"
| "parse_tokens st (t # ts) = (case parse_step st t of None \<Rightarrow> None | Some st' \<Rightarrow> parse_tokens st' ts)"

definition json_parse :: "string \<Rightarrow> json option" where
  "json_parse s = (case lex_go Idle s of None \<Rightarrow> None
     | Some ts \<Rightarrow> (case parse_tokens (WantValue, []) ts of
          Some (Finished v, []) \<Rightarrow> Some v | _ \<Rightarrow> None))"

section \<open>Decoding into Go values\<close>

text \<open>The dynamic types an \<open>interface{}\<close> can hold where the code inspects one.\<close>

datatype gval = GNil | GBool bool | GFloat64 string | GString string
  | GSlice "gval list" | GMap "(string \<times> gval) list" | GBytes string | GInt int

primrec to_gval :: "json \<Rightarrow> gval" where
  "to_gval JNull = GNil"
| "to_gval (JBool b) = GBool b"
| "to_gval (JNum n) = GFloat64 n"
| "to_gval (JStr s) = GString s"
| "to_gval (JArr vs) = GSlice (map to_gval vs)"
| "to_gval (JObj ms) = GMap (map (map_prod (\<lambda>a. a) to_gval) ms)"

text \<open>A number must fit a float64.\<close>

definition float64_ok :: "string \<Rightarrow> bool" where
  "float64_ok n = (case read_float n of None \<Rightarrow> False
     | Some (neg, num, den) \<Rightarrow> snd (round_bits 53 (Some (- 1074)) num den) \<le> 971)"

primrec numbers_ok :: "json \<Rightarrow> bool" where
  "numbers_ok JNull = True"
| "numbers_ok (JBool b) = True"
| "numbers_ok (JNum n) = float64_ok n"
| "numbers_ok (JStr s) = True"
| "numbers_ok (JArr vs) = list_all id (map numbers_ok vs)"
| "numbers_ok (JObj ms) = list_all snd (map (map_prod (\<lambda>a. a) numbers_ok) ms)"

definition json_err :: go_error where "json_err = Err ''json''"

text \<open>\<open>json.Unmarshal\<close> into an \<open>interface{}\<close>, a \<open>[]interface{}\<close> and a \<open>map[string]interface{}\<close>:
  \<open>null\<close> is the nil slice or map, any other type is an error.\<close>

definition Unmarshal_any :: "string \<Rightarrow> go_error + gval" where
  "Unmarshal_any s = (case json_parse s of None \<Rightarrow> Inl json_err
     | Some j \<Rightarrow> if numbers_ok j then Inr (to_gval j) else Inl json_err)"

definition Unmarshal_slice :: "string \<Rightarrow> go_error + gval list" where
  "Unmarshal_slice s = (case Unmarshal_any s of Inl e \<Rightarrow> Inl e
     | Inr (GSlice vs) \<Rightarrow> Inr vs | Inr GNil \<Rightarrow> Inr [] | Inr _ \<Rightarrow> Inl json_err)"

definition Unmarshal_map :: "string \<Rightarrow> go_error + (string \<times> gval) list" where
  "Unmarshal_map s = (case Unmarshal_any s of Inl e \<Rightarrow> Inl e
     | Inr (GMap ms) \<Rightarrow> Inr ms | Inr GNil \<Rightarrow> Inr [] | Inr _ \<Rightarrow> Inl json_err)"

text \<open>Reading a key of such a map: the last member of that name; nil when there is none.\<close>

definition map_get :: "(string \<times> gval) list \<Rightarrow> string \<Rightarrow> gval" where
  "map_get ms k = (case map_of (rev ms) k of None \<Rightarrow> GNil | Some v \<Rightarrow> v)"

text \<open>Matching a member name with a struct field: exactly, or else up to ASCII case, where
  the letters k and s also match the Kelvin sign and the long s.\<close>

fun fold_match :: "string \<Rightarrow> string \<Rightarrow> bool" where
  "fold_match [] k = (k = [])"
| "fold_match (c # cs) k =
     ((case k of [] \<Rightarrow> False | d # ds \<Rightarrow> byte_lower c = byte_lower d \<and> fold_match cs ds)
      \<or> (byte_lower c = CHR ''s'' \<and> take 2 k = map char_of [197 :: nat, 191] \<and> fold_match cs (drop 2 k))
      \<or> (byte_lower c = CHR ''k'' \<and> take 3 k = map char_of [226 :: nat, 132, 170] \<and> fold_match cs (drop 3 k)))"

definition find_field :: "string list \<Rightarrow> string \<Rightarrow> string option" where
  "find_field names k = (if k \<in> set names then Some k else find (\<lambda>f. fold_match f k) names)"

text \<open>A string field: \<open>null\<close> leaves it, another type is a (saved) error.\<close>

definition set_string :: "string \<Rightarrow> json \<Rightarrow> string \<times> bool" where
  "set_string old v = (case v of JStr s \<Rightarrow> (s, True) | JNull \<Rightarrow> (old, True) | _ \<Rightarrow> (old, False))"

text \<open>A \<open>[]string\<close> field.\<close>

definition set_strings :: "string list \<Rightarrow> json \<Rightarrow> string list \<times> bool" where
  "set_strings old v = (case v of
     JArr vs \<Rightarrow> (map (\<lambda>(i, x). fst (set_string (if i < length old then old ! i else []) x))
                  (zip [0..<length vs] vs), list_all (\<lambda>x. snd (set_string [] x)) vs)
   | JNull \<Rightarrow> ([], True) | _ \<Rightarrow> (old, False))"

section \<open>Encoding strings\<close>

definition hex4 :: "nat \<Rightarrow> string" where
  "hex4 n = [CHR 0x5C, CHR ''u'', hex_char (n div 4096 mod 16), hex_char (n div 256 mod 16),
     hex_char (n div 16 mod 16), hex_char (n mod 16)]"

definition quote_rune :: "nat \<Rightarrow> string" where
  "quote_rune r =
     (if r = 34 then [CHR 0x5C, CHR 0x22] else if r = 92 then [CHR 0x5C, CHR 0x5C]
      else if r = 10 then [CHR 0x5C, CHR ''n''] else if r = 13 then [CHR 0x5C, CHR ''r'']
      else if r = 9 then [CHR 0x5C, CHR ''t'']
      else if r < 32 \<or> r = 60 \<or> r = 62 \<or> r = 38 then hex4 r
      else if r = 8232 \<or> r = 8233 then hex4 r
      else encode_rune r)"

text \<open>An invalid byte is written as the escaped error rune, a valid U+FFFD as itself.\<close>

fun quote_body :: "string \<Rightarrow> string" where
  "quote_body [] = []"
| "quote_body (c # cs) = (let (r, n) = decode_rune c cs in
     (if r = RuneError \<and> n = 1 then hex4 RuneError else quote_rune r) @ quote_body (drop (n - 1) cs))"

definition json_quote :: "string \<Rightarrow> string" where
  "json_quote s = CHR 0x22 # quote_body s @ [CHR 0x22]"

section \<open>Parsing what was written\<close>

text \<open>The tokens of a value, and its nesting depth.\<close>

fun sep_concat :: "token list list \<Rightarrow> token list" where
  "sep_concat [] = []"
| "sep_concat [x] = x"
| "sep_concat (x # xs) = x @ TComma # sep_concat xs"

primrec tokens_of :: "json \<Rightarrow> token list" where
  "tokens_of JNull = [TLit JNull]"
| "tokens_of (JBool b) = [TLit (JBool b)]"
| "tokens_of (JNum n) = [TLit (JNum n)]"
| "tokens_of (JStr s) = [TLit (JStr s)]"
| "tokens_of (JArr vs) = TLBrack # sep_concat (map tokens_of vs) @ [TRBrack]"
| "tokens_of (JObj ms) = TLBrace #
     sep_concat (map (\<lambda>(k, ts). TLit (JStr k) # TColon # ts) (map (map_prod (\<lambda>a. a) tokens_of) ms)) @ [TRBrace]"

primrec json_depth :: "json \<Rightarrow> nat" where
  "json_depth JNull = 0"
| "json_depth (JBool b) = 0"
| "json_depth (JNum n) = 0"
| "json_depth (JStr s) = 0"
| "json_depth (JArr vs) = Suc (foldr max (map json_depth vs) 0)"
| "json_depth (JObj ms) = Suc (foldr max (map snd (map (map_prod (\<lambda>a. a) json_depth) ms)) 0)"

lemma parse_tokens_append: "parse_tokens st (xs @ ys) =
    (case parse_tokens st xs of None \<Rightarrow> None | Some st' \<Rightarrow> parse_tokens st' ys)"
  by (induction xs arbitrary: st) (auto split: option.splits)

lemma foldr_max_le: "x \<in> set xs \<Longrightarrow> x \<le> foldr max xs (0 :: nat)"
  by (induction xs) auto

lemma parse_elements:
  assumes el: "\<And>v fs. v \<in> set vs \<Longrightarrow> length fs + json_depth v \<le> maxNestingDepth \<Longrightarrow>
      parse_tokens (WantValue, fs) (tokens_of v) = Some (put_value v fs)"
    and d: "\<And>v. v \<in> set vs \<Longrightarrow> Suc (length fs) + json_depth v \<le> maxNestingDepth"
    and ne: "vs \<noteq> []"
  shows "parse_tokens (WantValue, FArr us # fs) (sep_concat (map tokens_of vs)) =
    Some (WantCommaOrEnd, FArr (rev vs @ us) # fs)"
  using assms
proof (induction vs arbitrary: us)
  case (Cons v vs)
  have v: "parse_tokens (WantValue, FArr us # fs) (tokens_of v) =
      Some (WantCommaOrEnd, FArr (v # us) # fs)"
    using Cons.prems(1)[of v "FArr us # fs"] Cons.prems(2)[of v] by simp
  show ?case
  proof (cases vs)
    case Nil
    with v show ?thesis by simp
  next
    case (Cons w ws)
    with v Cons.IH[of "v # us"] Cons.prems show ?thesis
      by (simp add: parse_tokens_append)
  qed
qed simp

lemma parse_members:
  assumes el: "\<And>k v fs. (k, v) \<in> set ms \<Longrightarrow> length fs + json_depth v \<le> maxNestingDepth \<Longrightarrow>
      parse_tokens (WantValue, fs) (tokens_of v) = Some (put_value v fs)"
    and d: "\<And>k v. (k, v) \<in> set ms \<Longrightarrow> Suc (length fs) + json_depth v \<le> maxNestingDepth"
    and ne: "ms \<noteq> []" and e: "e = WantKey \<or> e = WantKeyOrEnd"
  shows "\<exists>k'. parse_tokens (e, FObj us k # fs)
      (sep_concat (map (\<lambda>(k, ts). TLit (JStr k) # TColon # ts) (map (map_prod (\<lambda>a. a) tokens_of) ms))) =
    Some (WantCommaOrEnd, FObj (rev ms @ us) k' # fs)"
  using assms
proof (induction ms arbitrary: us k e)
  case (Cons m ms)
  obtain n v where m: "m = (n, v)" by fastforce
  have v: "parse_tokens (WantValue, FObj us n # fs) (tokens_of v) =
      Some (WantCommaOrEnd, FObj ((n, v) # us) n # fs)"
    using Cons.prems(1)[of n v "FObj us n # fs"] Cons.prems(2)[of n v] m by simp
  have key: "parse_step (e, FObj us k # fs) (TLit (JStr n)) = Some (WantColon, FObj us n # fs)"
    using Cons.prems(4) by (auto simp: key_token_def)
  show ?case
  proof (cases ms)
    case Nil
    with v key m show ?thesis by simp
  next
    case ms: (Cons w ws)
    have "\<exists>k'. parse_tokens (WantKey, FObj ((n, v) # us) n # fs)
        (sep_concat (map (\<lambda>(k, ts). TLit (JStr k) # TColon # ts) (map (map_prod (\<lambda>a. a) tokens_of) ms))) =
      Some (WantCommaOrEnd, FObj (rev ms @ (n, v) # us) k' # fs)"
      proof (rule Cons.IH)
      show "parse_tokens (WantValue, fs) (tokens_of v) = Some (put_value v fs)"
        if "(k, v) \<in> set ms" "length fs + json_depth v \<le> maxNestingDepth" for k v fs
        by (rule Cons.prems(1)) (use that in auto)
      show "Suc (length fs) + json_depth v \<le> maxNestingDepth" if "(k, v) \<in> set ms" for k v
        by (rule Cons.prems(2)) (use that in auto)
    qed (use ms in auto)
    moreover obtain wn wv where "w = (wn, wv)" by fastforce
    ultimately show ?thesis using v key m ms by (simp add: parse_tokens_append)
  qed
qed simp

lemma tokens_of_first: "\<exists>t ts. tokens_of v = t # ts \<and> t \<noteq> TRBrack"
  by (cases v) auto

lemma want_value_or_end:
  "t \<noteq> TRBrack \<Longrightarrow> parse_tokens (WantValueOrEnd, fs) (t # ts) = parse_tokens (WantValue, fs) (t # ts)"
proof (cases fs)
  case Nil
  assume "t \<noteq> TRBrack"
  with Nil show ?thesis by (cases t) simp_all
next
  case (Cons f r)
  assume "t \<noteq> TRBrack"
  with Cons show ?thesis by (cases f; cases t) simp_all
qed

text \<open>Any value within the nesting limit parses back from its tokens, in any context.\<close>

lemma parse_value: "length fs + json_depth v \<le> maxNestingDepth \<Longrightarrow>
    parse_tokens (WantValue, fs) (tokens_of v) = Some (put_value v fs)"
proof (induction v arbitrary: fs)
  case (JArr vs)
  have push: "push_frame WantValueOrEnd (FArr []) fs = Some (WantValueOrEnd, FArr [] # fs)"
    using JArr.prems by (simp add: push_frame_def)
  show ?case
  proof (cases vs)
    case Nil
    with push show ?thesis by (simp add: value_token_def)
  next
    case (Cons w ws)
    have d: "Suc (length fs) + json_depth v \<le> maxNestingDepth" if "v \<in> set vs" for v
      using JArr.prems foldr_max_le[of "json_depth v" "map json_depth vs"] that by auto
    have el: "parse_tokens (WantValue, FArr [] # fs) (sep_concat (map tokens_of vs)) =
        Some (WantCommaOrEnd, FArr (rev vs) # fs)"
      using parse_elements[of vs fs "[]"] JArr.IH d Cons by auto
    obtain t ts where t: "tokens_of w = t # ts" "t \<noteq> TRBrack" using tokens_of_first by blast
    then obtain ts' where c: "sep_concat (map tokens_of vs) = t # ts'"
      using Cons by (cases ws) auto
    with el want_value_or_end[OF t(2)]
    have "parse_tokens (WantValueOrEnd, FArr [] # fs) (sep_concat (map tokens_of vs)) =
        Some (WantCommaOrEnd, FArr (rev vs) # fs)" by simp
    with push show ?thesis by (simp add: value_token_def parse_tokens_append)
  qed
next
  case (JObj ms)
  have push: "push_frame WantKeyOrEnd (FObj [] []) fs = Some (WantKeyOrEnd, FObj [] [] # fs)"
    using JObj.prems by (simp add: push_frame_def)
  show ?case
  proof (cases ms)
    case Nil
    with push show ?thesis by (simp add: value_token_def)
  next
    case (Cons w ws)
    have d: "Suc (length fs) + json_depth v \<le> maxNestingDepth" if "(k, v) \<in> set ms" for k v
      using JObj.prems foldr_max_le[of "json_depth v" "map snd (map (map_prod (\<lambda>a. a) json_depth) ms)"] that
      by (force simp: image_iff)
    have "\<exists>k'. parse_tokens (WantKeyOrEnd, FObj [] [] # fs)
        (sep_concat (map (\<lambda>(k, ts). TLit (JStr k) # TColon # ts) (map (map_prod (\<lambda>a. a) tokens_of) ms))) =
      Some (WantCommaOrEnd, FObj (rev ms @ []) k' # fs)"
    proof (rule parse_members)
      show "parse_tokens (WantValue, fs) (tokens_of v) = Some (put_value v fs)"
        if "(k, v) \<in> set ms" "length fs + json_depth v \<le> maxNestingDepth" for k v fs
        by (rule JObj.IH [OF that(1)]) (use that(2) in \<open>auto simp: snds.simps\<close>)
    qed (use d Cons in auto)
    with push show ?thesis by (auto simp: value_token_def parse_tokens_append)
  qed
qed (simp_all add: value_token_def)

section \<open>A quoted string reads back\<close>

lemma encode_rune_ascii: "(of_char c :: nat) < 128 \<Longrightarrow> encode_rune (of_char c) = [c]"
  by (simp add: encode_rune_def)

lemma fix_utf8_ascii: "\<forall>c \<in> set s. (of_char c :: nat) < 128 \<Longrightarrow> fix_utf8 s = s"
  by (induction s) (auto simp: fix_utf8_def runes_ascii encode_rune_ascii decode_rune_def)

definition quote_unit :: "char \<Rightarrow> str_unit" where
  "quote_unit c = (let r = (of_char c :: nat) in
     if (r < 32 \<and> r \<notin> {9, 10, 13}) \<or> r = 60 \<or> r = 62 \<or> r = 38 then Unit r else Raw c)"

lemma decode_quote_units:
  assumes "\<forall>c \<in> set s. (of_char c :: nat) < 128" and "\<forall>c \<in> set raw. (of_char c :: nat) < 128"
  shows "decode_units raw (map quote_unit s) = rev raw @ s"
  using assms
proof (induction s arbitrary: raw)
  case Nil
  then show ?case by (simp add: fix_utf8_ascii)
next
  case (Cons c s)
  show ?case
  proof (cases "quote_unit c")
    case (Raw d)
    then have "d = c" by (auto simp: quote_unit_def Let_def split: if_splits)
    with Raw Cons show ?thesis by simp
  next
    case (Unit u)
    then have u: "u = of_char c" "u < 128" using Cons.prems by (auto simp: quote_unit_def Let_def split: if_splits)
    have "decode_units raw (Unit u # map quote_unit s)
        = fix_utf8 (rev raw) @ encode_rune u @ decode_units [] (map quote_unit s)"
    proof (cases "map quote_unit s")
      case (Cons y ys)
      with u(2) show ?thesis by (cases y) (auto simp: surrogate_pair_def is_surrogate_def)
    qed (use u(2) in \<open>simp add: is_surrogate_def\<close>)
    also have "\<dots> = rev raw @ c # s"
      using Cons u by (simp add: fix_utf8_ascii encode_rune_ascii)
    finally show ?thesis using Unit by simp
  qed
qed

lemma lex_hex4: "r < 65536 \<Longrightarrow> lex_go (InStr us) (hex4 r @ t) = lex_go (InStr (Unit r # us)) t"
proof -
  assume r: "r < 65536"
  have "16 * (16 * (16 * (r div 4096 mod 16) + r div 256 mod 16) + r div 16 mod 16) + r mod 16 = r"
  proof -
    have 1: "r = 16 * (r div 16) + r mod 16" by simp
    have 2: "r div 16 = 16 * (r div 256) + r div 16 mod 16"
      using mult_div_mod_eq[of 16 "r div 16"] by (simp add: div_mult2_eq [symmetric])
    have 3: "r div 256 = 16 * (r div 4096) + r div 256 mod 16"
      using mult_div_mod_eq[of 16 "r div 256"] by (simp add: div_mult2_eq [symmetric])
    have 4: "r div 4096 mod 16 = r div 4096" using r by (simp add: less_mult_imp_div_less)
    show ?thesis by (simp only: 4 3 [symmetric] 2 [symmetric] 1 [symmetric])
  qed
  note eq = this
  have "lex_go (InStr us) (hex4 r @ t) = lex_go (InStr (Unit (16 * (16 * (16 * (r div 4096 mod 16)
      + r div 256 mod 16) + r div 16 mod 16) + r mod 16) # us)) t"
    by (simp add: hex4_def)
  then show ?thesis by (simp only: eq)
qed

lemma char_eqI: "of_char c = (of_char d :: nat) \<Longrightarrow> c = d"
  by (simp only: of_char_eq_iff)

lemma lex_quote_char:
  assumes "(of_char c :: nat) < 128"
  shows "lex_go (InStr us) (quote_rune (of_char c) @ t) = lex_go (InStr (quote_unit c # us)) t"
proof -
  let ?r = "of_char c :: nat"
  consider "?r = 34" | "?r = 92" | "?r = 10" | "?r = 13" | "?r = 9"
    | "(?r < 32 \<and> ?r \<notin> {9, 10, 13}) \<or> ?r = 60 \<or> ?r = 62 \<or> ?r = 38"
    | "?r \<notin> {34, 92, 10, 13, 9}" "\<not> ((?r < 32 \<and> ?r \<notin> {9, 10, 13}) \<or> ?r = 60 \<or> ?r = 62 \<or> ?r = 38)"
    by blast
  then show ?thesis
  proof cases
    case 6
    then have "quote_rune ?r = hex4 ?r" "quote_unit c = Unit ?r"
      by (auto simp: quote_rune_def quote_unit_def)
    with lex_hex4[of ?r us t] assms show ?thesis by simp
  next
    case 7
    then have "quote_rune ?r = [c]" "quote_unit c = Raw c"
      using assms by (auto simp: quote_rune_def quote_unit_def encode_rune_ascii)
    moreover have "c \<noteq> CHR 0x22" "c \<noteq> CHR 0x5C" using 7 by auto
    ultimately show ?thesis using 7 by simp
  next
    case 1
    then have "c = CHR 0x22" by (intro char_eqI) simp
    then show ?thesis by (simp add: quote_rune_def quote_unit_def escape_unit_def)
  next
    case 2
    then have "c = CHR 0x5C" by (intro char_eqI) simp
    then show ?thesis by (simp add: quote_rune_def quote_unit_def escape_unit_def)
  next
    case 3
    then have "c = CHR 0x0A" by (intro char_eqI) simp
    then show ?thesis by (simp add: quote_rune_def quote_unit_def escape_unit_def)
  next
    case 4
    then have "c = CHR 0x0D" by (intro char_eqI) simp
    then show ?thesis by (simp add: quote_rune_def quote_unit_def escape_unit_def)
  next
    case 5
    then have "c = CHR 0x09" by (intro char_eqI) simp
    then show ?thesis by (simp add: quote_rune_def quote_unit_def escape_unit_def)
  qed
qed

lemma lex_quote_body:
  assumes "\<forall>c \<in> set s. (of_char c :: nat) < 128"
  shows "lex_go (InStr us) (quote_body s @ t) = lex_go (InStr (rev (map quote_unit s) @ us)) t"
  using assms
proof (induction s arbitrary: us)
  case (Cons c s)
  have "decode_rune c s = (of_char c, 1)" using Cons.prems by (simp add: decode_rune_def)
  moreover have "(of_char c :: nat) \<noteq> RuneError" using Cons.prems by (auto simp: RuneError_def)
  ultimately show ?case using Cons lex_quote_char[of c us] by simp
qed simp

text \<open>What \<open>json.Marshal\<close> writes for an ASCII string, \<open>json.Unmarshal\<close> reads back.\<close>

lemma json_quote_roundtrip:
  assumes "\<forall>c \<in> set s. (of_char c :: nat) < 128"
  shows "json_parse (json_quote s) = Some (JStr s)"
proof -
  have "lex_go Idle (json_quote s) = lex_go (InStr []) (quote_body s @ [CHR 0x22])"
    by (simp add: json_quote_def start_mode_def is_space_def)
  also have "\<dots> = Some [TLit (JStr s)]"
    using lex_quote_body[OF assms, of "[]"] decode_quote_units[OF assms, of "[]"]
    by (simp add: cons_tok_def)
  finally show ?thesis by (simp add: json_parse_def value_token_def)
qed

end
