(* ===== verification/Category.thy ===== *)
theory Category
  imports Chain_Types Go_Json
begin

text \<open>
  Reading the payload of a transaction and classifying it
  (\<open>indexer/transaction/payload.go\<close>, \<open>category.go\<close>, \<open>token.go\<close>).
\<close>

section \<open>Payloads\<close>

record Payload =
  Payload_Name :: string
  Payload_Args :: "string list"

record PayloadBasic =
  PayloadBasic_Name :: string

text \<open>Decoding a member into the struct: the decoder goes on after a member of the wrong type and
  reports it at the end.\<close>

definition basic_member :: "PayloadBasic \<times> bool \<Rightarrow> string \<times> json \<Rightarrow> PayloadBasic \<times> bool" where
  "basic_member st m = (case (st, m) of ((p, ok), (k, v)) \<Rightarrow>
     (if find_field [''Name''] k = Some ''Name''
      then (p\<lparr>PayloadBasic_Name := fst (set_string (PayloadBasic_Name p) v)\<rparr>,
            ok \<and> snd (set_string (PayloadBasic_Name p) v))
      else (p, ok)))"

definition payload_member :: "Payload \<times> bool \<Rightarrow> string \<times> json \<Rightarrow> Payload \<times> bool" where
  "payload_member st m = (case (st, m) of ((p, ok), (k, v)) \<Rightarrow>
     (if find_field [''Name'', ''Args''] k = Some ''Name''
      then (p\<lparr>Payload_Name := fst (set_string (Payload_Name p) v)\<rparr>,
            ok \<and> snd (set_string (Payload_Name p) v))
      else if find_field [''Name'', ''Args''] k = Some ''Args''
      then (p\<lparr>Payload_Args := fst (set_strings (Payload_Args p) v)\<rparr>,
            ok \<and> snd (set_strings (Payload_Args p) v))
      else (p, ok)))"

definition decode_struct :: "'p \<Rightarrow> ('p \<times> bool \<Rightarrow> string \<times> json \<Rightarrow> 'p \<times> bool) \<Rightarrow> slice \<Rightarrow> go_error + 'p" where
  "decode_struct p0 member src = (case json_parse (bytes_of src) of
     None \<Rightarrow> Inl json_err
   | Some JNull \<Rightarrow> Inr p0
   | Some (JObj ms) \<Rightarrow> (case foldl member (p0, True) ms of (p, ok) \<Rightarrow> if ok then Inr p else Inl json_err)
   | Some _ \<Rightarrow> Inl json_err)"

text \<open>With an error the callers get a fresh empty payload beside it; none looks at it.\<close>

definition UnmarshalPayload :: "Tx \<Rightarrow> go_error + PayloadBasic" where
  "UnmarshalPayload tx = (let payloadSource = GetPayload (GetBody tx) in
     decode_struct \<lparr>PayloadBasic_Name = []\<rparr> basic_member payloadSource)"

definition UnmarshalPayloadWithArgs :: "Tx \<Rightarrow> go_error + Payload" where
  "UnmarshalPayloadWithArgs tx = (let payloadSource = GetPayload (GetBody tx) in
     decode_struct \<lparr>Payload_Name = [], Payload_Args = []\<rparr> payload_member payloadSource)"

definition GetCallName :: "Tx \<Rightarrow> go_error + string" where
  "GetCallName tx = (case UnmarshalPayload tx of
     Inl err \<Rightarrow> Inl err
   | Inr payload \<Rightarrow> Inr (PayloadBasic_Name payload))"

section \<open>Categories\<close>

type_synonym TxCategory = string

definition TxNone :: TxCategory where "TxNone = ''''"
definition TxPayload :: TxCategory where "TxPayload = ''payload''"
definition TxCall :: TxCategory where "TxCall = ''call''"
definition TxGovernance :: TxCategory where "TxGovernance = ''governance''"
definition TxSystem :: TxCategory where "TxSystem = ''system''"
definition TxStaking :: TxCategory where "TxStaking = ''staking''"
definition TxVoting :: TxCategory where "TxVoting = ''voting''"
definition TxName :: TxCategory where "TxName = ''name''"
definition TxNameCreate :: TxCategory where "TxNameCreate = ''namecreate''"
definition TxNameUpdate :: TxCategory where "TxNameUpdate = ''nameupdate''"
definition TxEnterprise :: TxCategory where "TxEnterprise = ''enterprise''"
definition TxConf :: TxCategory where "TxConf = ''conf''"
definition TxCluster :: TxCategory where "TxCluster = ''cluster''"
definition TxDeploy :: TxCategory where "TxDeploy = ''deploy''"
definition TxRedeploy :: TxCategory where "TxRedeploy = ''redeploy''"
definition TxMultiCall :: TxCategory where "TxMultiCall = ''multicall''"
definition TxTransfer :: TxCategory where "TxTransfer = ''transfer''"

lemmas category_defs = TxNone_def TxPayload_def TxCall_def TxGovernance_def TxSystem_def
  TxStaking_def TxVoting_def TxName_def TxNameCreate_def TxNameUpdate_def TxEnterprise_def
  TxConf_def TxCluster_def TxDeploy_def TxRedeploy_def TxMultiCall_def TxTransfer_def

definition TxCategories :: "TxCategory list" where
  "TxCategories = [TxNone, TxPayload, TxCall, TxGovernance, TxSystem, TxStaking, TxVoting, TxName,
     TxNameCreate, TxNameUpdate, TxEnterprise, TxConf, TxCluster, TxDeploy, TxRedeploy, TxMultiCall]"

text \<open>The three governance contracts, each with its own names of calls.\<close>

definition enterprise_category :: "'z lib_scheme \<Rightarrow> Tx \<Rightarrow> TxCategory \<times> string" where
  "enterprise_category L tx = (case GetCallName tx of
     Inr name \<Rightarrow> (let txCallName = ToLower L name in
       if HasSuffix txCallName ''cluster'' then (TxCluster, txCallName)
       else if HasSuffix txCallName ''conf'' then (TxConf, txCallName)
       else (TxEnterprise, txCallName))
   | Inl _ \<Rightarrow> (TxEnterprise, []))"

definition name_category :: "'z lib_scheme \<Rightarrow> Tx \<Rightarrow> TxCategory \<times> string" where
  "name_category L tx = (case GetCallName tx of
     Inr name \<Rightarrow> (let txCallName = ToLower L name in
       if HasSuffix txCallName ''updatename'' then (TxNameUpdate, txCallName)
       else if HasSuffix txCallName ''createname'' then (TxNameCreate, txCallName)
       else (TxName, txCallName))
   | Inl _ \<Rightarrow> (TxName, []))"

definition system_category :: "'z lib_scheme \<Rightarrow> Tx \<Rightarrow> TxCategory \<times> string" where
  "system_category L tx = (case GetCallName tx of
     Inr name \<Rightarrow> (let txCallName = ToLower L name in
       if HasSuffix txCallName ''stake'' \<or> HasSuffix txCallName ''unstake''
       then (TxStaking, txCallName)
       else if HasSuffix txCallName ''vote'' \<or> HasSuffix txCallName ''votedao'' \<or>
               HasSuffix txCallName ''votebp'' \<or> HasSuffix txCallName ''proposal''
       then (TxVoting, txCallName)
       else (TxSystem, txCallName))
   | Inl _ \<Rightarrow> (TxSystem, []))"

text \<open>The tail of the cascade, from the type test on. \<open>txBody.Payload\<close> and \<open>tx.Body.Amount\<close> are selected through
  the body pointer.\<close>

definition plain_category :: "Tx \<Rightarrow> (TxCategory \<times> string) outcome" where
  "plain_category tx = (let txBody = GetBody tx; txType = GetType txBody in
     if txType = TxType_GOVERNANCE then Ret (TxGovernance, [])
     else case GetCallName tx of
       Inr (c # cs) \<Rightarrow> Ret (TxCall, c # cs)
     | _ \<Rightarrow> obnd (deref txBody) (\<lambda>b.
         if length (bytes_of (TxBody_Payload b)) > 0 then Ret (TxPayload, [])
         else if txType = TxType_TRANSFER then Ret (TxTransfer, [])
         else if txType = TxType_NORMAL \<and> length (bytes_of (TxBody_Amount b)) > 0 \<and>
                 bytes_of (TxBody_Amount b) \<noteq> ''0''
         then Ret (TxTransfer, [])
         else Ret (TxNone, [])))"

definition DetectTxCategory :: "'z lib_scheme \<Rightarrow> Tx \<Rightarrow> (TxCategory \<times> string) outcome" where
  "DetectTxCategory L tx =
     (let txBody = GetBody tx; txType = GetType txBody;
          txRecipient = bytes_of (GetRecipient txBody) in
      if txType = TxType_REDEPLOY then Ret (TxRedeploy, [])
      else if txType = TxType_MULTICALL then Ret (TxMultiCall, [])
      else obnd (if txRecipient = [] then obnd (deref txBody) (\<lambda>b. Ret (length (bytes_of (TxBody_Payload b)) > 0))
                 else Ret False)
        (\<lambda>deploy.
           if deploy then Ret (TxDeploy, [])
           else if txRecipient = ''aergo.enterprise'' then Ret (enterprise_category L tx)
           else if txRecipient = ''aergo.name'' then Ret (name_category L tx)
           else if txRecipient = ''aergo.system'' then Ret (system_category L tx)
           else plain_category tx))"

section \<open>Token creation\<close>

type_synonym TokenType = string

definition TokenNone :: TokenType where "TokenNone = ''''"
definition TokenARC1 :: TokenType where "TokenARC1 = ''ARC1''"
definition TokenARC2 :: TokenType where "TokenARC2 = ''ARC2''"

lemmas token_defs = TokenNone_def TokenARC1_def TokenARC2_def

definition token_keywords :: "string list" where
  "token_keywords = [''name'', ''balanceOf'', ''transfer'', ''symbol'', ''totalSupply'']"

definition MaybeTokenCreation :: "Tx \<Rightarrow> TokenType outcome" where
  "MaybeTokenCreation tx = (let txBody = GetBody tx in
     obnd (if GetType txBody = TxType_DEPLOY
           then obnd (deref txBody) (\<lambda>b. Ret (length (bytes_of (TxBody_Payload b)) > 30))
           else Ret False)
       (\<lambda>candidate.
          if \<not> candidate then Ret TokenNone
          else (let payload = bytes_of (GetPayload txBody) in
            if \<not> list_all (Contains payload) token_keywords then Ret TokenNone
            else if list_all (Contains payload) [''decimals''] then Ret TokenARC1
            else if list_all (Contains payload) [''ownerOf''] then Ret TokenARC2
            else Ret TokenNone)))"

section \<open>Lemmas\<close>

lemma TxType_distinct [simp]:
  "TxType_NORMAL \<noteq> TxType_REDEPLOY" "TxType_NORMAL \<noteq> TxType_MULTICALL" "TxType_NORMAL \<noteq> TxType_GOVERNANCE"
  "TxType_NORMAL \<noteq> TxType_TRANSFER" "TxType_NORMAL \<noteq> TxType_DEPLOY" "TxType_TRANSFER \<noteq> TxType_REDEPLOY"
  "TxType_TRANSFER \<noteq> TxType_MULTICALL" "TxType_TRANSFER \<noteq> TxType_GOVERNANCE"
  by (simp_all add: TxType_defs)

lemma category_eqs:
  "TxTransfer \<notin> {TxNone, TxPayload, TxCall, TxGovernance, TxSystem, TxStaking, TxVoting, TxName,
     TxNameCreate, TxNameUpdate, TxEnterprise, TxConf, TxCluster, TxDeploy, TxRedeploy, TxMultiCall}"
  "TxDeploy \<notin> {TxNone, TxPayload, TxCall, TxGovernance, TxSystem, TxStaking, TxVoting, TxName,
     TxNameCreate, TxNameUpdate, TxEnterprise, TxConf, TxCluster, TxRedeploy, TxMultiCall, TxTransfer}"
  by (simp_all add: category_defs)

lemma governance_ranges:
  "fst (enterprise_category L tx) \<in> {TxCluster, TxConf, TxEnterprise}"
  "fst (name_category L tx) \<in> {TxNameUpdate, TxNameCreate, TxName}"
  "fst (system_category L tx) \<in> {TxStaking, TxVoting, TxSystem}"
  by (auto simp: enterprise_category_def name_category_def system_category_def Let_def split: sum.split)

lemma GetCallName_empty: "bytes_of (GetPayload (GetBody tx)) = [] \<Longrightarrow> \<exists>e. GetCallName tx = Inl e"
  by (simp add: GetCallName_def UnmarshalPayload_def decode_struct_def json_parse_def Let_def)

lemma plain_category_cases:
  assumes "Tx_Body tx = Some b"
  obtains n where "plain_category tx = Ret (TxGovernance, n)" "TxBody_Type b = TxType_GOVERNANCE"
  | n where "plain_category tx = Ret (TxCall, n)" "GetCallName tx = Inr n" "n \<noteq> []"
      "TxBody_Type b \<noteq> TxType_GOVERNANCE" "bytes_of (TxBody_Payload b) \<noteq> []"
  | n where "plain_category tx = Ret (TxPayload, n)" "bytes_of (TxBody_Payload b) \<noteq> []"
  | "plain_category tx = Ret (TxTransfer, [])" "bytes_of (TxBody_Payload b) = []"
      "TxBody_Type b = TxType_TRANSFER \<or>
       TxBody_Type b = TxType_NORMAL \<and> bytes_of (TxBody_Amount b) \<notin> {[], ''0''}"
  | "plain_category tx = Ret (TxNone, [])" "bytes_of (TxBody_Payload b) = []"
      "\<not> (TxBody_Type b = TxType_TRANSFER \<or>
       TxBody_Type b = TxType_NORMAL \<and> bytes_of (TxBody_Amount b) \<notin> {[], ''0''})"
proof -
  have gb: "GetBody tx = Some b" using assms by (simp add: GetBody_def)
  have em: "bytes_of (TxBody_Payload b) = [] \<Longrightarrow> \<exists>e. GetCallName tx = Inl e"
    using GetCallName_empty[of tx] gb by simp
  show thesis
  proof (cases "TxBody_Type b = TxType_GOVERNANCE")
    case True
    then show thesis using that(1) gb by (simp add: plain_category_def)
  next
    case ng: False
    show thesis
    proof (cases "\<exists>n. GetCallName tx = Inr n \<and> n \<noteq> []")
      case True
      then obtain c cs where n: "GetCallName tx = Inr (c # cs)" by (metis neq_Nil_conv)
      moreover have "bytes_of (TxBody_Payload b) \<noteq> []" using em n by auto
      ultimately show thesis using that(2)[of "c # cs"] gb ng by (simp add: plain_category_def)
    next
      case False
      then have nc: "(case GetCallName tx of Inr (c # cs) \<Rightarrow> Ret (TxCall, c # cs) | _ \<Rightarrow> X) = X" for X
        by (auto split: sum.split list.split)
      have pc: "plain_category tx =
        (if bytes_of (TxBody_Payload b) \<noteq> [] then Ret (TxPayload, [])
         else if TxBody_Type b = TxType_TRANSFER \<or>
           TxBody_Type b = TxType_NORMAL \<and> bytes_of (TxBody_Amount b) \<notin> {[], ''0''}
         then Ret (TxTransfer, []) else Ret (TxNone, []))"
        using gb ng unfolding plain_category_def Let_def by (simp add: nc)
      show thesis
      proof (cases "bytes_of (TxBody_Payload b) = []")
        case True
        define Q where "Q \<longleftrightarrow> TxBody_Type b = TxType_TRANSFER \<or>
           TxBody_Type b = TxType_NORMAL \<and> bytes_of (TxBody_Amount b) \<notin> {[], ''0''}"
        have "plain_category tx = (if Q then Ret (TxTransfer, []) else Ret (TxNone, []))"
          using pc True by (simp add: Q_def)
        then show thesis using that(4,5)[folded Q_def] True by (cases Q) simp_all
      next
        case False
        with pc that(3)[of "[]"] show thesis by simp
      qed
    qed
  qed
qed

text \<open>The cascade from the front: what each recipient leads to.\<close>

lemma DetectTxCategory_body:
  assumes "Tx_Body tx = Some b"
  shows "DetectTxCategory L tx =
    (let rcpt = bytes_of (TxBody_Recipient b) in
     if TxBody_Type b = TxType_REDEPLOY then Ret (TxRedeploy, [])
     else if TxBody_Type b = TxType_MULTICALL then Ret (TxMultiCall, [])
     else if rcpt = [] \<and> bytes_of (TxBody_Payload b) \<noteq> [] then Ret (TxDeploy, [])
     else if rcpt = ''aergo.enterprise'' then Ret (enterprise_category L tx)
     else if rcpt = ''aergo.name'' then Ret (name_category L tx)
     else if rcpt = ''aergo.system'' then Ret (system_category L tx)
     else plain_category tx)"
  using assms by (simp add: DetectTxCategory_def GetBody_def Let_def)

lemma DetectTxCategory_nil: "Tx_Body tx = None \<Longrightarrow> DetectTxCategory L tx = Panic NilDeref"
  by (simp add: DetectTxCategory_def GetBody_def)

text \<open>No governance contract and no plain transaction is classified as a deployment; a transfer has no payload.\<close>

lemma governance_pairs:
  obtains e en m mn y yn where "enterprise_category L tx = (e, en)" "name_category L tx = (m, mn)"
    "system_category L tx = (y, yn)" "e \<notin> {TxDeploy, TxTransfer}" "m \<notin> {TxDeploy, TxTransfer}" "y \<notin> {TxDeploy, TxTransfer}"
proof -
  have "fst (enterprise_category L tx) \<notin> {TxDeploy, TxTransfer}" "fst (name_category L tx) \<notin> {TxDeploy, TxTransfer}"
    "fst (system_category L tx) \<notin> {TxDeploy, TxTransfer}"
    using governance_ranges(1)[of L tx] governance_ranges(2)[of L tx] governance_ranges(3)[of L tx] category_eqs
    by (metis insert_iff empty_iff)+
  then show thesis using that by (metis prod.collapse)
qed

lemma special_not_plain: "TxRedeploy \<notin> {TxDeploy, TxTransfer}" "TxMultiCall \<notin> {TxDeploy, TxTransfer}" "TxDeploy \<noteq> TxTransfer"
  by (simp_all add: category_defs)

lemma plain_not_deploy: "Tx_Body tx = Some b \<Longrightarrow> plain_category tx \<noteq> Ret (TxDeploy, n)"
  by (cases rule: plain_category_cases[of tx b]) (auto simp: category_defs)

lemma plain_transfer:
  assumes "Tx_Body tx = Some b"
  shows "(\<exists>n. plain_category tx = Ret (TxTransfer, n)) \<longleftrightarrow> bytes_of (TxBody_Payload b) = [] \<and>
    (TxBody_Type b = TxType_TRANSFER \<or>
     TxBody_Type b = TxType_NORMAL \<and> bytes_of (TxBody_Amount b) \<notin> {[], ''0''})"
  using category_eqs(1)
  by (cases rule: plain_category_cases[OF assms]) (auto simp: TxType_defs)

end
