(* ===== verification/Events.thy ===== *)
theory Events
  imports Category
begin

text \<open>
  Reading contract events and verification metadata (\<open>indexer/transaction/event.go\<close>,
  \<open>metadata.go\<close>): the arguments are the JSON array of the event. The text of an error
  is never inspected, so the cause that \<^verbatim>\<open>%v\<close> prints is left out of it.
\<close>

type_synonym EventName = string

definition EventNone :: EventName where "EventNone = ''''"
definition EventNewArc1Token :: EventName where "EventNewArc1Token = ''new_arc1_token''"
definition EventNewArc2Token :: EventName where "EventNewArc2Token = ''new_arc2_token''"
definition EventMint :: EventName where "EventMint = ''mint''"
definition EventTransfer :: EventName where "EventTransfer = ''transfer''"
definition EventBurn :: EventName where "EventBurn = ''burn''"
definition EventVerifiedToken :: EventName where "EventVerifiedToken = ''verified_token''"
definition EventVerifiedCode :: EventName where "EventVerifiedCode = ''verified_code''"

lemmas event_defs = EventNone_def EventNewArc1Token_def EventNewArc2Token_def EventMint_def
  EventTransfer_def EventBurn_def EventVerifiedToken_def EventVerifiedCode_def

section \<open>Amounts and ids\<close>

definition ConvertBignumJson :: "(string \<times> gval) list \<Rightarrow> int option" where
  "ConvertBignumJson m = (case map_get m ''_bignum'' of
     GString bignum \<Rightarrow> big_SetString bignum
   | _ \<Rightarrow> None)"

definition ParseAmountOrId :: "gval \<Rightarrow> go_error + string" where
  "ParseAmountOrId amountOrId = (case amountOrId of
     GString data \<Rightarrow> Inr data
   | GBytes data \<Rightarrow> Inr data
   | GInt data \<Rightarrow> Inr (show_int data)
   | GMap data \<Rightarrow> (case ConvertBignumJson data of
        Some am \<Rightarrow> Inr (big_String am)
      | None \<Rightarrow> Inl (Err ''invalid type''))
   | _ \<Rightarrow> Inl (Err ''invalid type''))"

section \<open>Token events\<close>

definition arg_err :: "string \<Rightarrow> Event \<Rightarrow> go_error" where
  "arg_err msg event = Err (msg @ '' | '' @ Event_JsonArgs event)"

definition UnmarshalEventNewArcToken :: "'z lib_scheme \<Rightarrow> Event option \<Rightarrow> (go_error + TokenType \<times> string) outcome" where
  "UnmarshalEventNewArcToken L ev = (case ev of
     None \<Rightarrow> Ret (Inl (Err ''not exist event''))
   | Some event \<Rightarrow>
      (case (if Event_EventName event = EventNewArc1Token then Some TokenARC1
             else if Event_EventName event = EventNewArc2Token then Some TokenARC2 else None) of
         None \<Rightarrow> Ret (Inl (Err (''invalid event name | '' @ Event_EventName event)))
       | Some tokenType \<Rightarrow>
          (case Unmarshal_slice (Event_JsonArgs event) of
             Inl _ \<Rightarrow> Ret (Inl (arg_err ''invalid event args'' event))
           | Inr [] \<Rightarrow> Ret (Inl (arg_err ''len(args) < 1'' event))
           | Inr (GNil # _) \<Rightarrow> Ret (Inl (arg_err ''args[0] == nil'' event))
           | Inr (GString contractAddr # _) \<Rightarrow>
               obnd (DecodeAddress L contractAddr) (\<lambda>r. case r of
                  Inl _ \<Rightarrow> Ret (Inl (arg_err ''invalid event args'' event))
                | Inr contractAddress \<Rightarrow> Ret (Inr (tokenType, contractAddress)))
           | Inr _ \<Rightarrow> Ret (Inl (arg_err ''invalid event args'' event)))))"

text \<open>The heuristic for a null first argument: it is skipped, once.\<close>

definition skip_null :: "gval list \<Rightarrow> gval list" where
  "skip_null args = (case args of GNil # rest \<Rightarrow> rest | _ \<Rightarrow> args)"

definition UnmarshalEventMint :: "Event option \<Rightarrow> go_error + slice \<times> string \<times> string \<times> string" where
  "UnmarshalEventMint ev = (case ev of
     None \<Rightarrow> Inl (Err ''not exist event'')
   | Some event \<Rightarrow>
      if Event_EventName event \<noteq> EventMint then Inl (Err (''invalid event name | '' @ Event_EventName event))
      else (case Unmarshal_slice (Event_JsonArgs event) of
         Inl _ \<Rightarrow> Inl (arg_err ''json'' event)
       | Inr args0 \<Rightarrow> (let args = skip_null args0 in
          if length args < 2 then Inl (arg_err ''len(args) < 2'' event)
          else if args ! 0 = GNil then Inl (arg_err ''args[0] == nil'' event)
          else if args ! 1 = GNil then Inl (arg_err ''args[1] == nil'' event)
          else (case args ! 0 of
             GString accountTo \<Rightarrow> (case ParseAmountOrId (args ! 1) of
                Inl _ \<Rightarrow> Inl (arg_err ''amount'' event)
              | Inr amountOrId \<Rightarrow> Inr (Event_ContractAddress event, ''MINT'', accountTo, amountOrId))
           | _ \<Rightarrow> Inl (arg_err ''invalid event args'' event)))))"

definition null_account :: string where
  "null_account = ''1111111111111111111111111''"

definition UnmarshalEventTransfer :: "Event option \<Rightarrow> go_error + slice \<times> string \<times> string \<times> string" where
  "UnmarshalEventTransfer ev = (case ev of
     None \<Rightarrow> Inl (Err ''not exist event'')
   | Some event \<Rightarrow>
      if Event_EventName event \<noteq> EventTransfer then Inl (Err (''invalid event name | '' @ Event_EventName event))
      else (case Unmarshal_slice (Event_JsonArgs event) of
         Inl _ \<Rightarrow> Inl (arg_err ''json'' event)
       | Inr args0 \<Rightarrow> (let args = skip_null args0 in
          if length args < 3 then Inl (arg_err ''len(args) < 3'' event)
          else if args ! 0 = GNil then Inl (arg_err ''args[0] == nil'' event)
          else if args ! 1 = GNil then Inl (arg_err ''args[1] == nil'' event)
          else (case args ! 0 of
             GString from \<Rightarrow> (let accountFrom = (if Contains from null_account then ''MINT'' else from) in
               (case args ! 1 of
                  GString to \<Rightarrow> (let accountTo = (if Contains to null_account then ''BURN'' else to) in
                    (case ParseAmountOrId (args ! 2) of
                       Inl _ \<Rightarrow> Inl (arg_err ''amount'' event)
                     | Inr amountOrId \<Rightarrow> Inr (Event_ContractAddress event, accountFrom, accountTo, amountOrId)))
                | _ \<Rightarrow> Inl (arg_err ''args[1] != string'' event)))
           | _ \<Rightarrow> Inl (arg_err ''args[0] != string'' event)))))"

definition UnmarshalEventBurn :: "Event option \<Rightarrow> go_error + slice \<times> string \<times> string \<times> string" where
  "UnmarshalEventBurn ev = (case ev of
     None \<Rightarrow> Inl (Err ''not exist event'')
   | Some event \<Rightarrow>
      if Event_EventName event \<noteq> EventBurn then Inl (Err (''invalid event name | '' @ Event_EventName event))
      else (case Unmarshal_slice (Event_JsonArgs event) of
         Inl _ \<Rightarrow> Inl (arg_err ''json'' event)
       | Inr args0 \<Rightarrow> (let args = skip_null args0 in
          if length args < 2 then Inl (arg_err ''len(args) < 2'' event)
          else if args ! 0 = GNil then Inl (arg_err ''args[0] == nil'' event)
          else if args ! 1 = GNil then Inl (arg_err ''args[1] == nil'' event)
          else (case args ! 0 of
             GString accountFrom \<Rightarrow> (case ParseAmountOrId (args ! 1) of
                Inl _ \<Rightarrow> Inl (arg_err ''amount'' event)
              | Inr amountOrId \<Rightarrow> Inr (Event_ContractAddress event, accountFrom, ''BURN'', amountOrId))
           | _ \<Rightarrow> Inl (arg_err ''args[0] != string'' event)))))"

section \<open>Verification events and metadata\<close>

definition UnmarshalEventVerifyToken :: "Event \<Rightarrow> go_error + string" where
  "UnmarshalEventVerifyToken event = (case Unmarshal_slice (Event_JsonArgs event) of
     Inl _ \<Rightarrow> Inl (arg_err ''json'' event)
   | Inr args \<Rightarrow>
      if length args < 2 then Inl (arg_err ''len(args) < 2'' event)
      else (case args ! 1 of GString tokenAddress \<Rightarrow> Inr tokenAddress
        | _ \<Rightarrow> Inl (arg_err ''args[1] != string'' event)))"

definition UnmarshalEventVerifyContract :: "Event \<Rightarrow> go_error + string" where
  "UnmarshalEventVerifyContract event = (case Unmarshal_slice (Event_JsonArgs event) of
     Inl _ \<Rightarrow> Inl (arg_err ''json'' event)
   | Inr args \<Rightarrow>
      if length args < 2 then Inl (arg_err ''len(args) < 2'' event)
      else (case args ! 1 of GString tokenAddress \<Rightarrow> Inr tokenAddress
        | _ \<Rightarrow> Inl (arg_err ''args[1] != string'' event)))"

text \<open>The string value of a member, or the empty string.\<close>

definition string_member :: "(string \<times> gval) list \<Rightarrow> string \<Rightarrow> string" where
  "string_member args k = (case map_get args k of GString s \<Rightarrow> s | _ \<Rightarrow> [])"

text \<open>Contract, owner, comment, email, date, home page and image.\<close>

definition UnmarshalMetadataVerifyToken ::
  "string \<Rightarrow> string \<times> string \<times> string \<times> string \<times> string \<times> string \<times> string" where
  "UnmarshalMetadataVerifyToken metadata = (case Unmarshal_map metadata of
     Inl _ \<Rightarrow> ([], [], [], [], [], [], [])
   | Inr args \<Rightarrow> (string_member args ''contract'', string_member args ''owner'',
       string_member args ''comment'', string_member args ''email'', string_member args ''regdate'',
       string_member args ''homepage'', string_member args ''image''))"

definition UnmarshalMetadataVerifyContract :: "string \<Rightarrow> string \<times> string \<times> string" where
  "UnmarshalMetadataVerifyContract metadata = (case Unmarshal_map metadata of
     Inl _ \<Rightarrow> ([], [], [])
   | Inr args \<Rightarrow> (string_member args ''contract'', string_member args ''owner'', string_member args ''code''))"

section \<open>Lemmas\<close>

lemma skip_null_simps [simp]:
  "skip_null (GNil # r) = r" "skip_null [] = []" "a \<noteq> GNil \<Longrightarrow> skip_null (a # r) = a # r"
  by (auto simp: skip_null_def split: gval.split)

text \<open>What the JSON decoder can hand to \<^const>\<open>ParseAmountOrId\<close>: it never makes an integer or bytes.\<close>

lemma to_gval_shape: "to_gval j \<noteq> GInt i" "to_gval j \<noteq> GBytes b"
  by (cases j; simp)+

lemma ParseAmountOrId_json: "ParseAmountOrId (to_gval j) = Inr s \<longleftrightarrow>
    j = JStr s \<or> (\<exists>ms n. j = JObj ms \<and> ConvertBignumJson (map (\<lambda>(k, v). (k, to_gval v)) ms) = Some n \<and> s = big_String n)"
  by (cases j) (auto simp: ParseAmountOrId_def map_prod_def split: option.splits)

lemma two_args: "\<not> length xs < 2 \<Longrightarrow> \<exists>x y zs. xs = x # y # zs"
  and three_args: "\<not> length xs < 3 \<Longrightarrow> \<exists>x y z zs. xs = x # y # z # zs"
  by (auto simp: not_less numeral_2_eq_2 numeral_3_eq_3 Suc_le_length_iff)

text \<open>An event that was read was of the name asked for and had a JSON array of arguments.\<close>

lemma UnmarshalEventMint_iff: "UnmarshalEventMint (Some e) = Inr (c, f, t, a) \<longleftrightarrow>
    Event_EventName e = EventMint \<and> c = Event_ContractAddress e \<and> f = ''MINT'' \<and>
    (\<exists>args0 v rest. Unmarshal_slice (Event_JsonArgs e) = Inr args0 \<and>
       skip_null args0 = GString t # v # rest \<and> ParseAmountOrId v = Inr a)"
  (is "?L \<longleftrightarrow> ?R")
proof
  assume ?L
  then obtain args0 where u: "Unmarshal_slice (Event_JsonArgs e) = Inr args0" "Event_EventName e = EventMint"
    by (auto simp: UnmarshalEventMint_def split: if_splits sum.splits)
  with \<open>?L\<close> have "\<not> length (skip_null args0) < 2"
    by (auto simp: UnmarshalEventMint_def)
  then obtain x v rest where "skip_null args0 = x # v # rest" using two_args by blast
  with \<open>?L\<close> u show ?R
    by (auto simp: UnmarshalEventMint_def Let_def split: if_splits sum.splits gval.splits)
next
  assume ?R
  then show ?L by (auto simp: UnmarshalEventMint_def Let_def ParseAmountOrId_def)
qed

lemma UnmarshalEventTransfer_iff: "UnmarshalEventTransfer (Some e) = Inr (c, f, t, a) \<longleftrightarrow>
    Event_EventName e = EventTransfer \<and> c = Event_ContractAddress e \<and>
    (\<exists>args0 f0 t0 v rest. Unmarshal_slice (Event_JsonArgs e) = Inr args0 \<and>
       skip_null args0 = GString f0 # GString t0 # v # rest \<and> ParseAmountOrId v = Inr a \<and>
       f = (if Contains f0 null_account then ''MINT'' else f0) \<and>
       t = (if Contains t0 null_account then ''BURN'' else t0))"
  (is "?L \<longleftrightarrow> ?R")
proof
  assume ?L
  then obtain args0 where u: "Unmarshal_slice (Event_JsonArgs e) = Inr args0" "Event_EventName e = EventTransfer"
    by (auto simp: UnmarshalEventTransfer_def split: if_splits sum.splits)
  with \<open>?L\<close> have "\<not> length (skip_null args0) < 3"
    by (auto simp: UnmarshalEventTransfer_def)
  then obtain x y v rest where "skip_null args0 = x # y # v # rest" using three_args by blast
  with \<open>?L\<close> u show ?R
    by (auto simp: UnmarshalEventTransfer_def Let_def Let_def split: if_splits sum.splits gval.splits)
next
  assume ?R
  then show ?L by (auto simp: UnmarshalEventTransfer_def Let_def)
qed

lemma UnmarshalEventBurn_iff: "UnmarshalEventBurn (Some e) = Inr (c, f, t, a) \<longleftrightarrow>
    Event_EventName e = EventBurn \<and> c = Event_ContractAddress e \<and> t = ''BURN'' \<and>
    (\<exists>args0 v rest. Unmarshal_slice (Event_JsonArgs e) = Inr args0 \<and>
       skip_null args0 = GString f # v # rest \<and> ParseAmountOrId v = Inr a)"
  (is "?L \<longleftrightarrow> ?R")
proof
  assume ?L
  then obtain args0 where u: "Unmarshal_slice (Event_JsonArgs e) = Inr args0" "Event_EventName e = EventBurn"
    by (auto simp: UnmarshalEventBurn_def split: if_splits sum.splits)
  with \<open>?L\<close> have "\<not> length (skip_null args0) < 2"
    by (auto simp: UnmarshalEventBurn_def)
  then obtain x v rest where "skip_null args0 = x # v # rest" using two_args by blast
  with \<open>?L\<close> u show ?R
    by (auto simp: UnmarshalEventBurn_def Let_def split: if_splits sum.splits gval.splits)
next
  assume ?R
  then show ?L by (auto simp: UnmarshalEventBurn_def Let_def ParseAmountOrId_def)
qed

end
