(* ===== verification/Documents.thy ===== *)
theory Documents
  imports Events Go_Float
begin

text \<open>
  The documents stored in Elasticsearch (\<open>indexer/documents/documents.go\<close>): one record per
  struct, extending the embedded \<open>BaseEsType\<close>, with its JSON form. The JSON of a document is
  the list of its members in the order of the struct; the id is not part of it
  (tag \<^verbatim>\<open>json:"-"\<close>). Decoding leaves a field whose member is missing at its zero value and
  fails on a member of another type.
\<close>

section \<open>Values\<close>

text \<open>A \<open>time.Time\<close> is its nanoseconds since the epoch.\<close>

type_synonym time = int

datatype sval = SStr string | SBool bool | SNum nat | SFloat float32 | STime time

type_synonym source = "(string \<times> sval) list"

datatype jtype = JString | JBoolean | JUint nat | JFloat | JTime

fun sval_fits :: "jtype \<Rightarrow> sval \<Rightarrow> bool" where
  "sval_fits JString (SStr s) = True"
| "sval_fits JBoolean (SBool b) = True"
| "sval_fits (JUint w) (SNum n) = (n < 2 ^ w)"
| "sval_fits JFloat (SFloat f) = True"
| "sval_fits JTime (STime t) = True"
| "sval_fits _ _ = False"

definition fits :: "(string \<times> jtype) list \<Rightarrow> source \<Rightarrow> bool" where
  "fits fs s \<longleftrightarrow> list_all (\<lambda>(k, t). case map_of s k of None \<Rightarrow> True | Some v \<Rightarrow> sval_fits t v) fs"

definition get_str :: "source \<Rightarrow> string \<Rightarrow> string" where
  "get_str s k = (case map_of s k of Some (SStr x) \<Rightarrow> x | _ \<Rightarrow> [])"

definition get_bool :: "source \<Rightarrow> string \<Rightarrow> bool" where
  "get_bool s k = (case map_of s k of Some (SBool b) \<Rightarrow> b | _ \<Rightarrow> False)"

definition get_uint :: "source \<Rightarrow> string \<Rightarrow> 'w::len word" where
  "get_uint s k = (case map_of s k of Some (SNum n) \<Rightarrow> of_nat n | _ \<Rightarrow> 0)"

definition get_float :: "source \<Rightarrow> string \<Rightarrow> float32" where
  "get_float s k = (case map_of s k of Some (SFloat f) \<Rightarrow> f | _ \<Rightarrow> zero32)"

text \<open>The zero \<open>time.Time\<close> is the first of January of year 1.\<close>

definition zero_time :: time where "zero_time = - 62135596800 * 10 ^ 9"

definition get_time :: "source \<Rightarrow> string \<Rightarrow> time" where
  "get_time s k = (case map_of s k of Some (STime t) \<Rightarrow> t | _ \<Rightarrow> zero_time)"

lemmas get_defs = get_str_def get_bool_def get_uint_def get_float_def get_time_def

section \<open>Documents\<close>

record BaseEsType =
  Doc_Id :: string

definition GetID :: "'z BaseEsType_scheme \<Rightarrow> string" where
  "GetID m = Doc_Id m"

definition SetID :: "string \<Rightarrow> 'z BaseEsType_scheme \<Rightarrow> 'z BaseEsType_scheme" where
  "SetID docid m = m\<lparr>Doc_Id := docid\<rparr>"

record EsChainInfo = BaseEsType +
  EsChainInfo_Public :: bool
  EsChainInfo_Mainnet :: bool
  EsChainInfo_Consensus :: string
  EsChainInfo_Version :: uint64

record EsBlock = BaseEsType +
  EsBlock_Timestamp :: time
  EsBlock_BlockNo :: uint64
  EsBlock_PreviousBlock :: string
  EsBlock_TxCount :: uint64
  EsBlock_Size :: uint64
  EsBlock_Coinbase :: string
  EsBlock_BlockProducer :: string
  EsBlock_RewardAccount :: string
  EsBlock_RewardAmount :: string

record EsTx = BaseEsType +
  EsTx_BlockNo :: uint64
  EsTx_BlockId :: string
  EsTx_Timestamp :: time
  EsTx_TxIdx :: uint64
  EsTx_Payload :: string
  EsTx_Account :: string
  EsTx_Recipient :: string
  EsTx_Amount :: string
  EsTx_AmountFloat :: float32
  EsTx_Type :: uint64
  EsTx_Category :: TxCategory
  EsTx_Method :: string
  EsTx_Status :: string
  EsTx_Result :: string
  EsTx_Contract :: string
  EsTx_Nonce :: uint64
  EsTx_FeeDelegation :: bool
  EsTx_GasPrice :: string
  EsTx_GasLimit :: uint64
  EsTx_GasUsed :: uint64
  EsTx_FeeUsed :: string

record EsContract = BaseEsType +
  EsContract_TxId :: string
  EsContract_Creator :: string
  EsContract_BlockNo :: uint64
  EsContract_Timestamp :: time
  EsContract_Payload :: string
  EsContract_VerifiedStatus :: string
  EsContract_VerifiedToken :: string
  EsContract_CodeUrl :: string
  EsContract_Code :: string

record EsContractUp = BaseEsType +
  EsContractUp_VerifiedStatus :: string
  EsContractUp_VerifiedToken :: string
  EsContractUp_CodeUrl :: string
  EsContractUp_Code :: string

record EsEvent = BaseEsType +
  EsEvent_Contract :: string
  EsEvent_BlockNo :: uint64
  EsEvent_TxId :: string
  EsEvent_TxIdx :: uint64
  EsEvent_EventIdx :: uint64
  EsEvent_EventName :: string
  EsEvent_EventArgs :: string

record EsName = BaseEsType +
  EsName_Name :: string
  EsName_Address :: string
  EsName_BlockNo :: uint64
  EsName_UpdateTx :: string

record EsToken = BaseEsType +
  EsToken_TxId :: string
  EsToken_BlockNo :: uint64
  EsToken_Creator :: string
  EsToken_Type :: TokenType
  EsToken_Name :: string
  EsToken_Name_lower :: string
  EsToken_Symbol :: string
  EsToken_Symbol_lower :: string
  EsToken_Decimals :: uint8
  EsToken_Supply :: string
  EsToken_SupplyFloat :: float32
  EsToken_VerifiedStatus :: string
  EsToken_TokenAddress :: string
  EsToken_Owner :: string
  EsToken_Comment :: string
  EsToken_Email :: string
  EsToken_RegDate :: string
  EsToken_ImageUrl :: string
  EsToken_HomepageUrl :: string
  EsToken_TotalTransfer :: uint64

record EsTokenUpSupply = BaseEsType +
  EsTokenUpSupply_Supply :: string
  EsTokenUpSupply_SupplyFloat :: float32

record EsTokenUpVerified = BaseEsType +
  EsTokenUpVerified_VerifiedStatus :: string
  EsTokenUpVerified_TokenAddress :: string
  EsTokenUpVerified_Owner :: string
  EsTokenUpVerified_Comment :: string
  EsTokenUpVerified_Email :: string
  EsTokenUpVerified_RegDate :: string
  EsTokenUpVerified_ImageUrl :: string
  EsTokenUpVerified_HomepageUrl :: string
  EsTokenUpVerified_TotalTransfer :: uint64

record EsTokenTransfer = BaseEsType +
  EsTokenTransfer_TxId :: string
  EsTokenTransfer_Timestamp :: time
  EsTokenTransfer_BlockNo :: uint64
  EsTokenTransfer_TokenAddress :: string
  EsTokenTransfer_From :: string
  EsTokenTransfer_To :: string
  EsTokenTransfer_Sender :: string
  EsTokenTransfer_Amount :: string
  EsTokenTransfer_AmountFloat :: float32
  EsTokenTransfer_TokenId :: string

record EsAccountTokens = BaseEsType +
  EsAccountTokens_Account :: string
  EsAccountTokens_TokenAddress :: string
  EsAccountTokens_Type :: TokenType
  EsAccountTokens_Timestamp :: time
  EsAccountTokens_Balance :: string
  EsAccountTokens_BalanceFloat :: float32

record EsAccountTokensUp = BaseEsType +
  EsAccountTokensUp_Timestamp :: time
  EsAccountTokensUp_Balance :: string
  EsAccountTokensUp_BalanceFloat :: float32

record EsAccountBalance = BaseEsType +
  EsAccountBalance_BlockNo :: uint64
  EsAccountBalance_Timestamp :: time
  EsAccountBalance_Balance :: string
  EsAccountBalance_BalanceFloat :: float32
  EsAccountBalance_Staking :: string
  EsAccountBalance_StakingFloat :: float32

record EsNFT = BaseEsType +
  EsNFT_TokenAddress :: string
  EsNFT_TokenId :: string
  EsNFT_Account :: string
  EsNFT_BlockNo :: uint64
  EsNFT_Timestamp :: time
  EsNFT_TokenUri :: string
  EsNFT_ImageUrl :: string

record EsNFTUp = BaseEsType +
  EsNFTUp_Account :: string
  EsNFTUp_BlockNo :: uint64
  EsNFTUp_Timestamp :: time

record EsWhitelist = BaseEsType +
  EsWhitelist_Contract :: string
  EsWhitelist_Type :: string

section \<open>The JSON form\<close>
definition EsChainInfo_fields :: "(string \<times> jtype) list" where
  "EsChainInfo_fields =
    [(''public'', JBoolean), (''mainnet'', JBoolean), (''consensus'', JString),
     (''version'', JUint 64)]"

definition EsChainInfo_source :: "EsChainInfo \<Rightarrow> source" where
  "EsChainInfo_source d =
    [(''public'', SBool (EsChainInfo_Public d)), (''mainnet'', SBool (EsChainInfo_Mainnet d)),
     (''consensus'', SStr (EsChainInfo_Consensus d)),
     (''version'', SNum (unat (EsChainInfo_Version d)))]"

definition EsChainInfo_decode :: "source \<Rightarrow> EsChainInfo option" where
  "EsChainInfo_decode s = (if fits EsChainInfo_fields s then Some
    \<lparr>Doc_Id = [], EsChainInfo_Public = get_bool s ''public'',
      EsChainInfo_Mainnet = get_bool s ''mainnet'',
      EsChainInfo_Consensus = get_str s ''consensus'',
      EsChainInfo_Version = get_uint s ''version''\<rparr> else None)"

definition EsBlock_fields :: "(string \<times> jtype) list" where
  "EsBlock_fields =
    [(''ts'', JTime), (''no'', JUint 64), (''previous_block'', JString), (''txs'', JUint 64),
     (''size'', JUint 64), (''coinbase'', JString), (''block_producer'', JString),
     (''reward_account'', JString), (''reward_amount'', JString)]"

definition EsBlock_source :: "EsBlock \<Rightarrow> source" where
  "EsBlock_source d =
    [(''ts'', STime (EsBlock_Timestamp d)), (''no'', SNum (unat (EsBlock_BlockNo d))),
     (''previous_block'', SStr (EsBlock_PreviousBlock d)),
     (''txs'', SNum (unat (EsBlock_TxCount d))), (''size'', SNum (unat (EsBlock_Size d))),
     (''coinbase'', SStr (EsBlock_Coinbase d)),
     (''block_producer'', SStr (EsBlock_BlockProducer d)),
     (''reward_account'', SStr (EsBlock_RewardAccount d)),
     (''reward_amount'', SStr (EsBlock_RewardAmount d))]"

definition EsBlock_decode :: "source \<Rightarrow> EsBlock option" where
  "EsBlock_decode s = (if fits EsBlock_fields s then Some
    \<lparr>Doc_Id = [], EsBlock_Timestamp = get_time s ''ts'', EsBlock_BlockNo = get_uint s ''no'',
      EsBlock_PreviousBlock = get_str s ''previous_block'', EsBlock_TxCount = get_uint s ''txs'',
      EsBlock_Size = get_uint s ''size'', EsBlock_Coinbase = get_str s ''coinbase'',
      EsBlock_BlockProducer = get_str s ''block_producer'',
      EsBlock_RewardAccount = get_str s ''reward_account'',
      EsBlock_RewardAmount = get_str s ''reward_amount''\<rparr> else None)"

definition EsTx_fields :: "(string \<times> jtype) list" where
  "EsTx_fields =
    [(''blockno'', JUint 64), (''block_id'', JString), (''ts'', JTime), (''tx_idx'', JUint 64),
     (''payload'', JString), (''from'', JString), (''to'', JString), (''amount'', JString),
     (''amount_float'', JFloat), (''type'', JUint 64), (''category'', JString),
     (''method'', JString), (''status'', JString), (''result'', JString),
     (''contract'', JString), (''nonce'', JUint 64), (''fee_delegation'', JBoolean),
     (''gas_price'', JString), (''gas_limit'', JUint 64), (''gas_used'', JUint 64),
     (''fee_used'', JString)]"

definition EsTx_source :: "EsTx \<Rightarrow> source" where
  "EsTx_source d =
    [(''blockno'', SNum (unat (EsTx_BlockNo d))), (''block_id'', SStr (EsTx_BlockId d)),
     (''ts'', STime (EsTx_Timestamp d)), (''tx_idx'', SNum (unat (EsTx_TxIdx d))),
     (''payload'', SStr (EsTx_Payload d)), (''from'', SStr (EsTx_Account d)),
     (''to'', SStr (EsTx_Recipient d)), (''amount'', SStr (EsTx_Amount d)),
     (''amount_float'', SFloat (EsTx_AmountFloat d)), (''type'', SNum (unat (EsTx_Type d))),
     (''category'', SStr (EsTx_Category d)), (''method'', SStr (EsTx_Method d)),
     (''status'', SStr (EsTx_Status d)), (''result'', SStr (EsTx_Result d)),
     (''contract'', SStr (EsTx_Contract d)), (''nonce'', SNum (unat (EsTx_Nonce d))),
     (''fee_delegation'', SBool (EsTx_FeeDelegation d)), (''gas_price'', SStr (EsTx_GasPrice d)),
     (''gas_limit'', SNum (unat (EsTx_GasLimit d))),
     (''gas_used'', SNum (unat (EsTx_GasUsed d))), (''fee_used'', SStr (EsTx_FeeUsed d))]"

definition EsTx_decode :: "source \<Rightarrow> EsTx option" where
  "EsTx_decode s = (if fits EsTx_fields s then Some
    \<lparr>Doc_Id = [], EsTx_BlockNo = get_uint s ''blockno'', EsTx_BlockId = get_str s ''block_id'',
      EsTx_Timestamp = get_time s ''ts'', EsTx_TxIdx = get_uint s ''tx_idx'',
      EsTx_Payload = get_str s ''payload'', EsTx_Account = get_str s ''from'',
      EsTx_Recipient = get_str s ''to'', EsTx_Amount = get_str s ''amount'',
      EsTx_AmountFloat = get_float s ''amount_float'', EsTx_Type = get_uint s ''type'',
      EsTx_Category = get_str s ''category'', EsTx_Method = get_str s ''method'',
      EsTx_Status = get_str s ''status'', EsTx_Result = get_str s ''result'',
      EsTx_Contract = get_str s ''contract'', EsTx_Nonce = get_uint s ''nonce'',
      EsTx_FeeDelegation = get_bool s ''fee_delegation'',
      EsTx_GasPrice = get_str s ''gas_price'', EsTx_GasLimit = get_uint s ''gas_limit'',
      EsTx_GasUsed = get_uint s ''gas_used'', EsTx_FeeUsed = get_str s ''fee_used''\<rparr> else None)"

definition EsContract_fields :: "(string \<times> jtype) list" where
  "EsContract_fields =
    [(''tx_id'', JString), (''creator'', JString), (''blockno'', JUint 64), (''ts'', JTime),
     (''payload'', JString), (''verified_status'', JString), (''verified_token'', JString),
     (''code_url'', JString), (''code'', JString)]"

definition EsContract_source :: "EsContract \<Rightarrow> source" where
  "EsContract_source d =
    [(''tx_id'', SStr (EsContract_TxId d)), (''creator'', SStr (EsContract_Creator d)),
     (''blockno'', SNum (unat (EsContract_BlockNo d))), (''ts'', STime (EsContract_Timestamp d)),
     (''payload'', SStr (EsContract_Payload d)),
     (''verified_status'', SStr (EsContract_VerifiedStatus d)),
     (''verified_token'', SStr (EsContract_VerifiedToken d)),
     (''code_url'', SStr (EsContract_CodeUrl d)), (''code'', SStr (EsContract_Code d))]"

definition EsContract_decode :: "source \<Rightarrow> EsContract option" where
  "EsContract_decode s = (if fits EsContract_fields s then Some
    \<lparr>Doc_Id = [], EsContract_TxId = get_str s ''tx_id'', EsContract_Creator = get_str s ''creator'',
      EsContract_BlockNo = get_uint s ''blockno'', EsContract_Timestamp = get_time s ''ts'',
      EsContract_Payload = get_str s ''payload'',
      EsContract_VerifiedStatus = get_str s ''verified_status'',
      EsContract_VerifiedToken = get_str s ''verified_token'',
      EsContract_CodeUrl = get_str s ''code_url'', EsContract_Code = get_str s ''code''\<rparr> else None)"

definition EsContractUp_fields :: "(string \<times> jtype) list" where
  "EsContractUp_fields =
    [(''verified_status'', JString), (''verified_token'', JString), (''code_url'', JString),
     (''code'', JString)]"

definition EsContractUp_source :: "EsContractUp \<Rightarrow> source" where
  "EsContractUp_source d =
    [(''verified_status'', SStr (EsContractUp_VerifiedStatus d)),
     (''verified_token'', SStr (EsContractUp_VerifiedToken d)),
     (''code_url'', SStr (EsContractUp_CodeUrl d)), (''code'', SStr (EsContractUp_Code d))]"

definition EsContractUp_decode :: "source \<Rightarrow> EsContractUp option" where
  "EsContractUp_decode s = (if fits EsContractUp_fields s then Some
    \<lparr>Doc_Id = [], EsContractUp_VerifiedStatus = get_str s ''verified_status'',
      EsContractUp_VerifiedToken = get_str s ''verified_token'',
      EsContractUp_CodeUrl = get_str s ''code_url'', EsContractUp_Code = get_str s ''code''\<rparr> else None)"

definition EsEvent_fields :: "(string \<times> jtype) list" where
  "EsEvent_fields =
    [(''contract'', JString), (''blockno'', JUint 64), (''tx_id'', JString),
     (''tx_idx'', JUint 64), (''event_idx'', JUint 64), (''event_name'', JString),
     (''event_args'', JString)]"

definition EsEvent_source :: "EsEvent \<Rightarrow> source" where
  "EsEvent_source d =
    [(''contract'', SStr (EsEvent_Contract d)), (''blockno'', SNum (unat (EsEvent_BlockNo d))),
     (''tx_id'', SStr (EsEvent_TxId d)), (''tx_idx'', SNum (unat (EsEvent_TxIdx d))),
     (''event_idx'', SNum (unat (EsEvent_EventIdx d))),
     (''event_name'', SStr (EsEvent_EventName d)), (''event_args'', SStr (EsEvent_EventArgs d))]"

definition EsEvent_decode :: "source \<Rightarrow> EsEvent option" where
  "EsEvent_decode s = (if fits EsEvent_fields s then Some
    \<lparr>Doc_Id = [], EsEvent_Contract = get_str s ''contract'',
      EsEvent_BlockNo = get_uint s ''blockno'', EsEvent_TxId = get_str s ''tx_id'',
      EsEvent_TxIdx = get_uint s ''tx_idx'', EsEvent_EventIdx = get_uint s ''event_idx'',
      EsEvent_EventName = get_str s ''event_name'', EsEvent_EventArgs = get_str s ''event_args''\<rparr> else None)"

definition EsName_fields :: "(string \<times> jtype) list" where
  "EsName_fields =
    [(''name'', JString), (''address'', JString), (''blockno'', JUint 64), (''tx'', JString)]"

definition EsName_source :: "EsName \<Rightarrow> source" where
  "EsName_source d =
    [(''name'', SStr (EsName_Name d)), (''address'', SStr (EsName_Address d)),
     (''blockno'', SNum (unat (EsName_BlockNo d))), (''tx'', SStr (EsName_UpdateTx d))]"

definition EsName_decode :: "source \<Rightarrow> EsName option" where
  "EsName_decode s = (if fits EsName_fields s then Some
    \<lparr>Doc_Id = [], EsName_Name = get_str s ''name'', EsName_Address = get_str s ''address'',
      EsName_BlockNo = get_uint s ''blockno'', EsName_UpdateTx = get_str s ''tx''\<rparr> else None)"

definition EsToken_fields :: "(string \<times> jtype) list" where
  "EsToken_fields =
    [(''tx_id'', JString), (''blockno'', JUint 64), (''creator'', JString), (''type'', JString),
     (''name'', JString), (''name_lower'', JString), (''symbol'', JString),
     (''symbol_lower'', JString), (''decimals'', JUint 8), (''supply'', JString),
     (''supply_float'', JFloat), (''verified_status'', JString), (''token_address'', JString),
     (''owner'', JString), (''comment'', JString), (''email'', JString), (''regdate'', JString),
     (''image_url'', JString), (''homepage_url'', JString), (''total_transfer'', JUint 64)]"

definition EsToken_source :: "EsToken \<Rightarrow> source" where
  "EsToken_source d =
    [(''tx_id'', SStr (EsToken_TxId d)), (''blockno'', SNum (unat (EsToken_BlockNo d))),
     (''creator'', SStr (EsToken_Creator d)), (''type'', SStr (EsToken_Type d)),
     (''name'', SStr (EsToken_Name d)), (''name_lower'', SStr (EsToken_Name_lower d)),
     (''symbol'', SStr (EsToken_Symbol d)), (''symbol_lower'', SStr (EsToken_Symbol_lower d)),
     (''decimals'', SNum (unat (EsToken_Decimals d))), (''supply'', SStr (EsToken_Supply d)),
     (''supply_float'', SFloat (EsToken_SupplyFloat d)),
     (''verified_status'', SStr (EsToken_VerifiedStatus d)),
     (''token_address'', SStr (EsToken_TokenAddress d)), (''owner'', SStr (EsToken_Owner d)),
     (''comment'', SStr (EsToken_Comment d)), (''email'', SStr (EsToken_Email d)),
     (''regdate'', SStr (EsToken_RegDate d)), (''image_url'', SStr (EsToken_ImageUrl d)),
     (''homepage_url'', SStr (EsToken_HomepageUrl d)),
     (''total_transfer'', SNum (unat (EsToken_TotalTransfer d)))]"

definition EsToken_decode :: "source \<Rightarrow> EsToken option" where
  "EsToken_decode s = (if fits EsToken_fields s then Some
    \<lparr>Doc_Id = [], EsToken_TxId = get_str s ''tx_id'', EsToken_BlockNo = get_uint s ''blockno'',
      EsToken_Creator = get_str s ''creator'', EsToken_Type = get_str s ''type'',
      EsToken_Name = get_str s ''name'', EsToken_Name_lower = get_str s ''name_lower'',
      EsToken_Symbol = get_str s ''symbol'', EsToken_Symbol_lower = get_str s ''symbol_lower'',
      EsToken_Decimals = get_uint s ''decimals'', EsToken_Supply = get_str s ''supply'',
      EsToken_SupplyFloat = get_float s ''supply_float'',
      EsToken_VerifiedStatus = get_str s ''verified_status'',
      EsToken_TokenAddress = get_str s ''token_address'', EsToken_Owner = get_str s ''owner'',
      EsToken_Comment = get_str s ''comment'', EsToken_Email = get_str s ''email'',
      EsToken_RegDate = get_str s ''regdate'', EsToken_ImageUrl = get_str s ''image_url'',
      EsToken_HomepageUrl = get_str s ''homepage_url'',
      EsToken_TotalTransfer = get_uint s ''total_transfer''\<rparr> else None)"

definition EsTokenUpSupply_fields :: "(string \<times> jtype) list" where
  "EsTokenUpSupply_fields =
    [(''supply'', JString), (''supply_float'', JFloat)]"

definition EsTokenUpSupply_source :: "EsTokenUpSupply \<Rightarrow> source" where
  "EsTokenUpSupply_source d =
    [(''supply'', SStr (EsTokenUpSupply_Supply d)),
     (''supply_float'', SFloat (EsTokenUpSupply_SupplyFloat d))]"

definition EsTokenUpSupply_decode :: "source \<Rightarrow> EsTokenUpSupply option" where
  "EsTokenUpSupply_decode s = (if fits EsTokenUpSupply_fields s then Some
    \<lparr>Doc_Id = [], EsTokenUpSupply_Supply = get_str s ''supply'',
      EsTokenUpSupply_SupplyFloat = get_float s ''supply_float''\<rparr> else None)"

definition EsTokenUpVerified_fields :: "(string \<times> jtype) list" where
  "EsTokenUpVerified_fields =
    [(''verified_status'', JString), (''token_address'', JString), (''owner'', JString),
     (''comment'', JString), (''email'', JString), (''regdate'', JString),
     (''image_url'', JString), (''homepage_url'', JString), (''total_transfer'', JUint 64)]"

definition EsTokenUpVerified_source :: "EsTokenUpVerified \<Rightarrow> source" where
  "EsTokenUpVerified_source d =
    [(''verified_status'', SStr (EsTokenUpVerified_VerifiedStatus d)),
     (''token_address'', SStr (EsTokenUpVerified_TokenAddress d)),
     (''owner'', SStr (EsTokenUpVerified_Owner d)),
     (''comment'', SStr (EsTokenUpVerified_Comment d)),
     (''email'', SStr (EsTokenUpVerified_Email d)),
     (''regdate'', SStr (EsTokenUpVerified_RegDate d)),
     (''image_url'', SStr (EsTokenUpVerified_ImageUrl d)),
     (''homepage_url'', SStr (EsTokenUpVerified_HomepageUrl d)),
     (''total_transfer'', SNum (unat (EsTokenUpVerified_TotalTransfer d)))]"

definition EsTokenUpVerified_decode :: "source \<Rightarrow> EsTokenUpVerified option" where
  "EsTokenUpVerified_decode s = (if fits EsTokenUpVerified_fields s then Some
    \<lparr>Doc_Id = [], EsTokenUpVerified_VerifiedStatus = get_str s ''verified_status'',
      EsTokenUpVerified_TokenAddress = get_str s ''token_address'',
      EsTokenUpVerified_Owner = get_str s ''owner'',
      EsTokenUpVerified_Comment = get_str s ''comment'',
      EsTokenUpVerified_Email = get_str s ''email'',
      EsTokenUpVerified_RegDate = get_str s ''regdate'',
      EsTokenUpVerified_ImageUrl = get_str s ''image_url'',
      EsTokenUpVerified_HomepageUrl = get_str s ''homepage_url'',
      EsTokenUpVerified_TotalTransfer = get_uint s ''total_transfer''\<rparr> else None)"

definition EsTokenTransfer_fields :: "(string \<times> jtype) list" where
  "EsTokenTransfer_fields =
    [(''tx_id'', JString), (''ts'', JTime), (''blockno'', JUint 64), (''address'', JString),
     (''from'', JString), (''to'', JString), (''sender'', JString), (''amount'', JString),
     (''amount_float'', JFloat), (''token_id'', JString)]"

definition EsTokenTransfer_source :: "EsTokenTransfer \<Rightarrow> source" where
  "EsTokenTransfer_source d =
    [(''tx_id'', SStr (EsTokenTransfer_TxId d)), (''ts'', STime (EsTokenTransfer_Timestamp d)),
     (''blockno'', SNum (unat (EsTokenTransfer_BlockNo d))),
     (''address'', SStr (EsTokenTransfer_TokenAddress d)),
     (''from'', SStr (EsTokenTransfer_From d)), (''to'', SStr (EsTokenTransfer_To d)),
     (''sender'', SStr (EsTokenTransfer_Sender d)),
     (''amount'', SStr (EsTokenTransfer_Amount d)),
     (''amount_float'', SFloat (EsTokenTransfer_AmountFloat d)),
     (''token_id'', SStr (EsTokenTransfer_TokenId d))]"

definition EsTokenTransfer_decode :: "source \<Rightarrow> EsTokenTransfer option" where
  "EsTokenTransfer_decode s = (if fits EsTokenTransfer_fields s then Some
    \<lparr>Doc_Id = [], EsTokenTransfer_TxId = get_str s ''tx_id'',
      EsTokenTransfer_Timestamp = get_time s ''ts'',
      EsTokenTransfer_BlockNo = get_uint s ''blockno'',
      EsTokenTransfer_TokenAddress = get_str s ''address'',
      EsTokenTransfer_From = get_str s ''from'', EsTokenTransfer_To = get_str s ''to'',
      EsTokenTransfer_Sender = get_str s ''sender'',
      EsTokenTransfer_Amount = get_str s ''amount'',
      EsTokenTransfer_AmountFloat = get_float s ''amount_float'',
      EsTokenTransfer_TokenId = get_str s ''token_id''\<rparr> else None)"

definition EsAccountTokens_fields :: "(string \<times> jtype) list" where
  "EsAccountTokens_fields =
    [(''account'', JString), (''address'', JString), (''type'', JString), (''ts'', JTime),
     (''balance'', JString), (''balance_float'', JFloat)]"

definition EsAccountTokens_source :: "EsAccountTokens \<Rightarrow> source" where
  "EsAccountTokens_source d =
    [(''account'', SStr (EsAccountTokens_Account d)),
     (''address'', SStr (EsAccountTokens_TokenAddress d)),
     (''type'', SStr (EsAccountTokens_Type d)), (''ts'', STime (EsAccountTokens_Timestamp d)),
     (''balance'', SStr (EsAccountTokens_Balance d)),
     (''balance_float'', SFloat (EsAccountTokens_BalanceFloat d))]"

definition EsAccountTokens_decode :: "source \<Rightarrow> EsAccountTokens option" where
  "EsAccountTokens_decode s = (if fits EsAccountTokens_fields s then Some
    \<lparr>Doc_Id = [], EsAccountTokens_Account = get_str s ''account'',
      EsAccountTokens_TokenAddress = get_str s ''address'',
      EsAccountTokens_Type = get_str s ''type'', EsAccountTokens_Timestamp = get_time s ''ts'',
      EsAccountTokens_Balance = get_str s ''balance'',
      EsAccountTokens_BalanceFloat = get_float s ''balance_float''\<rparr> else None)"

definition EsAccountTokensUp_fields :: "(string \<times> jtype) list" where
  "EsAccountTokensUp_fields =
    [(''ts'', JTime), (''balance'', JString), (''balance_float'', JFloat)]"

definition EsAccountTokensUp_source :: "EsAccountTokensUp \<Rightarrow> source" where
  "EsAccountTokensUp_source d =
    [(''ts'', STime (EsAccountTokensUp_Timestamp d)),
     (''balance'', SStr (EsAccountTokensUp_Balance d)),
     (''balance_float'', SFloat (EsAccountTokensUp_BalanceFloat d))]"

definition EsAccountTokensUp_decode :: "source \<Rightarrow> EsAccountTokensUp option" where
  "EsAccountTokensUp_decode s = (if fits EsAccountTokensUp_fields s then Some
    \<lparr>Doc_Id = [], EsAccountTokensUp_Timestamp = get_time s ''ts'',
      EsAccountTokensUp_Balance = get_str s ''balance'',
      EsAccountTokensUp_BalanceFloat = get_float s ''balance_float''\<rparr> else None)"

definition EsAccountBalance_fields :: "(string \<times> jtype) list" where
  "EsAccountBalance_fields =
    [(''blockno'', JUint 64), (''ts'', JTime), (''balance'', JString),
     (''balance_float'', JFloat), (''staking'', JString), (''staking_float'', JFloat)]"

definition EsAccountBalance_source :: "EsAccountBalance \<Rightarrow> source" where
  "EsAccountBalance_source d =
    [(''blockno'', SNum (unat (EsAccountBalance_BlockNo d))),
     (''ts'', STime (EsAccountBalance_Timestamp d)),
     (''balance'', SStr (EsAccountBalance_Balance d)),
     (''balance_float'', SFloat (EsAccountBalance_BalanceFloat d)),
     (''staking'', SStr (EsAccountBalance_Staking d)),
     (''staking_float'', SFloat (EsAccountBalance_StakingFloat d))]"

definition EsAccountBalance_decode :: "source \<Rightarrow> EsAccountBalance option" where
  "EsAccountBalance_decode s = (if fits EsAccountBalance_fields s then Some
    \<lparr>Doc_Id = [], EsAccountBalance_BlockNo = get_uint s ''blockno'',
      EsAccountBalance_Timestamp = get_time s ''ts'',
      EsAccountBalance_Balance = get_str s ''balance'',
      EsAccountBalance_BalanceFloat = get_float s ''balance_float'',
      EsAccountBalance_Staking = get_str s ''staking'',
      EsAccountBalance_StakingFloat = get_float s ''staking_float''\<rparr> else None)"

definition EsNFT_fields :: "(string \<times> jtype) list" where
  "EsNFT_fields =
    [(''address'', JString), (''token_id'', JString), (''account'', JString),
     (''blockno'', JUint 64), (''ts'', JTime), (''token_uri'', JString), (''image_url'', JString)]"

definition EsNFT_source :: "EsNFT \<Rightarrow> source" where
  "EsNFT_source d =
    [(''address'', SStr (EsNFT_TokenAddress d)), (''token_id'', SStr (EsNFT_TokenId d)),
     (''account'', SStr (EsNFT_Account d)), (''blockno'', SNum (unat (EsNFT_BlockNo d))),
     (''ts'', STime (EsNFT_Timestamp d)), (''token_uri'', SStr (EsNFT_TokenUri d)),
     (''image_url'', SStr (EsNFT_ImageUrl d))]"

definition EsNFT_decode :: "source \<Rightarrow> EsNFT option" where
  "EsNFT_decode s = (if fits EsNFT_fields s then Some
    \<lparr>Doc_Id = [], EsNFT_TokenAddress = get_str s ''address'',
      EsNFT_TokenId = get_str s ''token_id'', EsNFT_Account = get_str s ''account'',
      EsNFT_BlockNo = get_uint s ''blockno'', EsNFT_Timestamp = get_time s ''ts'',
      EsNFT_TokenUri = get_str s ''token_uri'', EsNFT_ImageUrl = get_str s ''image_url''\<rparr> else None)"

definition EsNFTUp_fields :: "(string \<times> jtype) list" where
  "EsNFTUp_fields =
    [(''account'', JString), (''blockno'', JUint 64), (''ts'', JTime)]"

definition EsNFTUp_source :: "EsNFTUp \<Rightarrow> source" where
  "EsNFTUp_source d =
    [(''account'', SStr (EsNFTUp_Account d)), (''blockno'', SNum (unat (EsNFTUp_BlockNo d))),
     (''ts'', STime (EsNFTUp_Timestamp d))]"

definition EsNFTUp_decode :: "source \<Rightarrow> EsNFTUp option" where
  "EsNFTUp_decode s = (if fits EsNFTUp_fields s then Some
    \<lparr>Doc_Id = [], EsNFTUp_Account = get_str s ''account'', EsNFTUp_BlockNo = get_uint s ''blockno'',
      EsNFTUp_Timestamp = get_time s ''ts''\<rparr> else None)"

definition EsWhitelist_fields :: "(string \<times> jtype) list" where
  "EsWhitelist_fields =
    [(''contract'', JString), (''type'', JString)]"

definition EsWhitelist_source :: "EsWhitelist \<Rightarrow> source" where
  "EsWhitelist_source d =
    [(''contract'', SStr (EsWhitelist_Contract d)), (''type'', SStr (EsWhitelist_Type d))]"

definition EsWhitelist_decode :: "source \<Rightarrow> EsWhitelist option" where
  "EsWhitelist_decode s = (if fits EsWhitelist_fields s then Some
    \<lparr>Doc_Id = [], EsWhitelist_Contract = get_str s ''contract'',
      EsWhitelist_Type = get_str s ''type''\<rparr> else None)"
section \<open>Round trips\<close>

lemma unat_word_fits [simp]: "unat (x :: 64 word) < 18446744073709551616"
  using unsigned_less[of x] by simp

lemma unat_word8_fits [simp]: "unat (x :: 8 word) < 256"
  using unsigned_less[of x] by simp

lemma EsChainInfo_roundtrip: "EsChainInfo_decode (EsChainInfo_source d) = Some (SetID [] d)"
  by (simp add: EsChainInfo_decode_def EsChainInfo_source_def EsChainInfo_fields_def fits_def get_defs SetID_def)

lemma EsBlock_roundtrip: "EsBlock_decode (EsBlock_source d) = Some (SetID [] d)"
  by (simp add: EsBlock_decode_def EsBlock_source_def EsBlock_fields_def fits_def get_defs SetID_def)

lemma EsTx_roundtrip: "EsTx_decode (EsTx_source d) = Some (SetID [] d)"
  by (simp add: EsTx_decode_def EsTx_source_def EsTx_fields_def fits_def get_defs SetID_def)

lemma EsContract_roundtrip: "EsContract_decode (EsContract_source d) = Some (SetID [] d)"
  by (simp add: EsContract_decode_def EsContract_source_def EsContract_fields_def fits_def get_defs SetID_def)

lemma EsContractUp_roundtrip: "EsContractUp_decode (EsContractUp_source d) = Some (SetID [] d)"
  by (simp add: EsContractUp_decode_def EsContractUp_source_def EsContractUp_fields_def fits_def get_defs SetID_def)

lemma EsEvent_roundtrip: "EsEvent_decode (EsEvent_source d) = Some (SetID [] d)"
  by (simp add: EsEvent_decode_def EsEvent_source_def EsEvent_fields_def fits_def get_defs SetID_def)

lemma EsName_roundtrip: "EsName_decode (EsName_source d) = Some (SetID [] d)"
  by (simp add: EsName_decode_def EsName_source_def EsName_fields_def fits_def get_defs SetID_def)

lemma EsToken_roundtrip: "EsToken_decode (EsToken_source d) = Some (SetID [] d)"
  by (simp add: EsToken_decode_def EsToken_source_def EsToken_fields_def fits_def get_defs SetID_def)

lemma EsTokenUpSupply_roundtrip: "EsTokenUpSupply_decode (EsTokenUpSupply_source d) = Some (SetID [] d)"
  by (simp add: EsTokenUpSupply_decode_def EsTokenUpSupply_source_def EsTokenUpSupply_fields_def fits_def get_defs SetID_def)

lemma EsTokenUpVerified_roundtrip: "EsTokenUpVerified_decode (EsTokenUpVerified_source d) = Some (SetID [] d)"
  by (simp add: EsTokenUpVerified_decode_def EsTokenUpVerified_source_def EsTokenUpVerified_fields_def fits_def get_defs SetID_def)

lemma EsTokenTransfer_roundtrip: "EsTokenTransfer_decode (EsTokenTransfer_source d) = Some (SetID [] d)"
  by (simp add: EsTokenTransfer_decode_def EsTokenTransfer_source_def EsTokenTransfer_fields_def fits_def get_defs SetID_def)

lemma EsAccountTokens_roundtrip: "EsAccountTokens_decode (EsAccountTokens_source d) = Some (SetID [] d)"
  by (simp add: EsAccountTokens_decode_def EsAccountTokens_source_def EsAccountTokens_fields_def fits_def get_defs SetID_def)

lemma EsAccountTokensUp_roundtrip: "EsAccountTokensUp_decode (EsAccountTokensUp_source d) = Some (SetID [] d)"
  by (simp add: EsAccountTokensUp_decode_def EsAccountTokensUp_source_def EsAccountTokensUp_fields_def fits_def get_defs SetID_def)

lemma EsAccountBalance_roundtrip: "EsAccountBalance_decode (EsAccountBalance_source d) = Some (SetID [] d)"
  by (simp add: EsAccountBalance_decode_def EsAccountBalance_source_def EsAccountBalance_fields_def fits_def get_defs SetID_def)

lemma EsNFT_roundtrip: "EsNFT_decode (EsNFT_source d) = Some (SetID [] d)"
  by (simp add: EsNFT_decode_def EsNFT_source_def EsNFT_fields_def fits_def get_defs SetID_def)

lemma EsNFTUp_roundtrip: "EsNFTUp_decode (EsNFTUp_source d) = Some (SetID [] d)"
  by (simp add: EsNFTUp_decode_def EsNFTUp_source_def EsNFTUp_fields_def fits_def get_defs SetID_def)

lemma EsWhitelist_roundtrip: "EsWhitelist_decode (EsWhitelist_source d) = Some (SetID [] d)"
  by (simp add: EsWhitelist_decode_def EsWhitelist_source_def EsWhitelist_fields_def fits_def get_defs SetID_def)

text \<open>
  The interface of a document type, with its decoder: the id is a lens beside the stored
  source, and decoding the source gives the document back without its id. A client stores the source
  under the id and restores the document by setting the id of the hit.
\<close>

locale DocType =
  fixes get_id :: "'d \<Rightarrow> string"
    and set_id :: "string \<Rightarrow> 'd \<Rightarrow> 'd"
    and source_of :: "'d \<Rightarrow> source"
    and decode :: "source \<Rightarrow> 'd option"
  assumes get_set: "get_id (set_id i d) = i"
    and set_get: "set_id (get_id d) d = d"
    and set_set: "set_id i (set_id j d) = set_id i d"
    and decode_source: "decode (source_of d) = Some (set_id [] d)"
begin

lemma reload: "map_option (set_id (get_id d)) (decode (source_of d)) = Some d"
  by (simp add: decode_source set_set set_get)

lemma decode_source_id: "decode (source_of d) = Some x \<Longrightarrow> get_id x = []"
  using decode_source[of d] get_set[of "[]" d] by simp

lemma same_source: "source_of a = source_of b \<Longrightarrow> get_id a = get_id b \<Longrightarrow> a = b"
  by (metis reload option.inject)

end

lemma Doc_Id_lens: "GetID (SetID i d) = i" "SetID (GetID d) d = d" "SetID i (SetID j d) = SetID i d"
  by (simp_all add: GetID_def SetID_def)

interpretation EsChainInfo: DocType GetID SetID EsChainInfo_source EsChainInfo_decode
  by unfold_locales (simp_all add: Doc_Id_lens EsChainInfo_roundtrip)

interpretation EsBlock: DocType GetID SetID EsBlock_source EsBlock_decode
  by unfold_locales (simp_all add: Doc_Id_lens EsBlock_roundtrip)

interpretation EsTx: DocType GetID SetID EsTx_source EsTx_decode
  by unfold_locales (simp_all add: Doc_Id_lens EsTx_roundtrip)

interpretation EsContract: DocType GetID SetID EsContract_source EsContract_decode
  by unfold_locales (simp_all add: Doc_Id_lens EsContract_roundtrip)

interpretation EsContractUp: DocType GetID SetID EsContractUp_source EsContractUp_decode
  by unfold_locales (simp_all add: Doc_Id_lens EsContractUp_roundtrip)

interpretation EsEvent: DocType GetID SetID EsEvent_source EsEvent_decode
  by unfold_locales (simp_all add: Doc_Id_lens EsEvent_roundtrip)

interpretation EsName: DocType GetID SetID EsName_source EsName_decode
  by unfold_locales (simp_all add: Doc_Id_lens EsName_roundtrip)

interpretation EsToken: DocType GetID SetID EsToken_source EsToken_decode
  by unfold_locales (simp_all add: Doc_Id_lens EsToken_roundtrip)

interpretation EsTokenUpSupply: DocType GetID SetID EsTokenUpSupply_source EsTokenUpSupply_decode
  by unfold_locales (simp_all add: Doc_Id_lens EsTokenUpSupply_roundtrip)

interpretation EsTokenUpVerified: DocType GetID SetID EsTokenUpVerified_source EsTokenUpVerified_decode
  by unfold_locales (simp_all add: Doc_Id_lens EsTokenUpVerified_roundtrip)

interpretation EsTokenTransfer: DocType GetID SetID EsTokenTransfer_source EsTokenTransfer_decode
  by unfold_locales (simp_all add: Doc_Id_lens EsTokenTransfer_roundtrip)

interpretation EsAccountTokens: DocType GetID SetID EsAccountTokens_source EsAccountTokens_decode
  by unfold_locales (simp_all add: Doc_Id_lens EsAccountTokens_roundtrip)

interpretation EsAccountTokensUp: DocType GetID SetID EsAccountTokensUp_source EsAccountTokensUp_decode
  by unfold_locales (simp_all add: Doc_Id_lens EsAccountTokensUp_roundtrip)

interpretation EsAccountBalance: DocType GetID SetID EsAccountBalance_source EsAccountBalance_decode
  by unfold_locales (simp_all add: Doc_Id_lens EsAccountBalance_roundtrip)

interpretation EsNFT: DocType GetID SetID EsNFT_source EsNFT_decode
  by unfold_locales (simp_all add: Doc_Id_lens EsNFT_roundtrip)

interpretation EsNFTUp: DocType GetID SetID EsNFTUp_source EsNFTUp_decode
  by unfold_locales (simp_all add: Doc_Id_lens EsNFTUp_roundtrip)

interpretation EsWhitelist: DocType GetID SetID EsWhitelist_source EsWhitelist_decode
  by unfold_locales (simp_all add: Doc_Id_lens EsWhitelist_roundtrip)

section \<open>Documents of any type\<close>

text \<open>The interface \<open>DocType\<close>: a value of any of the structs.\<close>

datatype doc =
    DChainInfo EsChainInfo
  | DBlock EsBlock
  | DTx EsTx
  | DContract EsContract
  | DContractUp EsContractUp
  | DEvent EsEvent
  | DName EsName
  | DToken EsToken
  | DTokenUpSupply EsTokenUpSupply
  | DTokenUpVerified EsTokenUpVerified
  | DTokenTransfer EsTokenTransfer
  | DAccountTokens EsAccountTokens
  | DAccountTokensUp EsAccountTokensUp
  | DAccountBalance EsAccountBalance
  | DNFT EsNFT
  | DNFTUp EsNFTUp
  | DWhitelist EsWhitelist

primrec doc_GetID :: "doc \<Rightarrow> string" where
  "doc_GetID (DChainInfo d) = GetID d"
| "doc_GetID (DBlock d) = GetID d"
| "doc_GetID (DTx d) = GetID d"
| "doc_GetID (DContract d) = GetID d"
| "doc_GetID (DContractUp d) = GetID d"
| "doc_GetID (DEvent d) = GetID d"
| "doc_GetID (DName d) = GetID d"
| "doc_GetID (DToken d) = GetID d"
| "doc_GetID (DTokenUpSupply d) = GetID d"
| "doc_GetID (DTokenUpVerified d) = GetID d"
| "doc_GetID (DTokenTransfer d) = GetID d"
| "doc_GetID (DAccountTokens d) = GetID d"
| "doc_GetID (DAccountTokensUp d) = GetID d"
| "doc_GetID (DAccountBalance d) = GetID d"
| "doc_GetID (DNFT d) = GetID d"
| "doc_GetID (DNFTUp d) = GetID d"
| "doc_GetID (DWhitelist d) = GetID d"

primrec doc_SetID :: "string \<Rightarrow> doc \<Rightarrow> doc" where
  "doc_SetID docid (DChainInfo d) = DChainInfo (SetID docid d)"
| "doc_SetID docid (DBlock d) = DBlock (SetID docid d)"
| "doc_SetID docid (DTx d) = DTx (SetID docid d)"
| "doc_SetID docid (DContract d) = DContract (SetID docid d)"
| "doc_SetID docid (DContractUp d) = DContractUp (SetID docid d)"
| "doc_SetID docid (DEvent d) = DEvent (SetID docid d)"
| "doc_SetID docid (DName d) = DName (SetID docid d)"
| "doc_SetID docid (DToken d) = DToken (SetID docid d)"
| "doc_SetID docid (DTokenUpSupply d) = DTokenUpSupply (SetID docid d)"
| "doc_SetID docid (DTokenUpVerified d) = DTokenUpVerified (SetID docid d)"
| "doc_SetID docid (DTokenTransfer d) = DTokenTransfer (SetID docid d)"
| "doc_SetID docid (DAccountTokens d) = DAccountTokens (SetID docid d)"
| "doc_SetID docid (DAccountTokensUp d) = DAccountTokensUp (SetID docid d)"
| "doc_SetID docid (DAccountBalance d) = DAccountBalance (SetID docid d)"
| "doc_SetID docid (DNFT d) = DNFT (SetID docid d)"
| "doc_SetID docid (DNFTUp d) = DNFTUp (SetID docid d)"
| "doc_SetID docid (DWhitelist d) = DWhitelist (SetID docid d)"

primrec doc_source :: "doc \<Rightarrow> source" where
  "doc_source (DChainInfo d) = EsChainInfo_source d"
| "doc_source (DBlock d) = EsBlock_source d"
| "doc_source (DTx d) = EsTx_source d"
| "doc_source (DContract d) = EsContract_source d"
| "doc_source (DContractUp d) = EsContractUp_source d"
| "doc_source (DEvent d) = EsEvent_source d"
| "doc_source (DName d) = EsName_source d"
| "doc_source (DToken d) = EsToken_source d"
| "doc_source (DTokenUpSupply d) = EsTokenUpSupply_source d"
| "doc_source (DTokenUpVerified d) = EsTokenUpVerified_source d"
| "doc_source (DTokenTransfer d) = EsTokenTransfer_source d"
| "doc_source (DAccountTokens d) = EsAccountTokens_source d"
| "doc_source (DAccountTokensUp d) = EsAccountTokensUp_source d"
| "doc_source (DAccountBalance d) = EsAccountBalance_source d"
| "doc_source (DNFT d) = EsNFT_source d"
| "doc_source (DNFTUp d) = EsNFTUp_source d"
| "doc_source (DWhitelist d) = EsWhitelist_source d"

end
