(* ===== verification/Conv.thy ===== *)
theory Conv
  imports Account Documents
begin

text \<open>
  Converting chain data into documents (\<open>indexer/documents/conv.go\<close>). The size of a block in
  the protobuf encoding is computed by a package outside src/: it is the field \<open>proto_Size\<close> of
  the library record.
\<close>

record conv_lib = lib +
  proto_Size :: "Block \<Rightarrow> int"

definition base58 :: "'z lib_scheme \<Rightarrow> slice \<Rightarrow> string" where
  "base58 L b = base58_Encode L (bytes_of b)"

text \<open>\<open>a / 10^exp\<close> as a \<open>big.Float\<close> of the precision that \<open>Quo\<close> takes from its operands, then
  rounded to a \<open>float32\<close>.\<close>

definition bigIntToFloat :: "nat \<Rightarrow> nat \<Rightarrow> float32" where
  "bigIntToFloat a expo =
     (let y = 10 ^ expo;
          prec = max (max 64 (bit_length a)) (max 64 (bit_length y));
          (m, e) = round_bits prec None a y
      in fst (if e \<ge> 0 then f32_of_ratio False (m * 2 ^ nat e) 1
              else f32_of_ratio False m (2 ^ nat (- e))))"

definition ConvBlock :: "'z conv_lib_scheme \<Rightarrow> Block \<Rightarrow> string \<Rightarrow> EsBlock outcome" where
  "ConvBlock L block blockProducer =
     obnd (deref (Block_Header block)) (\<lambda>Header.
     obnd (deref (Block_Body block)) (\<lambda>Body.
       Ret \<lparr>Doc_Id = base58 L (Block_Hash block),
         EsBlock_Timestamp = sint (BlockHeader_Timestamp Header),
         EsBlock_BlockNo = BlockHeader_BlockNo Header,
         EsBlock_PreviousBlock = base58 L (BlockHeader_PrevBlockHash Header),
         EsBlock_TxCount = of_nat (length (BlockBody_Txs Body)),
         EsBlock_Size = of_int (proto_Size L block),
         EsBlock_Coinbase =
           EncodeAndResolveAccount L (BlockHeader_CoinbaseAccount Header) (BlockHeader_BlockNo Header),
         EsBlock_BlockProducer = blockProducer,
         EsBlock_RewardAccount =
           EncodeAndResolveAccount L (BlockHeader_Consensus Header) (BlockHeader_BlockNo Header),
         EsBlock_RewardAmount =
           (if length (bytes_of (BlockHeader_Consensus Header)) > 0 then ''160000000000000000'' else [])\<rparr>))"

definition default_gas_price :: string where "default_gas_price = ''50000000000''"

definition ConvTx :: "'z lib_scheme \<Rightarrow> uint64 \<Rightarrow> Tx \<Rightarrow> Receipt option \<Rightarrow> EsBlock \<Rightarrow> EsTx outcome" where
  "ConvTx L txIdx tx receipt blockDoc =
     obnd (deref (GetBody tx)) (\<lambda>Body.
     obnd (DetectTxCategory L tx) (\<lambda>(category, method).
       let amount = big_SetBytes (bytes_of (TxBody_Amount Body)) in
       Ret \<lparr>Doc_Id = base58 L (Tx_Hash tx),
         EsTx_BlockNo = EsBlock_BlockNo blockDoc,
         EsTx_BlockId = Doc_Id blockDoc,
         EsTx_Timestamp = EsBlock_Timestamp blockDoc,
         EsTx_TxIdx = txIdx,
         EsTx_Payload = bytes_of (GetPayload (GetBody tx)),
         EsTx_Account = EncodeAndResolveAccount L (TxBody_Account Body) (EsBlock_BlockNo blockDoc),
         EsTx_Recipient = EncodeAndResolveAccount L (TxBody_Recipient Body) (EsBlock_BlockNo blockDoc),
         EsTx_Amount = big_String (int amount),
         EsTx_AmountFloat = bigIntToFloat amount 18,
         EsTx_Type = scast (TxBody_Type Body),
         EsTx_Category = category,
         EsTx_Method = (if length method > 50 then take 50 method else method),
         EsTx_Status = (case receipt of None \<Rightarrow> ''NO_RECEIPT'' | Some r \<Rightarrow> Receipt_Status r),
         EsTx_Result = (case receipt of None \<Rightarrow> [] | Some r \<Rightarrow> Receipt_Ret r),
         EsTx_Contract = (case receipt of None \<Rightarrow> []
           | Some r \<Rightarrow> EncodeAndResolveAccount L (Receipt_ContractAddress r) (EsBlock_BlockNo blockDoc)),
         EsTx_Nonce = TxBody_Nonce Body,
         EsTx_FeeDelegation = (case receipt of None \<Rightarrow> False | Some r \<Rightarrow> Receipt_FeeDelegation r),
         EsTx_GasPrice = default_gas_price,
         EsTx_GasLimit = TxBody_GasLimit Body,
         EsTx_GasUsed = (case receipt of None \<Rightarrow> 0 | Some r \<Rightarrow> Receipt_GasUsed r),
         EsTx_FeeUsed = (case receipt of None \<Rightarrow> []
           | Some r \<Rightarrow> big_String (int (big_SetBytes (bytes_of (Receipt_FeeUsed r)))))\<rparr>))"

definition ConvContract :: "'z lib_scheme \<Rightarrow> EsTx \<Rightarrow> slice \<Rightarrow> EsContract" where
  "ConvContract L txDoc contractAddress =
     \<lparr>Doc_Id = EncodeAndResolveAccount L contractAddress (EsTx_BlockNo txDoc),
       EsContract_TxId = GetID txDoc,
       EsContract_Creator = EsTx_Account txDoc,
       EsContract_BlockNo = EsTx_BlockNo txDoc,
       EsContract_Timestamp = EsTx_Timestamp txDoc,
       EsContract_Payload = EsTx_Payload txDoc,
       EsContract_VerifiedStatus = [], EsContract_VerifiedToken = [],
       EsContract_CodeUrl = [], EsContract_Code = []\<rparr>"

definition ConvContractUp :: "string \<Rightarrow> string \<Rightarrow> string \<Rightarrow> string \<Rightarrow> string \<Rightarrow> EsContractUp" where
  "ConvContractUp contractAddress status token codeUrl code =
     \<lparr>Doc_Id = contractAddress, EsContractUp_VerifiedStatus = status,
       EsContractUp_VerifiedToken = token, EsContractUp_CodeUrl = codeUrl, EsContractUp_Code = code\<rparr>"

definition ConvEvent :: "'z lib_scheme \<Rightarrow> Event \<Rightarrow> EsBlock \<Rightarrow> EsTx \<Rightarrow> uint64 \<Rightarrow> EsEvent" where
  "ConvEvent L event blockDoc txDoc txIdx =
     \<lparr>Doc_Id = show_nat (unat (EsBlock_BlockNo blockDoc)) @ ''-'' @ show_nat (unat (EsTx_TxIdx txDoc))
         @ ''-'' @ show_int (sint (Event_EventIdx event)),
       EsEvent_Contract = EncodeAndResolveAccount L (Event_ContractAddress event) (EsTx_BlockNo txDoc),
       EsEvent_BlockNo = EsBlock_BlockNo blockDoc,
       EsEvent_TxId = Doc_Id txDoc,
       EsEvent_TxIdx = txIdx,
       EsEvent_EventIdx = scast (Event_EventIdx event),
       EsEvent_EventName = Event_EventName event,
       EsEvent_EventArgs = Event_JsonArgs event\<rparr>"

definition ConvTokenUp :: "'z lib_scheme \<Rightarrow> EsTx \<Rightarrow> slice \<Rightarrow> string \<Rightarrow> float32 \<Rightarrow> EsTokenUpSupply" where
  "ConvTokenUp L txDoc contractAddress supply supplyFloat =
     \<lparr>Doc_Id = EncodeAndResolveAccount L contractAddress (EsTx_BlockNo txDoc),
       EsTokenUpSupply_Supply = supply, EsTokenUpSupply_SupplyFloat = supplyFloat\<rparr>"

definition ConvTokenUpVerified :: "EsToken \<Rightarrow> string \<Rightarrow> string \<Rightarrow> string \<Rightarrow> string \<Rightarrow> string \<Rightarrow> string
    \<Rightarrow> string \<Rightarrow> string \<Rightarrow> uint64 \<Rightarrow> EsTokenUpVerified" where
  "ConvTokenUpVerified tokenDoc status tokenAddress owner comment email regDate homepageUrl imageUrl
      totalTransfer =
     \<lparr>Doc_Id = Doc_Id tokenDoc,
       EsTokenUpVerified_VerifiedStatus = status,
       EsTokenUpVerified_TokenAddress = tokenAddress,
       EsTokenUpVerified_Owner = owner,
       EsTokenUpVerified_Comment = comment,
       EsTokenUpVerified_Email = email,
       EsTokenUpVerified_RegDate = regDate,
       EsTokenUpVerified_ImageUrl = imageUrl,
       EsTokenUpVerified_HomepageUrl = homepageUrl,
       EsTokenUpVerified_TotalTransfer = totalTransfer\<rparr>"

definition ConvToken :: "'z lib_scheme \<Rightarrow> EsTx \<Rightarrow> slice \<Rightarrow> TokenType \<Rightarrow> string \<Rightarrow> string \<Rightarrow> uint8
    \<Rightarrow> string \<Rightarrow> float32 \<Rightarrow> EsToken" where
  "ConvToken L txDoc contractAddress tokenType name symbol decimals supply supplyFloat =
     \<lparr>Doc_Id = EncodeAndResolveAccount L contractAddress (EsTx_BlockNo txDoc),
       EsToken_TxId = GetID txDoc,
       EsToken_BlockNo = EsTx_BlockNo txDoc,
       EsToken_Creator = EsTx_Account txDoc,
       EsToken_Type = tokenType,
       EsToken_Name = name, EsToken_Name_lower = ToLower L name,
       EsToken_Symbol = symbol, EsToken_Symbol_lower = ToLower L symbol,
       EsToken_Decimals = decimals,
       EsToken_Supply = supply, EsToken_SupplyFloat = supplyFloat,
       EsToken_VerifiedStatus = [], EsToken_TokenAddress = [], EsToken_Owner = [],
       EsToken_Comment = [], EsToken_Email = [], EsToken_RegDate = [], EsToken_ImageUrl = [],
       EsToken_HomepageUrl = [], EsToken_TotalTransfer = 0\<rparr>"

text \<open>The arguments of a name transaction are indexed without a check of their number.\<close>

definition nth_arg :: "string list \<Rightarrow> nat \<Rightarrow> string outcome" where
  "nth_arg args i = (if i < length args then Ret (args ! i) else Panic IndexOutOfRange)"

definition ConvName_parse :: "'z lib_scheme \<Rightarrow> Tx \<Rightarrow> uint64 \<Rightarrow> (string \<times> string) outcome" where
  "ConvName_parse L tx blockNo = (case UnmarshalPayloadWithArgs tx of
     Inl _ \<Rightarrow> Ret (''error'', [])
   | Inr payload \<Rightarrow>
      obnd (nth_arg (Payload_Args payload) 0) (\<lambda>name.
        if Payload_Name payload = ''v1createName''
        then obnd (deref (Tx_Body tx)) (\<lambda>Body.
          Ret (name, EncodeAndResolveAccount L (TxBody_Account Body) blockNo))
        else if Payload_Name payload = ''v1updateName''
        then obnd (nth_arg (Payload_Args payload) 1) (\<lambda>address. Ret (name, address))
        else Ret (name, [])))"

definition ConvName :: "'z lib_scheme \<Rightarrow> Tx \<Rightarrow> uint64 \<Rightarrow> EsName outcome" where
  "ConvName L tx blockNo =
     obnd (ConvName_parse L tx blockNo) (\<lambda>(name, address).
       let hash = base58 L (Tx_Hash tx) in
       Ret \<lparr>Doc_Id = name @ ''-'' @ hash, EsName_Name = name, EsName_Address = address,
         EsName_BlockNo = blockNo, EsName_UpdateTx = hash\<rparr>)"

definition ConvNFT :: "EsTokenTransfer \<Rightarrow> string \<Rightarrow> string \<Rightarrow> EsNFT" where
  "ConvNFT ttDoc tokenUri imageUrl =
     \<lparr>Doc_Id = EsTokenTransfer_TokenAddress ttDoc @ ''-'' @ EsTokenTransfer_TokenId ttDoc,
       EsNFT_TokenAddress = EsTokenTransfer_TokenAddress ttDoc,
       EsNFT_TokenId = EsTokenTransfer_TokenId ttDoc,
       EsNFT_Account = EsTokenTransfer_Amount ttDoc,
       EsNFT_BlockNo = EsTokenTransfer_BlockNo ttDoc,
       EsNFT_Timestamp = EsTokenTransfer_Timestamp ttDoc,
       EsNFT_TokenUri = tokenUri, EsNFT_ImageUrl = imageUrl\<rparr>"

definition ConvTokenTransfer :: "'z lib_scheme \<Rightarrow> slice \<Rightarrow> EsTx \<Rightarrow> int \<Rightarrow> string \<Rightarrow> string \<Rightarrow> string
    \<Rightarrow> string \<Rightarrow> float32 \<Rightarrow> EsTokenTransfer" where
  "ConvTokenTransfer L contractAddress txDoc idx from to tokenId amount amountFloat =
     \<lparr>Doc_Id = Doc_Id txDoc @ ''-'' @ show_int idx,
       EsTokenTransfer_TxId = GetID txDoc,
       EsTokenTransfer_Timestamp = EsTx_Timestamp txDoc,
       EsTokenTransfer_BlockNo = EsTx_BlockNo txDoc,
       EsTokenTransfer_TokenAddress = EncodeAndResolveAccount L contractAddress (EsTx_BlockNo txDoc),
       EsTokenTransfer_From = from, EsTokenTransfer_To = to,
       EsTokenTransfer_Sender = EsTx_Account txDoc,
       EsTokenTransfer_Amount = amount, EsTokenTransfer_AmountFloat = amountFloat,
       EsTokenTransfer_TokenId = tokenId\<rparr>"

definition ConvAccountTokens :: "TokenType \<Rightarrow> string \<Rightarrow> time \<Rightarrow> string \<Rightarrow> string \<Rightarrow> float32 \<Rightarrow> EsAccountTokens" where
  "ConvAccountTokens tokenType tokenAddress timestamp account balance balanceFloat =
     \<lparr>Doc_Id = account @ ''-'' @ tokenAddress,
       EsAccountTokens_Account = account, EsAccountTokens_TokenAddress = tokenAddress,
       EsAccountTokens_Type = tokenType, EsAccountTokens_Timestamp = timestamp,
       EsAccountTokens_Balance = balance, EsAccountTokens_BalanceFloat = balanceFloat\<rparr>"

definition ConvAccountBalance :: "uint64 \<Rightarrow> string \<Rightarrow> time \<Rightarrow> string \<Rightarrow> float32 \<Rightarrow> string \<Rightarrow> float32
    \<Rightarrow> EsAccountBalance" where
  "ConvAccountBalance blockNo address ts balance balanceFloat staking stakingFloat =
     \<lparr>Doc_Id = address, EsAccountBalance_BlockNo = blockNo, EsAccountBalance_Timestamp = ts,
       EsAccountBalance_Balance = balance, EsAccountBalance_BalanceFloat = balanceFloat,
       EsAccountBalance_Staking = staking, EsAccountBalance_StakingFloat = stakingFloat\<rparr>"

definition ConvChainInfo :: "ChainInfo \<Rightarrow> EsChainInfo outcome" where
  "ConvChainInfo chainInfo = obnd (deref (ChainInfo_Id chainInfo)) (\<lambda>chain.
     Ret \<lparr>Doc_Id = ChainId_Magic chain, EsChainInfo_Public = ChainId_Public chain,
       EsChainInfo_Mainnet = ChainId_Mainnet chain, EsChainInfo_Consensus = ChainId_Consensus chain,
       EsChainInfo_Version = scast (ChainId_Version chain)\<rparr>)"

definition ConvWhitelist :: "string \<Rightarrow> string \<Rightarrow> string \<Rightarrow> EsWhitelist" where
  "ConvWhitelist token contract whitelistType =
     \<lparr>Doc_Id = token, EsWhitelist_Contract = contract, EsWhitelist_Type = whitelistType\<rparr>"

section \<open>The precision of the sorting floats\<close>

lemma round_bits_relative:
  assumes "0 < num" and "0 < den" and "0 < p" and "round_bits p None num den = (m, e)"
  shows "\<bar>real m * 2 powi e - real num / real den\<bar> \<le> 2 powi (- int p) * (real num / real den)"
proof -
  let ?k = "log2_ratio num den"
  have "2 powi (?k - (int p - 1)) / 2 = (2 :: real) powi (- int p) * 2 powi ?k"
    by (simp add: power_int_diff power_int_add power_int_minus field_simps)
  also have "\<dots> \<le> 2 powi (- int p) * (real num / real den)"
    using log2_ratio_bounds(1)[OF assms(1,2)] by (intro mult_left_mono) auto
  finally show ?thesis
    using round_bits_error[OF assms(1-4), of "?k - (int p - 1)"] by (simp only: option.case) linarith
qed

lemma f32_relative:
  assumes "0 < num" and "0 < den" and "fst (f32_of_ratio False num den) = Fin32 s m e"
    and "2 powi (- 126) \<le> real num / real den"
  shows "\<bar>real m * 2 powi e - real num / real den\<bar> \<le> 2 powi (- 24) * (real num / real den)"
proof -
  have "f32_of_ratio False num den = (Fin32 s m e, False)"
    using assms(3) by (auto simp: f32_of_ratio_def split: prod.splits if_splits)
  from f32_of_ratio_error[OF assms(1,2) this]
  have "\<bar>real m * 2 powi e - real num / real den\<bar>
    \<le> max (2 powi (- 150)) (2 powi (- 24) * (real num / real den))" .
  moreover have "2 powi (- 150) \<le> 2 powi (- 24) * (real num / real den)"
  proof -
    have "2 powi (- 150) = 2 powi (- 24) * (2 powi (- 126) :: real)"
      by (simp flip: power_int_add)
    also have "\<dots> \<le> 2 powi (- 24) * (real num / real den)"
      using assms(4) by (rule mult_left_mono) simp
    finally show ?thesis .
  qed
  ultimately show ?thesis by simp
qed

lemma two_roundings:
  fixes f x z :: real
  assumes "0 \<le> x" and "\<bar>z - x\<bar> \<le> 1 / 2 ^ 64 * x"
  shows "x / 2 \<le> z \<and> (\<bar>f - z\<bar> \<le> 1 / 2 ^ 24 * z \<longrightarrow> \<bar>f - x\<bar> \<le> 1 / 2 ^ 23 * x)"
proof -
  have lin: "x / 2 \<le> z \<and> (d * 16777216 \<le> z \<longrightarrow> (d + c) * 8388608 \<le> x)"
    if "x - z \<le> c" "z - x \<le> c" "c * 18446744073709551616 \<le> x" "0 \<le> c" for c d :: real
    using that assms(1) by simp
  have tri: "\<bar>f - x\<bar> \<le> \<bar>f - z\<bar> + \<bar>z - x\<bar>" by simp
  have "\<bar>z - x\<bar> * 18446744073709551616 \<le> x" using assms(2) by simp
  moreover have "x - z \<le> \<bar>z - x\<bar>" "z - x \<le> \<bar>z - x\<bar>" by simp_all
  ultimately have l: "x / 2 \<le> z \<and> (\<bar>f - z\<bar> * 16777216 \<le> z \<longrightarrow> (\<bar>f - z\<bar> + \<bar>z - x\<bar>) * 8388608 \<le> x)"
    using lin abs_ge_zero by blast
  have "(\<bar>f - z\<bar> + \<bar>z - x\<bar>) * 8388608 \<le> x \<Longrightarrow> \<bar>f - x\<bar> * 8388608 \<le> x"
    by (rule order_trans[OF mult_right_mono[OF tri]]) simp_all
  with l show ?thesis by simp
qed

lemma bigIntToFloat_error:
  assumes "0 < a" and "bigIntToFloat a 18 = Fin32 s m e"
  shows "\<bar>real m * 2 powi e - real a / 10 ^ 18\<bar> \<le> 2 powi (- 23) * (real a / 10 ^ 18)"
proof -
  define p where "p = max (max 64 (bit_length a)) (max 64 (bit_length (10 ^ 18)))"
  let ?x = "real a / 10 ^ 18"
  obtain m1 e1 where rb: "round_bits p None a (10 ^ 18) = (m1, e1)" by fastforce
  define num den where "num = (if 0 \<le> e1 then m1 * 2 ^ nat e1 else m1)"
    and "den = (if 0 \<le> e1 then 1 else 2 ^ nat (- e1) :: nat)"
  have z: "real num / real den = real m1 * 2 powi e1"
  proof (cases "0 \<le> e1")
    case True
    then show ?thesis by (simp add: num_def den_def power_int_def)
  next
    case False
    then show ?thesis by (simp add: num_def den_def power_int_def inverse_eq_divide power_one_over)
  qed
  have f: "fst (f32_of_ratio False num den) = Fin32 s m e"
    using assms(2) rb by (auto simp: bigIntToFloat_def Let_def num_def den_def p_def split: if_splits)
  have p64: "64 \<le> p" by (simp add: p_def)
  have x: "1 / 10 ^ 18 \<le> ?x" using assms(1) by (simp add: divide_right_mono)
  have "\<bar>real m1 * 2 powi e1 - ?x\<bar> \<le> 2 powi (- int p) * ?x"
    using round_bits_relative[OF assms(1) _ _ rb] p64 by simp
  also have "\<dots> \<le> 2 powi (- 64) * ?x"
    using p64 by (intro mult_right_mono power_int_increasing) auto
  finally have e1: "\<bar>real num / real den - ?x\<bar> \<le> 2 powi (- 64) * ?x" unfolding z .
  have c: "(2 :: real) powi (- 64) = 1 / 2 ^ 64" "(2 :: real) powi (- 24) = 1 / 2 ^ 24"
    "(2 :: real) powi (- 23) = 1 / 2 ^ 23" "(2 :: real) powi (- 126) = 1 / 2 ^ 126"
    by (simp_all add: power_int_minus inverse_eq_divide)
  have "0 \<le> ?x" by simp
  then have two: "?x / 2 \<le> real num / real den \<and>
      (\<bar>real m * 2 powi e - real num / real den\<bar> \<le> 1 / 2 ^ 24 * (real num / real den) \<longrightarrow>
       \<bar>real m * 2 powi e - ?x\<bar> \<le> 1 / 2 ^ 23 * ?x)"
    by (rule two_roundings) (use e1 in \<open>simp only: c\<close>)
  then have lo: "?x / 2 \<le> real num / real den" ..
  have "0 < ?x / 2" using assms(1) by simp
  then have "0 < real num / real den" using lo by (rule less_le_trans)
  then have pos: "0 < num" by (auto simp: zero_less_divide_iff)
  have dpos: "0 < den" by (simp add: den_def)
  have big: "2 powi (- 126) \<le> real num / real den" using lo x unfolding c by simp
  show ?thesis using two f32_relative[OF pos dpos f big] unfolding c by blast
qed

section \<open>Ids\<close>

lemma show_int_inject [simp]: "show_int i = show_int j \<longleftrightarrow> i = j"
  by (metis big_SetString_show option.inject)

text \<open>The id of an event determines its position in the chain.\<close>

lemma ConvEvent_id: "Doc_Id (ConvEvent L e b t i) = Doc_Id (ConvEvent L' e' b' t' i') \<longleftrightarrow>
    EsBlock_BlockNo b = EsBlock_BlockNo b' \<and> EsTx_TxIdx t = EsTx_TxIdx t' \<and>
    Event_EventIdx e = Event_EventIdx e'"
  (is "?L \<longleftrightarrow> ?R")
proof
  assume ?L
  then have 1: "show_nat (unat (EsBlock_BlockNo b)) @ CHR ''-'' # show_nat (unat (EsTx_TxIdx t)) @ CHR ''-'' # show_int (sint (Event_EventIdx e))
      = show_nat (unat (EsBlock_BlockNo b')) @ CHR ''-'' # show_nat (unat (EsTx_TxIdx t')) @ CHR ''-'' # show_int (sint (Event_EventIdx e'))"
    by (simp add: ConvEvent_def)
  note 2 = append_sep_inject[OF dash_notin_show_nat dash_notin_show_nat 1]
  note 3 = append_sep_inject[OF dash_notin_show_nat dash_notin_show_nat conjunct2[OF 2]]
  from 2 3 show ?R by (auto intro: signed_word_eqI unsigned_word_eqI)
qed (simp add: ConvEvent_def)

lemma ConvTokenTransfer_id:
  assumes "CHR ''-'' \<notin> set (Doc_Id t)" and "CHR ''-'' \<notin> set (Doc_Id t')"
  shows "Doc_Id (ConvTokenTransfer L c t i f to n a x) = Doc_Id (ConvTokenTransfer L' c' t' i' f' to' n' a' x')
    \<longleftrightarrow> Doc_Id t = Doc_Id t' \<and> i = i'"
  using append_sep_inject[OF assms, of "show_int i" "show_int i'"]
  by (auto simp: ConvTokenTransfer_def)

section \<open>Panics\<close>

lemma ConvTx_nil: "Tx_Body tx = None \<Longrightarrow> ConvTx L i tx r b = Panic NilDeref"
  by (simp add: ConvTx_def GetBody_def)

lemma DetectTxCategory_Ret: "Tx_Body tx = Some b \<Longrightarrow> \<exists>c n. DetectTxCategory L tx = Ret (c, n)"
  by (cases rule: plain_category_cases[of tx b]) (auto simp: DetectTxCategory_body Let_def)

lemma ConvTx_Ret:
  assumes "Tx_Body tx = Some body"
  obtains d c n where "ConvTx L i tx r b = Ret d" "DetectTxCategory L tx = Ret (c, n)" "EsTx_Category d = c"
    "Doc_Id d = base58 L (Tx_Hash tx)" "EsTx_BlockNo d = EsBlock_BlockNo b" "EsTx_TxIdx d = i"
  using DetectTxCategory_Ret[OF assms, of L] that assms by (auto simp: ConvTx_def GetBody_def Let_def)

text \<open>When reading a name transaction panics: a payload that parses, with too few arguments.\<close>

lemma ConvName_panic_iff:
  assumes "Tx_Body tx = Some b"
  shows "(\<exists>p. ConvName L tx n = Panic p) \<longleftrightarrow>
    (\<exists>pl. UnmarshalPayloadWithArgs tx = Inr pl \<and>
      length (Payload_Args pl) < (if Payload_Name pl = ''v1updateName'' then 2 else 1))"
  using assms
  by (auto simp: ConvName_def ConvName_parse_def nth_arg_def Let_def split: sum.splits if_splits)

end
