(* ===== verification/Es_Mappings.thy ===== *)
theory Es_Mappings
  imports Documents
begin

text \<open>
  The index definitions that \<open>InitEsMappings\<close> installs (\<open>indexer/documents/documents.go\<close>), one per
  index for the cluster mode and for the single-node mode, and how the documents fit them.
\<close>

datatype es_type = Keyword | Text | Long | Short | Float | Boolean | Date | Disabled

record mapping =
  number_of_shards :: nat
  number_of_replicas :: nat
  max_result_window :: "nat option"
  properties :: "(string \<times> es_type) list"

text \<open>The list of the categories, each in quotes, as a text.\<close>

definition mapCategoriesToStr :: "TxCategory list \<Rightarrow> string list" where
  "mapCategoriesToStr cats = map (\<lambda>v. CHR 0x27 # v @ [CHR 0x27]) cats"

definition categories :: string where
  "categories = Join (mapCategoriesToStr TxCategories) '',''"

section \<open>Cluster\<close>

definition cluster_chain_info :: mapping where
  "cluster_chain_info = \<lparr>number_of_shards = 10, number_of_replicas = 1, max_result_window = Some 100000,
    properties =
      [(''id'', Keyword), (''public'', Boolean), (''mainnet'', Boolean),
       (''consensus'', Keyword), (''version'', Long)]\<rparr>"

definition cluster_block :: mapping where
  "cluster_block = \<lparr>number_of_shards = 100, number_of_replicas = 1, max_result_window = Some 100000,
    properties =
      [(''ts'', Date), (''no'', Long), (''previous_block'', Keyword), (''txs'', Long),
       (''size'', Long), (''coinbase'', Keyword), (''block_producer'', Keyword),
       (''reward_account'', Keyword), (''reward_amount'', Float)]\<rparr>"

definition cluster_tx :: mapping where
  "cluster_tx = \<lparr>number_of_shards = 50, number_of_replicas = 1, max_result_window = Some 100000,
    properties =
      [(''blockno'', Long), (''block_id'', Keyword), (''ts'', Date), (''tx_idx'', Long),
       (''payload'', Text), (''from'', Keyword), (''to'', Keyword), (''amount'', Disabled),
       (''amount_float'', Float), (''type'', Long), (''category'', Keyword),
       (''method'', Keyword), (''token_transfers'', Long), (''status'', Keyword),
       (''result'', Keyword), (''nonce'', Long), (''contract'', Keyword),
       (''fee_delegation'', Boolean), (''gas_price'', Keyword), (''gas_used'', Long),
       (''gas_limit'', Long), (''fee_used'', Keyword)]\<rparr>"

definition cluster_contract :: mapping where
  "cluster_contract = \<lparr>number_of_shards = 10, number_of_replicas = 1, max_result_window = Some 100000,
    properties =
      [(''tx_id'', Keyword), (''creator'', Keyword), (''blockno'', Long), (''ts'', Date),
       (''payload'', Text), (''verified_status'', Keyword), (''verified_token'', Keyword),
       (''code_url'', Keyword), (''code'', Text)]\<rparr>"

definition cluster_event :: mapping where
  "cluster_event = \<lparr>number_of_shards = 30, number_of_replicas = 1, max_result_window = Some 100000,
    properties =
      [(''contract'', Keyword), (''blockno'', Long), (''tx_id'', Keyword), (''tx_idx'', Long),
       (''event_idx'', Long), (''event_name'', Keyword), (''event_args'', Keyword)]\<rparr>"

definition cluster_name :: mapping where
  "cluster_name = \<lparr>number_of_shards = 2, number_of_replicas = 1, max_result_window = None,
    properties =
      [(''name'', Keyword), (''address'', Keyword), (''blockno'', Long), (''tx'', Keyword)]\<rparr>"

definition cluster_token :: mapping where
  "cluster_token = \<lparr>number_of_shards = 5, number_of_replicas = 1, max_result_window = Some 100000,
    properties =
      [(''tx_id'', Keyword), (''blockno'', Long), (''creator'', Keyword), (''type'', Keyword),
       (''name'', Keyword), (''name_lower'', Keyword), (''symbol'', Keyword),
       (''symbol_lower'', Keyword), (''decimals'', Short), (''supply'', Disabled),
       (''supply_float'', Float), (''verified_status'', Keyword), (''token_address'', Keyword),
       (''owner'', Keyword), (''comment'', Keyword), (''email'', Keyword),
       (''regdate'', Keyword), (''homepage_url'', Keyword), (''image_url'', Keyword),
       (''total_transfer'', Long)]\<rparr>"

definition cluster_token_transfer :: mapping where
  "cluster_token_transfer = \<lparr>number_of_shards = 30, number_of_replicas = 1, max_result_window = Some 100000,
    properties =
      [(''tx_id'', Keyword), (''blockno'', Long), (''ts'', Date), (''address'', Keyword),
       (''token_id'', Keyword), (''from'', Keyword), (''to'', Keyword), (''sender'', Keyword),
       (''amount'', Disabled), (''amount_float'', Float)]\<rparr>"

definition cluster_account_tokens :: mapping where
  "cluster_account_tokens = \<lparr>number_of_shards = 10, number_of_replicas = 1, max_result_window = Some 100000,
    properties =
      [(''account'', Keyword), (''address'', Keyword), (''type'', Keyword), (''ts'', Date),
       (''balance'', Disabled), (''balance_float'', Float)]\<rparr>"

definition cluster_nft :: mapping where
  "cluster_nft = \<lparr>number_of_shards = 30, number_of_replicas = 1, max_result_window = None,
    properties =
      [(''address'', Keyword), (''token_id'', Keyword), (''blockno'', Long), (''ts'', Date),
       (''account'', Keyword), (''token_uri'', Keyword), (''image_url'', Keyword)]\<rparr>"

definition cluster_account_balance :: mapping where
  "cluster_account_balance = \<lparr>number_of_shards = 10, number_of_replicas = 1, max_result_window = None,
    properties =
      [(''id'', Keyword), (''blockno'', Long), (''ts'', Date), (''balance'', Disabled),
       (''balance_float'', Float), (''staking'', Disabled), (''staking_float'', Float)]\<rparr>"

definition cluster_whitelist :: mapping where
  "cluster_whitelist = \<lparr>number_of_shards = 10, number_of_replicas = 1, max_result_window = None,
    properties =
      [(''contract'', Keyword), (''type'', Keyword)]\<rparr>"

section \<open>Single node\<close>

definition single_chain_info :: mapping where
  "single_chain_info = \<lparr>number_of_shards = 3, number_of_replicas = 1, max_result_window = Some 100000,
    properties =
      [(''id'', Keyword), (''public'', Boolean), (''mainnet'', Boolean),
       (''consensus'', Keyword), (''version'', Long)]\<rparr>"

definition single_block :: mapping where
  "single_block = \<lparr>number_of_shards = 20, number_of_replicas = 1, max_result_window = Some 100000,
    properties =
      [(''ts'', Date), (''no'', Long), (''previous_block'', Keyword), (''txs'', Long),
       (''size'', Long), (''coinbase'', Keyword), (''block_producer'', Keyword),
       (''reward_account'', Keyword), (''reward_amount'', Float)]\<rparr>"

definition single_tx :: mapping where
  "single_tx = \<lparr>number_of_shards = 10, number_of_replicas = 1, max_result_window = Some 100000,
    properties =
      [(''blockno'', Long), (''block_id'', Keyword), (''ts'', Date), (''tx_idx'', Long),
       (''payload'', Text), (''from'', Keyword), (''to'', Keyword), (''amount'', Disabled),
       (''amount_float'', Float), (''type'', Long), (''category'', Keyword),
       (''method'', Keyword), (''token_transfers'', Long), (''status'', Keyword),
       (''result'', Keyword), (''nonce'', Long), (''contract'', Keyword),
       (''fee_delegation'', Boolean), (''gas_price'', Keyword), (''gas_used'', Long),
       (''gas_limit'', Long), (''fee_used'', Keyword)]\<rparr>"

definition single_contract :: mapping where
  "single_contract = \<lparr>number_of_shards = 10, number_of_replicas = 1, max_result_window = Some 100000,
    properties =
      [(''tx_id'', Keyword), (''creator'', Keyword), (''blockno'', Long), (''ts'', Date),
       (''payload'', Text), (''verified_status'', Keyword), (''verified_token'', Keyword),
       (''code_url'', Keyword), (''code'', Text)]\<rparr>"

definition single_event :: mapping where
  "single_event = \<lparr>number_of_shards = 10, number_of_replicas = 1, max_result_window = Some 100000,
    properties =
      [(''contract'', Keyword), (''blockno'', Long), (''tx_id'', Keyword), (''tx_idx'', Long),
       (''event_idx'', Long), (''event_name'', Keyword), (''event_args'', Keyword)]\<rparr>"

definition single_name :: mapping where
  "single_name = \<lparr>number_of_shards = 1, number_of_replicas = 1, max_result_window = Some 100000,
    properties =
      [(''name'', Keyword), (''address'', Keyword), (''blockno'', Long), (''tx'', Keyword)]\<rparr>"

definition single_token :: mapping where
  "single_token = \<lparr>number_of_shards = 3, number_of_replicas = 1, max_result_window = Some 100000,
    properties =
      [(''tx_id'', Keyword), (''blockno'', Long), (''creator'', Keyword), (''type'', Keyword),
       (''name'', Keyword), (''name_lower'', Keyword), (''symbol'', Keyword),
       (''symbol_lower'', Keyword), (''decimals'', Short), (''supply'', Disabled),
       (''supply_float'', Float), (''verified_status'', Keyword), (''token_address'', Keyword),
       (''owner'', Keyword), (''comment'', Keyword), (''email'', Keyword),
       (''regdate'', Keyword), (''homepage_url'', Keyword), (''image_url'', Keyword),
       (''total_transfer'', Long)]\<rparr>"

definition single_token_transfer :: mapping where
  "single_token_transfer = \<lparr>number_of_shards = 3, number_of_replicas = 1, max_result_window = Some 100000,
    properties =
      [(''tx_id'', Keyword), (''blockno'', Long), (''ts'', Date), (''address'', Keyword),
       (''token_id'', Keyword), (''from'', Keyword), (''to'', Keyword), (''sender'', Keyword),
       (''amount'', Disabled), (''amount_float'', Float)]\<rparr>"

definition single_account_tokens :: mapping where
  "single_account_tokens = \<lparr>number_of_shards = 3, number_of_replicas = 1, max_result_window = None,
    properties =
      [(''account'', Keyword), (''address'', Keyword), (''type'', Keyword), (''ts'', Date),
       (''balance'', Disabled), (''balance_float'', Float)]\<rparr>"

definition single_account_balance :: mapping where
  "single_account_balance = \<lparr>number_of_shards = 3, number_of_replicas = 1, max_result_window = Some 100000,
    properties =
      [(''id'', Keyword), (''blockno'', Long), (''ts'', Date), (''balance'', Disabled),
       (''balance_float'', Float), (''staking'', Disabled), (''staking_float'', Float)]\<rparr>"

definition single_nft :: mapping where
  "single_nft = \<lparr>number_of_shards = 3, number_of_replicas = 1, max_result_window = Some 100000,
    properties =
      [(''address'', Keyword), (''token_id'', Keyword), (''blockno'', Long), (''ts'', Date),
       (''account'', Keyword), (''token_uri'', Keyword), (''image_url'', Keyword)]\<rparr>"

definition single_whitelist :: mapping where
  "single_whitelist = \<lparr>number_of_shards = 10, number_of_replicas = 1, max_result_window = None,
    properties =
      [(''contract'', Keyword), (''type'', Keyword)]\<rparr>"

section \<open>The table\<close>

definition InitEsMappings :: "bool \<Rightarrow> (string \<times> mapping) list" where
  "InitEsMappings clusterMode =
    (if clusterMode then
      [(''chain_info'', cluster_chain_info),
       (''block'', cluster_block),
       (''tx'', cluster_tx),
       (''contract'', cluster_contract),
       (''event'', cluster_event),
       (''name'', cluster_name),
       (''token'', cluster_token),
       (''token_transfer'', cluster_token_transfer),
       (''account_tokens'', cluster_account_tokens),
       (''nft'', cluster_nft),
       (''account_balance'', cluster_account_balance),
       (''whitelist'', cluster_whitelist)]
     else
      [(''chain_info'', single_chain_info),
       (''block'', single_block),
       (''tx'', single_tx),
       (''contract'', single_contract),
       (''event'', single_event),
       (''name'', single_name),
       (''token'', single_token),
       (''token_transfer'', single_token_transfer),
       (''account_tokens'', single_account_tokens),
       (''account_balance'', single_account_balance),
       (''nft'', single_nft),
       (''whitelist'', single_whitelist)])"

lemmas cluster_defs = cluster_chain_info_def cluster_block_def cluster_tx_def cluster_contract_def cluster_event_def cluster_name_def cluster_token_def cluster_token_transfer_def cluster_account_tokens_def cluster_nft_def cluster_account_balance_def cluster_whitelist_def
lemmas single_defs = single_chain_info_def single_block_def single_tx_def single_contract_def single_event_def single_name_def single_token_def single_token_transfer_def single_account_tokens_def single_account_balance_def single_nft_def single_whitelist_def

text \<open>\<open>EsMappings[documentType]\<close>: no body for an unknown type.\<close>

definition EsMappings :: "bool \<Rightarrow> string \<Rightarrow> mapping option" where
  "EsMappings clusterMode documentType = map_of (InitEsMappings clusterMode) documentType"

section \<open>Documents against mappings\<close>

text \<open>Which JSON values an Elasticsearch field type takes without coercing them.\<close>

fun takes :: "es_type \<Rightarrow> jtype \<Rightarrow> bool" where
  "takes Keyword JString = True"
| "takes Text JString = True"
| "takes Disabled t = True"
| "takes Long (JUint w) = True"
| "takes Short (JUint w) = (w \<le> 8)"
| "takes Float JFloat = True"
| "takes Boolean JBoolean = True"
| "takes Date JTime = True"
| "takes _ _ = False"

text \<open>The fields of a document that its index does not know or would have to coerce.\<close>

definition mismatches :: "(string \<times> jtype) list \<Rightarrow> mapping \<Rightarrow> string list" where
  "mismatches fs m = map fst (filter (\<lambda>(k, t). case map_of (properties m) k of
     None \<Rightarrow> True | Some e \<Rightarrow> \<not> takes e t) fs)"

text \<open>The documents of each index: the full one and its partial updates.\<close>

definition index_documents :: "(string \<times> (string \<times> jtype) list) list" where
  "index_documents =
    [(''chain_info'', EsChainInfo_fields), (''block'', EsBlock_fields), (''tx'', EsTx_fields),
     (''contract'', EsContract_fields), (''contract'', EsContractUp_fields),
     (''event'', EsEvent_fields), (''name'', EsName_fields), (''token'', EsToken_fields),
     (''token'', EsTokenUpSupply_fields), (''token'', EsTokenUpVerified_fields),
     (''token_transfer'', EsTokenTransfer_fields), (''account_tokens'', EsAccountTokens_fields),
     (''account_tokens'', EsAccountTokensUp_fields), (''account_balance'', EsAccountBalance_fields),
     (''nft'', EsNFT_fields), (''nft'', EsNFTUp_fields), (''whitelist'', EsWhitelist_fields)]"

lemmas EsFields_defs = EsChainInfo_fields_def EsBlock_fields_def EsTx_fields_def EsContract_fields_def
  EsContractUp_fields_def EsEvent_fields_def EsName_fields_def EsToken_fields_def
  EsTokenUpSupply_fields_def EsTokenUpVerified_fields_def EsTokenTransfer_fields_def
  EsAccountTokens_fields_def EsAccountTokensUp_fields_def EsAccountBalance_fields_def
  EsNFT_fields_def EsNFTUp_fields_def EsWhitelist_fields_def

text \<open>A partial update writes only fields of the full document, at the same type.\<close>

definition partial_of :: "(string \<times> jtype) list \<Rightarrow> (string \<times> jtype) list \<Rightarrow> bool" where
  "partial_of up full \<longleftrightarrow> list_all (\<lambda>(k, t). map_of full k = Some t) up"

lemma mapping_documents:
  "list_all (\<lambda>(d, fs). case EsMappings c d of None \<Rightarrow> False
     | Some m \<Rightarrow> mismatches fs m = (if d = ''block'' then [''reward_amount''] else [])) index_documents"
  by (cases c) (simp_all add: index_documents_def EsMappings_def InitEsMappings_def mismatches_def
      EsFields_defs cluster_defs single_defs)

lemma modes_agree: "map_option properties (EsMappings True d) = map_option properties (EsMappings False d)"
  by (simp add: EsMappings_def InitEsMappings_def cluster_defs single_defs)

lemma partial_updates:
  "partial_of EsTokenUpSupply_fields EsToken_fields" "partial_of EsTokenUpVerified_fields EsToken_fields"
  "partial_of EsContractUp_fields EsContract_fields" "partial_of EsNFTUp_fields EsNFT_fields"
  "partial_of EsAccountTokensUp_fields EsAccountTokens_fields"
  by (simp_all add: partial_of_def EsFields_defs)

end
