(* ===== verification/Db.thy ===== *)
theory Db
  imports Conv Es_Mappings
begin

text \<open>
  The outside world (the Aergo node, Elasticsearch, HTTP, the clock) and the database
  controller (\<open>indexer/db/db.go\<close>, \<open>indexer/db/elasticsearch.go\<close>). The clients of the node and of
  Elasticsearch are packages outside src/: each call is a field of the record \<open>env\<close>, a function
  of the request and of an abstract world that returns the answer and the next world. Nothing is
  known of them but what a lemma states as a hypothesis.
\<close>

section \<open>Requests\<close>

datatype es_query = NoQuery | RangeQuery string "int option" "int option" | MatchQuery string string

type_synonym hit = "string \<times> source"        \<comment> \<open>id and \<open>_source\<close>\<close>

record es_sort =
  sort_field :: string
  sort_asc :: bool
  sort_from :: int

record scroll_request =
  scroll_index :: string
  scroll_query :: "es_query"
  scroll_size :: int
  scroll_sort :: string
  scroll_asc :: bool
  scroll_include :: "string list"

datatype bulk_op = BulkCreate string doc       \<comment> \<open>id and document\<close>

datatype alias_op = AliasRemove string string | AliasAdd string string

record 'e env = conv_lib +
  rpc_GetChainInfo :: "'e \<Rightarrow> (go_error + ChainInfo) \<times> 'e"
  rpc_Blockchain :: "'e \<Rightarrow> (go_error + uint64) \<times> 'e"            \<comment> \<open>\<open>BestHeight\<close>\<close>
  rpc_GetBlock :: "string \<Rightarrow> 'e \<Rightarrow> (go_error + Block) \<times> 'e"
  rpc_GetReceipt :: "slice \<Rightarrow> 'e \<Rightarrow> (go_error + Receipt) \<times> 'e"
  rpc_GetState :: "slice \<Rightarrow> 'e \<Rightarrow> (go_error + slice) \<times> 'e"       \<comment> \<open>\<open>Balance\<close>\<close>
  rpc_GetStaking :: "slice \<Rightarrow> 'e \<Rightarrow> (go_error + slice) \<times> 'e"     \<comment> \<open>\<open>Amount\<close>\<close>
  rpc_QueryContract :: "slice \<Rightarrow> string \<Rightarrow> 'e \<Rightarrow> (go_error + slice) \<times> 'e"
  rpc_ListBlockStream :: "'e \<Rightarrow> (go_error + nat option) \<times> 'e"  \<comment> \<open>a stream, or nil\<close>
  stream_Recv :: "nat \<Rightarrow> 'e \<Rightarrow> (go_error + Block) \<times> 'e"
  stream_CloseSend :: "nat \<Rightarrow> 'e \<Rightarrow> 'e"
  rpc_Dial :: "string \<Rightarrow> 'e \<Rightarrow> bool \<times> 'e"
  es_Exists :: "string \<Rightarrow> string \<Rightarrow> 'e \<Rightarrow> bool \<times> 'e"
  es_Update :: "string \<Rightarrow> string \<Rightarrow> source \<Rightarrow> 'e \<Rightarrow> go_error option \<times> 'e"
  es_Index :: "string \<Rightarrow> string \<Rightarrow> source \<Rightarrow> 'e \<Rightarrow> go_error option \<times> 'e"
  es_DeleteByQuery :: "string \<Rightarrow> es_query \<Rightarrow> 'e \<Rightarrow> (go_error + int) \<times> 'e"
  es_Count :: "string \<Rightarrow> es_query \<Rightarrow> 'e \<Rightarrow> (go_error + int) \<times> 'e"
  es_Search :: "string \<Rightarrow> es_query \<Rightarrow> es_sort option \<Rightarrow> int \<Rightarrow> 'e \<Rightarrow> (go_error + int \<times> hit list) \<times> 'e"
  es_Scroll :: "scroll_request \<Rightarrow> string option \<Rightarrow> 'e \<Rightarrow> (go_error + string \<times> hit list) \<times> 'e"
  es_Bulk :: "string \<Rightarrow> bulk_op list \<Rightarrow> 'e \<Rightarrow> go_error option \<times> bulk_op list \<times> 'e"
    \<comment> \<open>with the requests the service still holds afterwards\<close>
  es_IndicesByAlias :: "string \<Rightarrow> 'e \<Rightarrow> (go_error + string list) \<times> 'e"
    \<comment> \<open>\<open>Aliases().Index("_all").Do\<close> and \<open>IndicesByAlias\<close> of its result\<close>
  es_Alias :: "alias_op list \<Rightarrow> 'e \<Rightarrow> go_error option \<times> 'e"
  es_CreateIndex :: "string \<Rightarrow> mapping option \<Rightarrow> 'e \<Rightarrow> (go_error + bool) \<times> 'e"  \<comment> \<open>\<open>Acknowledged\<close>\<close>
  es_DeleteIndex :: "string \<Rightarrow> 'e \<Rightarrow> 'e"
  es_ClusterHealth :: "'e \<Rightarrow> go_error option \<times> 'e"
  es_NewClient :: "string \<Rightarrow> 'e \<Rightarrow> go_error option \<times> 'e"
  http_Get :: "string \<Rightarrow> 'e \<Rightarrow> (go_error + string) \<times> 'e"
  clock_Now :: "'e \<Rightarrow> time \<times> 'e"
  clock_Sleep :: "int \<Rightarrow> 'e \<Rightarrow> 'e"

section \<open>Query parameters\<close>

record IntegerRangeQuery =
  Range_Field :: string
  Range_Min :: uint64
  Range_Max :: uint64

record StringMatchQuery =
  Match_Field :: string
  Match_Value :: string

record QueryParams =
  IndexName :: string
  TypeName :: string
  From :: int64
  To :: int64
  Query_Size :: int64
  SortField :: string
  SortAsc :: bool
  SelectFields :: "string list"
  IntegerRange :: "IntegerRangeQuery option"
  StringMatch :: "StringMatchQuery option"

definition zeroQueryParams :: QueryParams where
  "zeroQueryParams = \<lparr>IndexName = [], TypeName = [], From = 0, To = 0, Query_Size = 0, SortField = [],
     SortAsc = False, SelectFields = [], IntegerRange = None, StringMatch = None\<rparr>"

definition range_query :: "IntegerRangeQuery \<Rightarrow> es_query" where
  "range_query r = RangeQuery (Range_Field r) (Some (int (unat (Range_Min r)))) (Some (int (unat (Range_Max r))))"

definition match_query :: "StringMatchQuery \<Rightarrow> es_query" where
  "match_query q = MatchQuery (Match_Field q) (Match_Value q)"

section \<open>The controller\<close>

definition NewElasticClient :: "'e env \<Rightarrow> string \<Rightarrow> 'e \<Rightarrow> go_error option \<times> 'e" where
  "NewElasticClient E esURL w =
     es_NewClient E (if \<not> HasPrefix esURL ''http'' then ''http://'' @ esURL else esURL) w"

definition NewElasticsearchDbController :: "'e env \<Rightarrow> string \<Rightarrow> 'e \<Rightarrow> go_error option \<times> 'e" where
  "NewElasticsearchDbController E esURL w = NewElasticClient E esURL w"

definition HealthCheck :: "'e env \<Rightarrow> 'e \<Rightarrow> bool \<times> 'e" where
  "HealthCheck E w = (case es_ClusterHealth E w of (err, w') \<Rightarrow> (err = None, w'))"

definition Exists :: "'e env \<Rightarrow> string \<Rightarrow> string \<Rightarrow> 'e \<Rightarrow> bool \<times> 'e" where
  "Exists E indexName docid w = es_Exists E indexName docid w"

text \<open>A version conflict counts as a success.\<close>

definition Update :: "'e env \<Rightarrow> doc \<Rightarrow> string \<Rightarrow> string \<Rightarrow> 'e \<Rightarrow> go_error option \<times> 'e" where
  "Update E document indexName docid w =
     (case es_Update E indexName docid (doc_source document) w of
        (Some (ElasticError status), w') \<Rightarrow>
          if status = 409 then (None, w') else (Some (ElasticError status), w')
      | (err, w') \<Rightarrow> (err, w'))"

definition Insert :: "'e env \<Rightarrow> doc \<Rightarrow> string \<Rightarrow> 'e \<Rightarrow> go_error option \<times> 'e" where
  "Insert E document indexName w = es_Index E indexName (doc_GetID document) (doc_source document) w"

text \<open>The range wins over the match in \<open>Delete\<close> and \<open>Count\<close>, the match over the range in \<open>SelectOne\<close>.\<close>

definition params_query :: "QueryParams \<Rightarrow> es_query" where
  "params_query params = (case IntegerRange params of
     Some r \<Rightarrow> range_query r
   | None \<Rightarrow> (case StringMatch params of Some q \<Rightarrow> match_query q | None \<Rightarrow> NoQuery))"

definition Delete :: "'e env \<Rightarrow> QueryParams \<Rightarrow> 'e \<Rightarrow> (go_error + uint64) \<times> 'e" where
  "Delete E params w = (case es_DeleteByQuery E (IndexName params) (params_query params) w of
     (Inl e, w') \<Rightarrow> (Inl e, w')
   | (Inr deleted, w') \<Rightarrow> (Inr (of_int deleted), w'))"

definition Count :: "'e env \<Rightarrow> QueryParams \<Rightarrow> 'e \<Rightarrow> (go_error + int) \<times> 'e" where
  "Count E params w = es_Count E (IndexName params) (params_query params) w"

text \<open>\<open>createDocument\<close> with the unmarshalling into what it creates: a decoder of sources. The result is an
  error, nothing (both nil), or a document carrying the id of the hit.\<close>

definition SelectOne :: "'e env \<Rightarrow> QueryParams \<Rightarrow> (source \<Rightarrow> 'd BaseEsType_scheme option) \<Rightarrow> 'e
    \<Rightarrow> (go_error + 'd BaseEsType_scheme option) \<times> 'e" where
  "SelectOne E params decode w =
     (let q0 = (case IntegerRange params of Some r \<Rightarrow> range_query r | None \<Rightarrow> NoQuery);
          q = (case StringMatch params of Some m \<Rightarrow> match_query m | None \<Rightarrow> q0);
          srt = (if SortField params \<noteq> [] then
            Some \<lparr>sort_field = SortField params, sort_asc = SortAsc params, sort_from = sint (From params)\<rparr>
            else None)
      in case es_Search E (IndexName params) q srt 1 w of
        (Inl err, w') \<Rightarrow> (Inl err, w')
      | (Inr (totalHits, hits), w') \<Rightarrow>
          (if totalHits = 0 then (Inr None, w')
           else case hits of [] \<Rightarrow> (Inr None, w')
             | (hit_id, src) # _ \<Rightarrow> (case decode src of
                 None \<Rightarrow> (Inl json_err, w')
               | Some document \<Rightarrow> (Inr (Some (SetID hit_id document)), w'))))"

primrec DeleteIndices :: "'e env \<Rightarrow> string list \<Rightarrow> 'e \<Rightarrow> 'e" where
  "DeleteIndices E [] w = w"
| "DeleteIndices E (i # is) w = DeleteIndices E is (es_DeleteIndex E i w)"

definition UpdateAlias :: "'e env \<Rightarrow> string \<Rightarrow> string \<Rightarrow> 'e \<Rightarrow> go_error option \<times> 'e" where
  "UpdateAlias E aliasName indexName w = (case es_IndicesByAlias E aliasName w of
     (Inl err, w1) \<Rightarrow> (Some err, w1)
   | (Inr indices, w1) \<Rightarrow>
      (let (err, w2) = es_Alias E (map (\<lambda>i. AliasRemove i aliasName) indices @ [AliasAdd indexName aliasName]) w1
       in (err, DeleteIndices E indices w2)))"

definition GetExistingIndexPrefix :: "'e env \<Rightarrow> string \<Rightarrow> string \<Rightarrow> 'e \<Rightarrow> (go_error + bool \<times> string) \<times> 'e" where
  "GetExistingIndexPrefix E aliasName documentType w = (case es_IndicesByAlias E aliasName w of
     (Inl err, w1) \<Rightarrow> (Inl err, w1)
   | (Inr (i # _), w1) \<Rightarrow> (Inr (True, TrimSuffix i documentType), w1)
   | (Inr [], w1) \<Rightarrow> (Inr (False, []), w1))"

definition CreateIndex :: "'e env \<Rightarrow> bool \<Rightarrow> string \<Rightarrow> string \<Rightarrow> 'e \<Rightarrow> go_error option \<times> 'e" where
  "CreateIndex E clusterMode indexName documentType w =
     (case es_CreateIndex E indexName (EsMappings clusterMode documentType) w of
        (Inl err, w') \<Rightarrow> (Some err, w')
      | (Inr acknowledged, w') \<Rightarrow>
          (if \<not> acknowledged then Some (Err ''CreateIndex not acknowledged'') else None, w'))"

section \<open>Scrolling\<close>

record EsScrollInstance =
  scrollService :: "scroll_request \<times> string option"    \<comment> \<open>the request and the scroll id so far\<close>
  scroll_result :: "hit list option"
  scroll_current :: nat
  scroll_currentLength :: nat

definition scroll_range :: "QueryParams \<Rightarrow> es_query" where
  "scroll_range params = RangeQuery (SortField params)
     (if From params \<noteq> 0 then Some (sint (From params)) else None)
     (if To params \<noteq> 0 then Some (sint (To params)) else None)"

definition Scroll :: "QueryParams \<Rightarrow> EsScrollInstance" where
  "Scroll params =
     (let q0 = (if SortField params \<noteq> [] then scroll_range params else NoQuery);
          q = (case StringMatch params of Some m \<Rightarrow> match_query m | None \<Rightarrow> q0)
      in \<lparr>scrollService = (\<lparr>scroll_index = IndexName params, scroll_query = q,
            scroll_size = sint (Query_Size params), scroll_sort = SortField params,
            scroll_asc = SortAsc params, scroll_include = SelectFields params\<rparr>, None),
          scroll_result = None, scroll_current = 0, scroll_currentLength = 0\<rparr>)"

text \<open>Loading the next page, when there is none or it is used up.\<close>

definition scroll_load :: "'e env \<Rightarrow> EsScrollInstance \<Rightarrow> 'e \<Rightarrow> (go_error + EsScrollInstance) \<times> EsScrollInstance \<times> 'e" where
  "scroll_load E s w =
     (if scroll_result s = None \<or> scroll_current s \<ge> scroll_currentLength s then
        (case es_Scroll E (fst (scrollService s)) (snd (scrollService s)) w of
           (Inl err, w') \<Rightarrow> (Inl err, s, w')
         | (Inr (sid, hits), w') \<Rightarrow>
             (let s' = s\<lparr>scrollService := (fst (scrollService s), Some sid), scroll_result := Some hits,
                scroll_current := 0, scroll_currentLength := length hits\<rparr> in (Inr s', s', w')))
      else (Inr s, s, w))"

definition Next :: "'e env \<Rightarrow> (source \<Rightarrow> 'd BaseEsType_scheme option) \<Rightarrow> EsScrollInstance \<Rightarrow> 'e
    \<Rightarrow> (go_error + 'd BaseEsType_scheme) \<times> EsScrollInstance \<times> 'e" where
  "Next E decode s w = (case scroll_load E s w of
     (Inl err, s1, w1) \<Rightarrow> (Inl err, s1, w1)
   | (Inr _, s1, w1) \<Rightarrow>
      (if scroll_current s1 < scroll_currentLength s1 then
         (let (hit_id, src) = the (scroll_result s1) ! scroll_current s1;
              s2 = s1\<lparr>scroll_current := scroll_current s1 + 1\<rparr>
          in case decode src of None \<Rightarrow> (Inl json_err, s2, w1)
             | Some d \<Rightarrow> (Inr (SetID hit_id d), s2, w1))
       else (Inl EOF, s1, w1)))"

section \<open>Bulk requests\<close>

record EsBulkInstance =
  bulk_index :: string
  bulk_requests :: "bulk_op list"

definition InsertBulk :: "string \<Rightarrow> EsBulkInstance" where
  "InsertBulk indexName = \<lparr>bulk_index = indexName, bulk_requests = []\<rparr>"

definition Add :: "doc \<Rightarrow> EsBulkInstance \<Rightarrow> EsBulkInstance" where
  "Add document bulk = bulk\<lparr>bulk_requests := bulk_requests bulk @ [BulkCreate (doc_GetID document) document]\<rparr>"

definition Commit :: "'e env \<Rightarrow> EsBulkInstance \<Rightarrow> 'e \<Rightarrow> go_error option \<times> EsBulkInstance \<times> 'e" where
  "Commit E bulk w = (case es_Bulk E (bulk_index bulk) (bulk_requests bulk) w of
     (err, rest, w') \<Rightarrow> (err, bulk\<lparr>bulk_requests := rest\<rparr>, w'))"

section \<open>What a scroll delivers\<close>

text \<open>
  The interface of a scroll for its clients: a client calls \<open>Next\<close> until \<open>io.EOF\<close>, and goes on
  after any other error, having done something to the world (\<open>retry\<close>). \<open>delivers s w ds w'\<close>: these calls
  deliver the documents \<open>ds\<close> in this order and end in the world \<open>w'\<close>.
\<close>

inductive delivers :: "('s \<Rightarrow> 'w \<Rightarrow> (go_error + 'd) \<times> 's \<times> 'w) \<Rightarrow> ('w \<Rightarrow> 'w) \<Rightarrow> 's \<Rightarrow> 'w \<Rightarrow> 'd list \<Rightarrow> 's \<Rightarrow> 'w \<Rightarrow> bool"
  for nxt retry where
  eof: "nxt s w = (Inl EOF, s', w') \<Longrightarrow> delivers nxt retry s w [] s' w'"
| doc: "nxt s w = (Inr d, s1, w1) \<Longrightarrow> delivers nxt retry s1 w1 ds s' w' \<Longrightarrow> delivers nxt retry s w (d # ds) s' w'"
| err: "nxt s w = (Inl e, s1, w1) \<Longrightarrow> e \<noteq> EOF \<Longrightarrow> delivers nxt retry s1 (retry w1) ds s' w'
    \<Longrightarrow> delivers nxt retry s w ds s' w'"

text \<open>The same without errors.\<close>

inductive yields :: "('s \<Rightarrow> 'w \<Rightarrow> (go_error + 'd) \<times> 's \<times> 'w) \<Rightarrow> 's \<Rightarrow> 'w \<Rightarrow> 'd list \<Rightarrow> 's \<Rightarrow> 'w \<Rightarrow> bool"
  for nxt where
  eof: "nxt s w = (Inl EOF, s', w') \<Longrightarrow> yields nxt s w [] s' w'"
| doc: "nxt s w = (Inr d, s1, w1) \<Longrightarrow> yields nxt s1 w1 ds s' w' \<Longrightarrow> yields nxt s w (d # ds) s' w'"

lemma yields_delivers: "yields nxt s w ds s' w' \<Longrightarrow> delivers nxt retry s w ds s' w'"
  by (induction rule: yields.induct) (auto intro: delivers.intros)

lemma yields_start:
  "yields nxt s w ds s' w' \<Longrightarrow> nxt t v = nxt s w \<Longrightarrow> yields nxt t v ds s' w'"
  by (erule yields.cases) (auto intro: yields.intros)

text \<open>The documented behaviour of the scroll service: pages of hits, then \<open>io.EOF\<close>.\<close>

inductive scroll_pages :: "'e env \<Rightarrow> scroll_request \<Rightarrow> string option \<Rightarrow> 'e \<Rightarrow> hit list list \<Rightarrow> 'e \<Rightarrow> bool"
  for E req where
  last: "es_Scroll E req sid w = (Inl EOF, w') \<Longrightarrow> scroll_pages E req sid w [] w'"
| page: "es_Scroll E req sid w = (Inr (sid', hits), w1) \<Longrightarrow> hits \<noteq> [] \<Longrightarrow>
    scroll_pages E req (Some sid') w1 ps w' \<Longrightarrow> scroll_pages E req sid w (hits # ps) w'"

definition decode_hit :: "(source \<Rightarrow> 'd BaseEsType_scheme option) \<Rightarrow> hit \<Rightarrow> 'd BaseEsType_scheme option" where
  "decode_hit decode h = map_option (SetID (fst h)) (decode (snd h))"

text \<open>The rest of the current page is delivered from the buffer, then the following pages.\<close>

lemma yields_buffer:
  assumes "scroll_result s = Some hits" and "scroll_currentLength s = length hits"
    and "scroll_current s \<le> length hits"
    and "map (decode_hit decode) (drop (scroll_current s) hits) = map Some ds"
    and "\<And>s1. scrollService s1 = scrollService s \<Longrightarrow> scroll_current s1 \<ge> scroll_currentLength s1 \<Longrightarrow>
      \<exists>s'. yields (Next E decode) s1 w es s' w'"
  shows "\<exists>s'. yields (Next E decode) s w (ds @ es) s' w'"
  using assms
proof (induction ds arbitrary: s)
  case Nil
  then have "scroll_current s \<ge> scroll_currentLength s" by simp
  with Nil show ?case by simp
next
  case (Cons d ds)
  let ?c = "scroll_current s"
  have lt: "?c < length hits" using Cons.prems(4) by (cases "?c < length hits") auto
  then have dr: "drop ?c hits = hits ! ?c # drop (Suc ?c) hits" by (simp add: Cons_nth_drop_Suc)
  obtain i src where h: "hits ! ?c = (i, src)" by fastforce
  from Cons.prems(4) obtain d0 where d0: "decode src = Some d0" "d = SetID i d0"
    by (auto simp: dr h decode_hit_def)
  let ?s = "s\<lparr>scroll_current := ?c + 1\<rparr>"
  have n: "Next E decode s w = (Inr d, ?s, w)"
    using Cons.prems(1,2) lt h d0 by (simp add: Next_def scroll_load_def)
  have "\<exists>s'. yields (Next E decode) ?s w (ds @ es) s' w'"
    by (rule Cons.IH) (use Cons.prems lt dr in \<open>auto simp: h\<close>)
  then show ?case using yields.doc[of "Next E decode", OF n] by (metis append_Cons)
qed

lemma scroll_pages_yielded:
  assumes "scroll_pages E req sid w ps w'" and "scrollService s = (req, sid)"
    and "scroll_result s = None \<or> scroll_current s \<ge> scroll_currentLength s"
    and "map (decode_hit decode) (concat ps) = map Some ds"
  shows "\<exists>s'. yields (Next E decode) s w ds s' w'"
  using assms
proof (induction arbitrary: s ds rule: scroll_pages.induct)
  case (last sid w w')
  then have "Next E decode s w = (Inl EOF, s, w')" by (auto simp: Next_def scroll_load_def)
  then show ?case using last.prems(3) by (auto intro: yields.eof)
next
  case (page sid w sid' hits w1 ps w')
  let ?s1 = "s\<lparr>scrollService := (req, Some sid'), scroll_result := Some hits,
      scroll_current := 0, scroll_currentLength := length hits\<rparr>"
  define n where "n = length hits"
  define ds1 where "ds1 = take n ds"
  define ds2 where "ds2 = drop n ds"
  have len: "map (decode_hit decode) hits @ map (decode_hit decode) (concat ps) = map Some ds"
    using page.prems(3) by simp
  have ds1: "map (decode_hit decode) hits = map Some ds1"
    using arg_cong[OF len, of "take n"] by (simp add: ds1_def n_def take_map)
  have ds2: "map (decode_hit decode) (concat ps) = map Some ds2"
    using arg_cong[OF len, of "drop n"] by (simp add: ds2_def n_def drop_map)
  have ds: "ds = ds1 @ ds2" by (simp add: ds1_def ds2_def)
  have "\<exists>s'. yields (Next E decode) ?s1 w1 (ds1 @ ds2) s' w'"
    by (rule yields_buffer[where hits = hits]) (use page.IH ds2 ds1 in auto)
  moreover have "Next E decode s w = Next E decode ?s1 w1"
    using page.hyps(1,2) page.prems(1,2) by (auto simp: Next_def scroll_load_def Let_def)
  ultimately show ?case unfolding ds by (metis yields_start)
qed

lemma scroll_pages_delivered:
  assumes "scroll_pages E req sid w ps w'" and "scrollService s = (req, sid)"
    and "scroll_result s = None \<or> scroll_current s \<ge> scroll_currentLength s"
    and "map (decode_hit decode) (concat ps) = map Some ds"
  shows "\<exists>s'. delivers (Next E decode) retry s w ds s' w'"
proof -
  obtain s' where "yields (Next E decode) s w ds s' w'" using scroll_pages_yielded[OF assms] by (rule exE)
  then show ?thesis by (intro exI) (rule yields_delivers)
qed

section \<open>Elasticsearch as a store of documents\<close>

text \<open>A partial update writes its members over those of the stored source.\<close>

definition merge_source :: "source option \<Rightarrow> source \<Rightarrow> source" where
  "merge_source old new = (case old of None \<Rightarrow> new
     | Some s \<Rightarrow> new @ filter (\<lambda>(k, v). k \<notin> fst ` set new) s)"

lemma map_of_merge_source: "map_of (merge_source old new) k =
    (case map_of new k of Some v \<Rightarrow> Some v | None \<Rightarrow> (case old of None \<Rightarrow> None | Some s \<Rightarrow> map_of s k))"
proof -
  have "map_of (filter (\<lambda>(k, v). k \<notin> A) s) k = (if k \<in> A then None else map_of s k)" for A and s :: source
    by (induction s) auto
  then show ?thesis
    by (cases "map_of new k") (auto simp: merge_source_def map_add_def map_of_eq_None_iff
        split: option.splits dest!: map_of_SomeD, force)
qed

lemma merge_source_same_fields:
  "map fst old = map fst new \<Longrightarrow> merge_source (Some old) new = new"
  by (auto simp: merge_source_def filter_empty_conv) (metis fst_conv image_eqI list.set_map)

text \<open>
  What the indexer relies on: a write that succeeds is what a later read by id returns, one that fails may
  or may not have been applied, and no write touches another document. Reads by id are searches on \<open>_id\<close>.
\<close>

locale document_store =
  fixes view :: "'w \<Rightarrow> string \<Rightarrow> string \<Rightarrow> source option"
    and insert :: "string \<Rightarrow> string \<Rightarrow> source \<Rightarrow> 'w \<Rightarrow> go_error option \<times> 'w"
    and update :: "string \<Rightarrow> string \<Rightarrow> source \<Rightarrow> 'w \<Rightarrow> go_error option \<times> 'w"
    and search :: "string \<Rightarrow> string \<Rightarrow> 'w \<Rightarrow> (go_error + int \<times> hit list) \<times> 'w"
  assumes insert_ok: "insert i d src w = (None, w') \<Longrightarrow> view w' i d = Some src"
    and insert_err: "insert i d src w = (Some e, w') \<Longrightarrow> view w' i d = view w i d \<or> view w' i d = Some src"
    and insert_frame: "i' \<noteq> i \<or> d' \<noteq> d \<Longrightarrow> view (snd (insert i d src w)) i' d' = view w i' d'"
    and update_ok: "update i d src w = (None, w') \<Longrightarrow> view w' i d = Some (merge_source (view w i d) src)"
    and update_err: "update i d src w = (Some e, w') \<Longrightarrow>
      view w' i d = view w i d \<or> view w' i d = Some (merge_source (view w i d) src)"
    and update_frame: "i' \<noteq> i \<or> d' \<noteq> d \<Longrightarrow> view (snd (update i d src w)) i' d' = view w i' d'"
    and search_view: "view (snd (search i d w)) = view w"
    and search_ok: "search i d w = (Inr (n, hits), w') \<Longrightarrow>
      (case view w i d of None \<Rightarrow> n = 0 | Some src \<Rightarrow> n = 1 \<and> hits = [(d, src)])"
begin

lemma insert_cases: "view (snd (insert i d src w)) i d = view w i d \<or> view (snd (insert i d src w)) i d = Some src"
  using insert_ok insert_err by (cases "insert i d src w" rule: prod.exhaust; cases "fst (insert i d src w)") fastforce+

lemma update_cases: "view (snd (update i d src w)) i d = view w i d \<or>
    view (snd (update i d src w)) i d = Some (merge_source (view w i d) src)"
  using update_ok update_err by (cases "update i d src w" rule: prod.exhaust; cases "fst (update i d src w)") fastforce+

text \<open>A member that an insert or update writes is then the old one or the new one, and the document stays.\<close>

lemma update_member: "view w i d = Some s \<Longrightarrow> map_of src k = Some v \<Longrightarrow>
    \<exists>s'. view (snd (update i d src w)) i d = Some s' \<and> (map_of s' k = map_of s k \<or> map_of s' k = Some v)"
  using update_cases[of i d src w] by (auto simp: map_of_merge_source)

lemma insert_then_search: "insert i d src w = (None, w1) \<Longrightarrow> search i d w1 = (Inr (n, hits), w2) \<Longrightarrow>
    n = 1 \<and> hits = [(d, src)]"
  using insert_ok search_ok by fastforce

end

definition es_store :: "'e env \<Rightarrow> ('e \<Rightarrow> string \<Rightarrow> string \<Rightarrow> source option) \<Rightarrow> bool" where
  "es_store E view \<longleftrightarrow> document_store view (es_Index E) (es_Update E)
     (\<lambda>i d. es_Search E i (MatchQuery ''_id'' d) None 1)"

end
