(* ===== verification/Client.thy ===== *)
theory Client
  imports Db
begin

text \<open>
  The client of the Aergo node (\<open>indexer/client/client.go\<close>) and the fetching of contract code
  (\<open>lua_compiler/compiler.go\<close>), over the world of \<open>env\<close>.
\<close>

definition NewAergoClient :: "'e env \<Rightarrow> string \<Rightarrow> 'e \<Rightarrow> bool \<times> 'e" where
  "NewAergoClient E serverAddr w = rpc_Dial E serverAddr w"

definition GetChainInfo :: "'e env \<Rightarrow> 'e \<Rightarrow> (go_error + ChainInfo) \<times> 'e" where
  "GetChainInfo E w = rpc_GetChainInfo E w"

definition client_GetBestBlock :: "'e env \<Rightarrow> 'e \<Rightarrow> (go_error + uint64) \<times> 'e" where
  "client_GetBestBlock E w = rpc_Blockchain E w"

definition GetBlock :: "'e env \<Rightarrow> string \<Rightarrow> 'e \<Rightarrow> (go_error + Block) \<times> 'e" where
  "GetBlock E blockQuery w = rpc_GetBlock E blockQuery w"

definition GetReceipt :: "'e env \<Rightarrow> slice \<Rightarrow> 'e \<Rightarrow> (go_error + Receipt) \<times> 'e" where
  "GetReceipt E txHash w = rpc_GetReceipt E txHash w"

definition ListBlockStream :: "'e env \<Rightarrow> 'e \<Rightarrow> (go_error + nat option) \<times> 'e" where
  "ListBlockStream E w = rpc_ListBlockStream E w"

section \<open>Amounts as text and as float\<close>

text \<open>A text that \<open>ParseFloat\<close> refuses becomes \<open>0\<close>, in both forms.\<close>

definition with_float :: "string \<Rightarrow> string \<times> float32" where
  "with_float s = (case ParseFloat32 s of Inr f \<Rightarrow> (s, f) | Inl _ \<Rightarrow> (''0'', zero32))"

definition BalanceOf :: "'e env \<Rightarrow> slice \<Rightarrow> 'e \<Rightarrow> (string \<times> float32 \<times> string \<times> float32) \<times> 'e" where
  "BalanceOf E address w =
     (let (unstakingInfo, w1) = rpc_GetState E address w;
          bigUnstaking = (case unstakingInfo of Inr b \<Rightarrow> int (big_SetBytes (bytes_of b)) | Inl _ \<Rightarrow> 0);
          (stakingInfo, w2) = rpc_GetStaking E address w1;
          bigStaking = (case stakingInfo of Inr b \<Rightarrow> int (big_SetBytes (bytes_of b)) | Inl _ \<Rightarrow> 0);
          staking = big_String bigStaking;
          bigTotal = bigUnstaking + bigStaking;
          balance = big_String bigTotal;
          (balance', balanceFloat) = with_float balance;
          (staking', stakingFloat) = with_float staking
      in ((balance', balanceFloat, staking', stakingFloat), w2))"

section \<open>Contract queries\<close>

primrec json_comma :: "string list \<Rightarrow> string" where
  "json_comma [] = []"
| "json_comma (x # xs) = (if xs = [] then x else x @ CHR '','' # json_comma xs)"

definition json_string_array :: "string list \<Rightarrow> string" where
  "json_string_array xs = CHR ''['' # json_comma (map json_quote xs) @ '']''"

text \<open>\<open>json.Marshal\<close> of a map writes the keys in order; no argument at all is a nil slice, and then there is no
  member \<open>Args\<close>.\<close>

definition queryinfo_json :: "string \<Rightarrow> string list \<Rightarrow> string" where
  "queryinfo_json name args =
     CHR ''{'' # (if args \<noteq> [] then json_quote ''Args'' @ CHR '':'' # json_string_array args @ '','' else [])
       @ json_quote ''Name'' @ CHR '':'' # json_quote name @ ''}''"

definition queryContract :: "'e env \<Rightarrow> slice \<Rightarrow> string \<Rightarrow> string list \<Rightarrow> 'e \<Rightarrow> (go_error + string) \<times> 'e" where
  "queryContract E address name args w =
     (case rpc_QueryContract E address (queryinfo_json name args) w of
        (Inl err, w') \<Rightarrow> (Inl err, w')
      | (Inr result, w') \<Rightarrow>
         (let Value = bytes_of result in
          (case Unmarshal_any Value of
             Inl err \<Rightarrow> (Inl err, w')
           | Inr (GString c) \<Rightarrow> (Inr c, w')
           | Inr (GMap c) \<Rightarrow> (case ConvertBignumJson c of
                Some am \<Rightarrow> (Inr (big_String am), w')
              | None \<Rightarrow> (Inr Value, w'))
           | Inr (GInt c) \<Rightarrow> (Inr (show_int c), w')
           | Inr _ \<Rightarrow> (Inr Value, w'))))"

definition QueryBalanceOf :: "'e env \<Rightarrow> slice \<Rightarrow> string \<Rightarrow> bool \<Rightarrow> 'e \<Rightarrow> (string \<times> float32) \<times> 'e" where
  "QueryBalanceOf E contractAddress account isCccvNft w =
     (let (r, w') = (if isCccvNft then queryContract E contractAddress ''query'' [''balanceOf'', account] w
                     else queryContract E contractAddress ''balanceOf'' [account] w)
      in case r of Inl _ \<Rightarrow> ((''0'', zero32), w')
         | Inr balance \<Rightarrow> (with_float balance, w'))"

definition QueryMetadataOf :: "'e env \<Rightarrow> slice \<Rightarrow> string \<Rightarrow> 'e \<Rightarrow> string \<times> 'e" where
  "QueryMetadataOf E contractAddress tokenAddress w =
     (case queryContract E contractAddress ''get_metadata'' [tokenAddress] w of
        (Inl _, w') \<Rightarrow> ([], w')
      | (Inr req, w') \<Rightarrow> (req, w'))"

definition one32 :: float32 where "one32 = Fin32 False (2 ^ 23) (- 23)"

text \<open>Token type, token id, amount and its float: a contract that answers \<open>ownerOf\<close> is an ARC2.\<close>

definition QueryOwnerOf :: "'e env \<Rightarrow> slice \<Rightarrow> string \<Rightarrow> bool \<Rightarrow> 'e
    \<Rightarrow> (TokenType \<times> string \<times> string \<times> float32) \<times> 'e" where
  "QueryOwnerOf E contractAddress amountOrId isCccvNft w =
     (let (r, w') = (if isCccvNft then queryContract E contractAddress ''query'' [''ownerOf'', amountOrId] w
                     else queryContract E contractAddress ''ownerOf'' [amountOrId] w)
      in case r of
           Inr owner \<Rightarrow> ((TokenARC2, amountOrId, (if owner \<noteq> [] then owner else ''BURN''), one32), w')
         | Inl _ \<Rightarrow> (case ParseFloat32 amountOrId of
              Inr AmountFloat \<Rightarrow> ((TokenARC1, [], amountOrId, AmountFloat), w')
            | Inl _ \<Rightarrow> ((TokenARC1, [], [], zero32), w')))"

definition QueryTotalSupply :: "'e env \<Rightarrow> slice \<Rightarrow> bool \<Rightarrow> 'e \<Rightarrow> (string \<times> float32) \<times> 'e" where
  "QueryTotalSupply E contractAddress isCccvNft w =
     (let (r, w') = (if isCccvNft then queryContract E contractAddress ''query'' [''totalSupply''] w
                     else queryContract E contractAddress ''totalSupply'' [] w)
      in case r of Inl _ \<Rightarrow> ((''0'', zero32), w')
         | Inr supply \<Rightarrow> (case ParseFloat32 supply of
              Inr AmountFloat \<Rightarrow> ((supply, AmountFloat), w')
            | Inl _ \<Rightarrow> ((''0'', zero32), w')))"

definition QueryTokenInfo :: "'e env \<Rightarrow> slice \<Rightarrow> 'e \<Rightarrow> (string \<times> string \<times> uint8) \<times> 'e" where
  "QueryTokenInfo E contractAddress w =
     (case queryContract E contractAddress ''name'' [] w of
        (Inl _, w1) \<Rightarrow> (([], [], 0), w1)
      | (Inr name, w1) \<Rightarrow>
         if name = ''null'' then (([], [], 0), w1)
         else (let (s, w2) = queryContract E contractAddress ''symbol'' [] w1;
                   symbol = (case s of Inl _ \<Rightarrow> [] | Inr x \<Rightarrow> if x = ''null'' then [] else x);
                   (d, w3) = queryContract E contractAddress ''decimals'' [] w2;
                   decimals = (case d of
                      Inr strDecimals \<Rightarrow> (case Atoi strDecimals of Some i \<Rightarrow> of_int i | None \<Rightarrow> 0)
                    | Inl _ \<Rightarrow> 1)
               in ((name, symbol, decimals), w3)))"

definition null_to_empty :: "go_error + string \<Rightarrow> string" where
  "null_to_empty r = (case r of Inl _ \<Rightarrow> [] | Inr s \<Rightarrow> if s = ''null'' then [] else s)"

definition QueryNFTMetadata :: "'e env \<Rightarrow> slice \<Rightarrow> string \<Rightarrow> 'e \<Rightarrow> (string \<times> string) \<times> 'e" where
  "QueryNFTMetadata E contractAddress tokenId w =
     (let (u, w1) = queryContract E contractAddress ''get_metadata'' [tokenId, ''token_uri''] w;
          (i, w2) = queryContract E contractAddress ''get_metadata'' [tokenId, ''image_url''] w1
      in ((null_to_empty u, null_to_empty i), w2))"

definition QueryVerifyTokens :: "'e env \<Rightarrow> slice \<Rightarrow> 'e \<Rightarrow> (go_error + string) \<times> 'e" where
  "QueryVerifyTokens E contractAddress w = queryContract E contractAddress [] [] w"

definition QueryVerifyContract :: "'e env \<Rightarrow> slice \<Rightarrow> 'e \<Rightarrow> (go_error + string) \<times> 'e" where
  "QueryVerifyContract E contractAddress w = queryContract E contractAddress [] [] w"

section \<open>Contract code\<close>

definition GetCode :: "'e env \<Rightarrow> string \<Rightarrow> 'e \<Rightarrow> (go_error + string) \<times> 'e" where
  "GetCode E url w = http_Get E url w"

section \<open>Lemmas\<close>

lemma with_float_text: "with_float s = (t, f) \<Longrightarrow> t = s \<or> t = ''0'' \<and> f = zero32"
  by (auto simp: with_float_def split: sum.splits)

text \<open>A natural number below \<open>2 ^ 127\<close> keeps its text, one from \<open>2 ^ 128\<close> on is replaced by zero.\<close>

lemma with_float_nat:
  assumes "n < 2 ^ 127"
  shows "\<exists>f. with_float (show_int (int n)) = (show_int (int n), f) \<and> f32_gt0 f = (0 < n)"
proof (cases "n = 0")
  case True
  then show ?thesis
    using ParseFloat32_nat[of 0] by (simp add: with_float_def show_int_def f32_of_ratio_def round_bits_def)
next
  case False
  then obtain f where "f32_of_ratio False n 1 = (f, False)" "f32_gt0 f"
    using f32_nat_compare[of n 1] assms by auto
  then show ?thesis using False ParseFloat32_nat[of n] by (simp add: with_float_def show_int_def)
qed

lemma with_float_ge:
  assumes "n < 2 ^ 127" and "0 < c" and "c \<le> 2 ^ 24"
  shows "f32_ge (snd (with_float (show_int (int n)))) c \<longleftrightarrow> c \<le> n"
proof (cases "n = 0")
  case True
  then show ?thesis using assms(2) ParseFloat32_nat[of 0]
    by (simp add: with_float_def show_int_def f32_of_ratio_def round_bits_def scale_num_def scale_den_def)
next
  case False
  then obtain f where "f32_of_ratio False n 1 = (f, False)" "f32_ge f c \<longleftrightarrow> c \<le> n"
    using f32_nat_compare[of n c] assms by auto
  then show ?thesis using ParseFloat32_nat[of n] by (simp add: with_float_def show_int_def)
qed

lemma with_float_overflow: "2 ^ 128 \<le> n \<Longrightarrow> with_float (show_int (int n)) = (''0'', zero32)"
  using ParseFloat32_nat[of n] f32_nat_overflow[of n] by (simp add: with_float_def show_int_def)

text \<open>The balance of an account, when both requests succeed.\<close>

lemma BalanceOf_sum:
  assumes "rpc_GetState E a w = (Inr u, w1)" and "rpc_GetStaking E a w1 = (Inr s, w2)"
    and "big_SetBytes (bytes_of u) + big_SetBytes (bytes_of s) < 2 ^ 127"
  shows "\<exists>f g. BalanceOf E a w = ((show_int (int (big_SetBytes (bytes_of u) + big_SetBytes (bytes_of s))), f,
      show_int (int (big_SetBytes (bytes_of s))), g), w2) \<and>
    f32_gt0 f = (0 < big_SetBytes (bytes_of u) + big_SetBytes (bytes_of s)) \<and>
    f32_ge g 10000 = (10000 \<le> big_SetBytes (bytes_of s))"
proof -
  let ?u = "big_SetBytes (bytes_of u)" and ?s = "big_SetBytes (bytes_of s)"
  have lt: "?s < 2 ^ 127" by (rule le_less_trans[OF le_add2 assms(3)])
  obtain f where f: "with_float (show_int (int (?u + ?s))) = (show_int (int (?u + ?s)), f)" "f32_gt0 f = (0 < ?u + ?s)"
    using with_float_nat[OF assms(3)] by (elim exE conjE)
  obtain g where g: "with_float (show_int (int ?s)) = (show_int (int ?s), g)"
    using with_float_nat[OF lt] by (elim exE conjE)
  have k: "f32_ge (snd (with_float (show_int (int ?s)))) 10000 = (10000 \<le> ?s)"
    by (rule with_float_ge[OF lt]) simp_all
  have "BalanceOf E a w = ((show_int (int (?u + ?s)), f, show_int (int ?s), g), w2)"
    using f(1) g by (simp add: BalanceOf_def assms(1,2) Let_def big_String_def)
  then show ?thesis using f(2) k g by simp
qed

section \<open>The request of a query\<close>

text \<open>A text that is read as these tokens, whatever follows.\<close>

definition lexes :: "string \<Rightarrow> token list \<Rightarrow> bool" where
  "lexes s ts \<longleftrightarrow> (\<forall>t. lex_go Idle (s @ t) = map_option ((@) ts) (lex_go Idle t))"

lemma lexes_append: "lexes s ts \<Longrightarrow> lexes s' ts' \<Longrightarrow> lexes (s @ s') (ts @ ts')"
  by (auto simp: lexes_def map_option_case split: option.splits)

lemma lexes_punct: "punct_token c = Some t \<Longrightarrow> lexes [c] [t]"
proof -
  assume p: "punct_token c = Some t"
  then have "\<not> is_space c \<and> start_mode c = None"
    by (auto simp: punct_token_def is_space_def start_mode_def is_digit_def is_word_char_def split: if_splits)
  with p show ?thesis by (auto simp: lexes_def cons_tok_def split: option.splits)
qed

lemma lexes_quote:
  assumes "\<forall>c \<in> set s. (of_char c :: nat) < 128"
  shows "lexes (json_quote s) [TLit (JStr s)]"
proof (unfold lexes_def, intro allI)
  fix t
  have "lex_go Idle (json_quote s @ t) = lex_go (InStr []) (quote_body s @ CHR 0x22 # t)"
    by (simp add: json_quote_def start_mode_def is_space_def)
  also have "\<dots> = cons_tok (Some (TLit (JStr s))) (lex_go Idle t)"
    using lex_quote_body[OF assms, of "[]"] decode_quote_units[OF assms, of "[]"] by simp
  finally show "lex_go Idle (json_quote s @ t) = map_option ((@) [TLit (JStr s)]) (lex_go Idle t)"
    by (auto simp: cons_tok_def split: option.splits)
qed

definition ascii :: "string \<Rightarrow> bool" where
  "ascii s \<longleftrightarrow> (\<forall>c \<in> set s. (of_char c :: nat) < 128)"

lemma lexes_array:
  assumes "list_all ascii args"
  shows "lexes (json_comma (map json_quote args)) (sep_concat (map tokens_of (map JStr args)))"
  using assms
proof (induction args)
  case Nil
  show ?case by (auto simp: lexes_def map_option_case split: option.splits)
next
  case (Cons a args)
  then have q: "lexes (json_quote a) [TLit (JStr a)]" by (simp add: lexes_quote ascii_def)
  show ?case
  proof (cases args)
    case Nil
    with q show ?thesis by simp
  next
    case c: (Cons b bs)
    have "lexes ('','') [TComma]" by (rule lexes_punct) (simp add: punct_token_def)
    from lexes_append[OF q lexes_append[OF this Cons.IH]] Cons.prems c show ?thesis by simp
  qed
qed

lemma queryinfo_tokens:
  assumes "ascii name" and "list_all ascii args"
  shows "lexes (queryinfo_json name args) (tokens_of (JObj
    ((if args = [] then [] else [(''Args'', JArr (map JStr args))]) @ [(''Name'', JStr name)])))"
proof -
  have p: "lexes [CHR ''{''] [TLBrace]" "lexes [CHR ''}''] [TRBrace]" "lexes [CHR ''['' ] [TLBrack]"
    "lexes [CHR '']''] [TRBrack]" "lexes [CHR '':''] [TColon]" "lexes [CHR '',''] [TComma]"
    by (rule lexes_punct, simp add: punct_token_def)+
  have k: "lexes (json_quote ''Args'') [TLit (JStr ''Args'')]" "lexes (json_quote ''Name'') [TLit (JStr ''Name'')]"
    by (rule lexes_quote, simp)+
  have n: "lexes (json_quote name) [TLit (JStr name)]" using assms(1) by (simp add: lexes_quote ascii_def)
  note app = lexes_append
  note tail = app[OF k(2) app[OF p(5) app[OF n p(2)]]]
  note arr = app[OF p(3) app[OF lexes_array[OF assms(2)] p(4)]]
  note full = app[OF p(1) app[OF k(1) app[OF p(5) app[OF arr app[OF p(6) tail]]]]]
  show ?thesis
  proof (cases "args = []")
    case True
    with app[OF p(1) tail] show ?thesis by (simp add: queryinfo_json_def)
  next
    case False
    with full show ?thesis by (simp add: queryinfo_json_def json_string_array_def)
  qed
qed

text \<open>What the node reads from the request of a query.\<close>

lemma queryinfo_parse:
  assumes "ascii name" and "list_all ascii args"
  shows "json_parse (queryinfo_json name args) = Some (JObj
    ((if args = [] then [] else [(''Args'', JArr (map JStr args))]) @ [(''Name'', JStr name)]))"
    (is "_ = Some ?v")
proof -
  have "lex_go Idle (queryinfo_json name args) = Some (tokens_of ?v)"
    using queryinfo_tokens[OF assms] spec[of _ "[]"] by (fastforce simp: lexes_def dest: spec[of _ "[]"])
  moreover have d: "foldr max (map json_depth (map JStr args)) 0 = 0" by (induction args) simp_all
  have "json_depth ?v \<le> maxNestingDepth" using d by (simp add: maxNestingDepth_def)
  then have "parse_tokens (WantValue, []) (tokens_of ?v) = Some (Finished ?v, [])"
    using parse_value[of "[]" ?v] by simp
  ultimately show ?thesis by (simp add: json_parse_def)
qed

end
