(* ===== verification/Indexer_State.thy ===== *)
theory Indexer_State
  imports Client
begin

text \<open>
  The state of the indexer (\<open>indexer/indexer.go\<close>, \<open>define.go\<close>, \<open>cache.go\<close>, \<open>bulk.go\<close>), its caches and the
  reading and writing of documents (\<open>indexer/dto.go\<close>).

  A function of the indexer is a computation over the record \<open>Indexer\<close>: the configuration, the caches,
  the world outside, and the log of what it did to channels and goroutines, in order. Sending on a
  channel is recorded and does not wait. A \<open>sync.Map\<close> that is ranged over is a list of distinct keys;
  the order in which \<open>Range\<close> visits them is not specified by Go, the list is one such order.
\<close>

section \<open>Messages\<close>

datatype ChanType = ChanType_StopBulk | ChanType_Add | ChanType_Commit

datatype BlockType = BlockType_StopMiner | BlockType_Bulk | BlockType_Sync

record BlockInfo =
  BlockInfo_Type :: BlockType
  BlockInfo_Height :: uint64

datatype chan = ChBlock | ChTx | ChEvent | ChContract | ChTokenTransfer | ChAccTokens

record ChanInfo =
  ChanInfo_Type :: ChanType
  ChanInfo_Doc :: "doc option"

definition NotVerified :: string where "NotVerified = ''''"
definition Verified :: string where "Verified = ''verified''"

text \<open>What is done to channels and goroutines: sends to the document channels, to the miner of a number, and
  to the miner of the stream; opening and closing them; starting goroutines.\<close>

datatype action =
    SendB chan ChanInfo
  | SendR nat BlockInfo
  | SendM BlockInfo
  | MakeB chan | CloseB chan
  | MakeR nat | CloseR nat
  | MakeSynDone | CloseSynDone | SendSynDone | RecvSynDone
  | GoBulkIndexer chan string bool
  | GoMiner nat "nat option"        \<comment> \<open>miner and node connection\<close>
  | GoStreamMiner
  | GoStartStream
  | GoDrainStream

section \<open>State\<close>

record 'e Indexer =
  dbAddr :: string
  serverAddr :: string
  index_prefix :: string
  runMode :: string
  fixMode :: bool
  networkTypeForCccv :: string
  indexNamePrefix :: string
  aliasNamePrefix :: string
  lastHeight :: uint64
  cccvNftAddress :: slice
  bulkSize :: int32
  batchTime :: int
  minerNum :: nat
  grpcNum :: nat
  tokenVerifyAddr :: slice
  contractVerifyAddr :: slice
  balanceWhitelist :: "string list"
  tokenVerifyWhitelist :: "string list"
  contractVerifyWhitelist :: "string list"
  clusterMapping :: bool                       \<comment> \<open>which \<open>EsMappings\<close> were installed\<close>
  stream :: "nat option"
  accToken :: "string list"
  peerId :: "(string \<times> string) list"
  addrsBalance :: "string list"
  acts :: "action list"
  world :: 'e

type_synonym ('e, 'a) idx = "('e Indexer, 'a) go"

definition ext :: "('e \<Rightarrow> 'a \<times> 'e) \<Rightarrow> ('e, 'a) idx" where
  "ext f = (\<lambda>s. case f (world s) of (a, w) \<Rightarrow> Some (Ret a, s\<lparr>world := w\<rparr>))"

definition emit :: "action \<Rightarrow> ('e, unit) idx" where
  "emit a = upd (\<lambda>s. s\<lparr>acts := acts s @ [a]\<rparr>)"

definition Sleep :: "'e env \<Rightarrow> int \<Rightarrow> ('e, unit) idx" where
  "Sleep E d = ext (\<lambda>w. ((), clock_Sleep E d w))"

text \<open>The outcome of a database write is only logged.\<close>

definition logged :: "('e \<Rightarrow> go_error option \<times> 'e) \<Rightarrow> ('e, unit) idx" where
  "logged f = bnd (ext f) (\<lambda>err. ret ())"

lemma ext_run [simp, go_simps]: "ext f s = Some (Ret (fst (f (world s))), s\<lparr>world := snd (f (world s))\<rparr>)"
  by (simp add: ext_def split: prod.split)

lemma bnd_ext [simp, go_simps]:
  "bnd (ext f) g s = g (fst (f (world s))) (s\<lparr>world := snd (f (world s))\<rparr>)"
  by (simp add: bnd_def)

lemma emit_run [simp, go_simps]: "emit a s = Some (Ret (), s\<lparr>acts := acts s @ [a]\<rparr>)"
  and sq_emit [simp, go_simps]: "sq (emit a) m s = m (s\<lparr>acts := acts s @ [a]\<rparr>)"
  by (simp_all add: emit_def)

lemma logged_run [simp, go_simps]: "logged f s = Some (Ret (), s\<lparr>world := snd (f (world s))\<rparr>)"
  by (simp add: logged_def)

lemma Sleep_run [simp, go_simps]: "Sleep E d s = Some (Ret (), s\<lparr>world := clock_Sleep E d (world s)\<rparr>)"
  by (simp add: Sleep_def)

lemma keeps_ext [keeps_intros]: "(\<And>s w. v (s\<lparr>world := w\<rparr>) = v s) \<Longrightarrow> keeps v (ext f)"
  by (rule keepsI) auto

lemma keeps_emit [keeps_intros]: "(\<And>s a. v (s\<lparr>acts := a\<rparr>) = v s) \<Longrightarrow> keeps v (emit a)"
  by (rule keepsI) auto

lemma keeps_logged [keeps_intros]: "(\<And>s w. v (s\<lparr>world := w\<rparr>) = v s) \<Longrightarrow> keeps v (logged f)"
  by (rule keepsI) auto

lemma keeps_Sleep [keeps_intros]: "(\<And>s w. v (s\<lparr>world := w\<rparr>) = v s) \<Longrightarrow> keeps v (Sleep E d)"
  by (rule keepsI) auto

section \<open>Caches\<close>

definition getPeerId :: "'e env \<Rightarrow> slice \<Rightarrow> ('e, string) idx" where
  "getPeerId E pubKey = bnd (rd (\<lambda>s. map_of (peerId s) (bytes_of pubKey))) (\<lambda>cached. case cached of
     Some p \<Rightarrow> ret p
   | None \<Rightarrow> (let p = MakePeerId E pubKey in
       sq (upd (\<lambda>s. s\<lparr>peerId := (bytes_of pubKey, p) # peerId s\<rparr>)) (ret p)))"

text \<open>Whether the id was seen before; it is remembered.\<close>

definition getAccTokens :: "string \<Rightarrow> ('e, bool) idx" where
  "getAccTokens docid = bnd (rd (\<lambda>s. docid \<in> set (accToken s))) (\<lambda>exist.
     sq (whn (\<not> exist) (upd (\<lambda>s. s\<lparr>accToken := docid # accToken s\<rparr>))) (ret exist))"

definition storeBalance :: "string \<Rightarrow> ('e, unit) idx" where
  "storeBalance docid = upd (\<lambda>s. s\<lparr>addrsBalance := List.insert docid (addrsBalance s)\<rparr>)"

definition deleteBalance :: "string \<Rightarrow> ('e, unit) idx" where
  "deleteBalance docid = upd (\<lambda>s. s\<lparr>addrsBalance := removeAll docid (addrsBalance s)\<rparr>)"

section \<open>Adding documents\<close>

definition index_name :: "'e Indexer \<Rightarrow> string \<Rightarrow> string" where
  "index_name ns documentType = indexNamePrefix ns @ documentType"

definition insert_into :: "'e env \<Rightarrow> string \<Rightarrow> doc \<Rightarrow> ('e, unit) idx" where
  "insert_into E documentType document =
     bnd (rd (\<lambda>ns. index_name ns documentType)) (\<lambda>i. logged (Insert E document i))"

definition update_in :: "'e env \<Rightarrow> string \<Rightarrow> doc \<Rightarrow> ('e, unit) idx" where
  "update_in E documentType document =
     bnd (rd (\<lambda>ns. index_name ns documentType)) (\<lambda>i. logged (Update E document i (doc_GetID document)))"

definition added :: "doc \<Rightarrow> ChanInfo" where
  "added document = \<lparr>ChanInfo_Type = ChanType_Add, ChanInfo_Doc = Some document\<rparr>"

definition send_add :: "chan \<Rightarrow> doc \<Rightarrow> ('e, unit) idx" where
  "send_add c document = emit (SendB c (added document))"

definition addBlock :: "'e env \<Rightarrow> BlockType \<Rightarrow> EsBlock \<Rightarrow> ('e, unit) idx" where
  "addBlock E blockType blockDoc =
     (if blockType = BlockType_Bulk then send_add ChBlock (DBlock blockDoc)
      else insert_into E ''block'' (DBlock blockDoc))"

definition addTx :: "'e env \<Rightarrow> BlockType \<Rightarrow> EsTx \<Rightarrow> ('e, unit) idx" where
  "addTx E blockType txDoc =
     (if blockType = BlockType_Bulk then send_add ChTx (DTx txDoc)
      else insert_into E ''tx'' (DTx txDoc))"

definition addEvent :: "'e env \<Rightarrow> BlockType \<Rightarrow> EsEvent \<Rightarrow> ('e, unit) idx" where
  "addEvent E blockType eventDoc =
     (if blockType = BlockType_Bulk then send_add ChEvent (DEvent eventDoc)
      else insert_into E ''event'' (DEvent eventDoc))"

definition addContract :: "'e env \<Rightarrow> BlockType \<Rightarrow> EsContract \<Rightarrow> ('e, unit) idx" where
  "addContract E blockType contractDoc =
     (if blockType = BlockType_Bulk then send_add ChContract (DContract contractDoc)
      else insert_into E ''contract'' (DContract contractDoc))"

definition addName :: "'e env \<Rightarrow> EsName \<Rightarrow> ('e, unit) idx" where
  "addName E nameDoc = insert_into E ''name'' (DName nameDoc)"

definition addToken :: "'e env \<Rightarrow> EsToken \<Rightarrow> ('e, unit) idx" where
  "addToken E tokenDoc = insert_into E ''token'' (DToken tokenDoc)"

definition addAccountTokens :: "'e env \<Rightarrow> BlockType \<Rightarrow> EsAccountTokens \<Rightarrow> ('e, unit) idx" where
  "addAccountTokens E blockType accountTokensDoc =
     (if blockType = BlockType_Bulk
      then bnd (getAccTokens (Doc_Id accountTokensDoc)) (\<lambda>exist.
        whn (\<not> exist) (send_add ChAccTokens (DAccountTokens accountTokensDoc)))
      else insert_into E ''account_tokens'' (DAccountTokens accountTokensDoc))"

definition addTokenTransfer :: "'e env \<Rightarrow> BlockType \<Rightarrow> EsTokenTransfer \<Rightarrow> ('e, unit) idx" where
  "addTokenTransfer E blockType tokenTransferDoc =
     (if blockType = BlockType_Bulk then send_add ChTokenTransfer (DTokenTransfer tokenTransferDoc)
      else insert_into E ''token_transfer'' (DTokenTransfer tokenTransferDoc))"

definition addWhitelist :: "'e env \<Rightarrow> EsWhitelist \<Rightarrow> ('e, unit) idx" where
  "addWhitelist E whitelistDoc = insert_into E ''whitelist'' (DWhitelist whitelistDoc)"

definition updateToken :: "'e env \<Rightarrow> EsTokenUpSupply \<Rightarrow> ('e, unit) idx" where
  "updateToken E tokenDoc = update_in E ''token'' (DTokenUpSupply tokenDoc)"

definition updateTokenVerified :: "'e env \<Rightarrow> EsTokenUpVerified \<Rightarrow> ('e, unit) idx" where
  "updateTokenVerified E tokenDoc = update_in E ''token'' (DTokenUpVerified tokenDoc)"

definition updateContract :: "'e env \<Rightarrow> EsContractUp \<Rightarrow> ('e, unit) idx" where
  "updateContract E contractDoc = update_in E ''contract'' (DContractUp contractDoc)"

section \<open>Reading documents by id\<close>

definition id_params :: "string \<Rightarrow> string \<Rightarrow> QueryParams" where
  "id_params indexName docid = zeroQueryParams\<lparr>IndexName := indexName,
     StringMatch := Some \<lparr>Match_Field = ''_id'', Match_Value = docid\<rparr>\<rparr>"

definition select_by_id :: "'e env \<Rightarrow> string \<Rightarrow> (source \<Rightarrow> 'd BaseEsType_scheme option) \<Rightarrow> string
    \<Rightarrow> ('e, go_error + 'd BaseEsType_scheme option) idx" where
  "select_by_id E documentType decode docid =
     bnd (rd (\<lambda>ns. index_name ns documentType)) (\<lambda>i. ext (SelectOne E (id_params i docid) decode))"

definition getContract :: "'e env \<Rightarrow> string \<Rightarrow> ('e, go_error + EsContract option) idx" where
  "getContract E docid = select_by_id E ''contract'' EsContract_decode docid"

definition getToken :: "'e env \<Rightarrow> string \<Rightarrow> ('e, go_error + EsToken option) idx" where
  "getToken E contractAddr = select_by_id E ''token'' EsToken_decode contractAddr"

definition getNFT :: "'e env \<Rightarrow> string \<Rightarrow> ('e, go_error + EsNFT option) idx" where
  "getNFT E docid = select_by_id E ''nft'' EsNFT_decode docid"

text \<open>Here an error is logged and the address counts as unknown.\<close>

definition getAccountBalance :: "'e env \<Rightarrow> string \<Rightarrow> ('e, EsAccountBalance option) idx" where
  "getAccountBalance E docid =
     bnd (select_by_id E ''account_balance'' EsAccountBalance_decode docid)
       (\<lambda>r. ret (case r of Inl _ \<Rightarrow> None | Inr document \<Rightarrow> document))"

definition addAccountBalance :: "'e env \<Rightarrow> EsAccountBalance \<Rightarrow> ('e, unit) idx" where
  "addAccountBalance E balanceDoc =
     bnd (getAccountBalance E (Doc_Id balanceDoc)) (\<lambda>document. case document of
       Some d \<Rightarrow>
        (let balanceDoc' =
           (if EsAccountBalance_BlockNo balanceDoc < EsAccountBalance_BlockNo d
            then balanceDoc\<lparr>EsAccountBalance_BlockNo := EsAccountBalance_BlockNo d,
              EsAccountBalance_Timestamp := EsAccountBalance_Timestamp d\<rparr>
            else balanceDoc)
         in update_in E ''account_balance'' (DAccountBalance balanceDoc'))
     | None \<Rightarrow> whn (f32_gt0 (EsAccountBalance_BalanceFloat balanceDoc))
         (insert_into E ''account_balance'' (DAccountBalance balanceDoc)))"

definition addNFT :: "'e env \<Rightarrow> EsNFT \<Rightarrow> ('e, unit) idx" where
  "addNFT E nftDoc =
     bnd (getNFT E (Doc_Id nftDoc)) (\<lambda>r. case r of
       Inl _ \<Rightarrow> ret ()
     | Inr (Some d) \<Rightarrow> whn (EsNFT_BlockNo nftDoc > EsNFT_BlockNo d) (update_in E ''nft'' (DNFT nftDoc))
     | Inr None \<Rightarrow> insert_into E ''nft'' (DNFT nftDoc))"

definition cntTokenTransfer :: "'e env \<Rightarrow> string \<Rightarrow> ('e, go_error + uint64) idx" where
  "cntTokenTransfer E docid =
     bnd (rd (\<lambda>ns. index_name ns ''token_transfer'')) (\<lambda>i.
     bnd (ext (Count E (zeroQueryParams\<lparr>IndexName := i,
            StringMatch := Some \<lparr>Match_Field = ''address'', Match_Value = docid\<rparr>\<rparr>)))
       (\<lambda>r. ret (case r of Inl err \<Rightarrow> Inl err | Inr cnt \<Rightarrow> Inr (of_int cnt))))"

section \<open>Scrolling an index\<close>

text \<open>The loop of the \<open>Scroll\<close> functions: up to \<open>io.EOF\<close>; after any other error there is no document, and the
  loop goes on at once. It may not end. What the callback captures and changes is the accumulator.\<close>

definition next_doc :: "'e env \<Rightarrow> (source \<Rightarrow> 'd BaseEsType_scheme option) \<Rightarrow> EsScrollInstance
    \<Rightarrow> ('e, (go_error + 'd BaseEsType_scheme) \<times> EsScrollInstance) idx" where
  "next_doc E decode scroll = ext (\<lambda>w. case Next E decode scroll w of (r, s', w') \<Rightarrow> ((r, s'), w'))"

partial_function (option) scroll_each ::
  "'e env \<Rightarrow> (source \<Rightarrow> 'd BaseEsType_scheme option) \<Rightarrow> ('d BaseEsType_scheme \<Rightarrow> 'acc \<Rightarrow> ('e, 'acc) idx)
    \<Rightarrow> 'acc \<Rightarrow> EsScrollInstance \<Rightarrow> ('e, 'acc) idx" where
  "scroll_each E decode fn acc scroll ns =
     bnd (next_doc E decode scroll) (\<lambda>(r, scroll') s.
       if r = Inl EOF then ret acc s
       else case r of Inl _ \<Rightarrow> scroll_each E decode fn acc scroll' s
         | Inr document \<Rightarrow> bnd (fn document acc) (\<lambda>acc' s'. scroll_each E decode fn acc' scroll' s') s) ns"

definition scroll_params :: "string \<Rightarrow> string \<Rightarrow> QueryParams" where
  "scroll_params indexName sortField = zeroQueryParams\<lparr>IndexName := indexName, SortField := sortField,
     Query_Size := 10000, From := 0, SortAsc := True\<rparr>"

definition scroll_index_of :: "'e env \<Rightarrow> string \<Rightarrow> string \<Rightarrow> (source \<Rightarrow> 'd BaseEsType_scheme option)
    \<Rightarrow> ('d BaseEsType_scheme \<Rightarrow> 'acc \<Rightarrow> ('e, 'acc) idx) \<Rightarrow> 'acc \<Rightarrow> ('e, 'acc) idx" where
  "scroll_index_of E documentType sortField decode fn acc =
     bnd (rd (\<lambda>ns. Scroll (scroll_params (index_name ns documentType) sortField)))
       (scroll_each E decode fn acc)"

definition ScrollToken :: "'e env \<Rightarrow> (EsToken \<Rightarrow> 'acc \<Rightarrow> ('e, 'acc) idx) \<Rightarrow> 'acc \<Rightarrow> ('e, 'acc) idx" where
  "ScrollToken E fn acc = scroll_index_of E ''token'' ''blockno'' EsToken_decode fn acc"

definition ScrollContract :: "'e env \<Rightarrow> (EsContract \<Rightarrow> 'acc \<Rightarrow> ('e, 'acc) idx) \<Rightarrow> 'acc \<Rightarrow> ('e, 'acc) idx" where
  "ScrollContract E fn acc = scroll_index_of E ''contract'' ''blockno'' EsContract_decode fn acc"

definition ScrollTokenTransfer :: "'e env \<Rightarrow> (EsTokenTransfer \<Rightarrow> 'acc \<Rightarrow> ('e, 'acc) idx) \<Rightarrow> 'acc \<Rightarrow> ('e, 'acc) idx" where
  "ScrollTokenTransfer E fn acc = scroll_index_of E ''token_transfer'' ''blockno'' EsTokenTransfer_decode fn acc"

definition ScrollAccountTokens :: "'e env \<Rightarrow> (EsAccountTokens \<Rightarrow> 'acc \<Rightarrow> ('e, 'acc) idx) \<Rightarrow> 'acc \<Rightarrow> ('e, 'acc) idx" where
  "ScrollAccountTokens E fn acc = scroll_index_of E ''account_tokens'' ''ts'' EsAccountTokens_decode fn acc"

definition ScrollBalance :: "'e env \<Rightarrow> (EsAccountBalance \<Rightarrow> 'acc \<Rightarrow> ('e, 'acc) idx) \<Rightarrow> 'acc \<Rightarrow> ('e, 'acc) idx" where
  "ScrollBalance E fn acc = scroll_index_of E ''account_balance'' ''staking_float'' EsAccountBalance_decode fn acc"

definition ScrollWhitelist :: "'e env \<Rightarrow> (EsWhitelist \<Rightarrow> 'acc \<Rightarrow> ('e, 'acc) idx) \<Rightarrow> 'acc \<Rightarrow> ('e, 'acc) idx" where
  "ScrollWhitelist E fn acc = scroll_index_of E ''whitelist'' ''type'' EsWhitelist_decode fn acc"

section \<open>Lemmas: writes by kind of block\<close>

lemma insert_into_run [simp]: "insert_into E t d s = Some (Ret (), s\<lparr>world := snd (Insert E d (index_name s t) (world s))\<rparr>)"
  and update_in_run [simp]: "update_in E t d s =
    Some (Ret (), s\<lparr>world := snd (Update E d (index_name s t) (doc_GetID d) (world s))\<rparr>)"
  and send_add_run [simp]: "send_add c d s =
    Some (Ret (), s\<lparr>acts := acts s @ [SendB c (added d)]\<rparr>)"
  by (simp_all add: insert_into_def update_in_def send_add_def)

text \<open>What adding a document does is to extend the log or to change the world.\<close>

lemma keeps_writes [keeps_intros]:
  assumes "\<And>s w. v (s\<lparr>world := w\<rparr>) = v s"
  shows "keeps v (insert_into E t d)" "keeps v (update_in E t d)"
  using assms by (auto intro!: keeps_intros simp: insert_into_def update_in_def)

lemma keeps_send_add [keeps_intros]: "(\<And>s a. v (s\<lparr>acts := a\<rparr>) = v s) \<Longrightarrow> keeps v (send_add c d)"
  by (auto intro!: keeps_intros simp: send_add_def)

lemmas add_defs = addBlock_def addTx_def addEvent_def addContract_def addName_def addToken_def
  addTokenTransfer_def addWhitelist_def updateToken_def updateTokenVerified_def updateContract_def

lemma addAccountTokens_bulk:
  "addAccountTokens E BlockType_Bulk d s = Some (Ret (),
     if Doc_Id d \<in> set (accToken s) then s
     else s\<lparr>accToken := Doc_Id d # accToken s,
       acts := acts s @ [SendB ChAccTokens (added (DAccountTokens d))]\<rparr>)"
  by (simp add: addAccountTokens_def getAccTokens_def bnd_def sq_def)

section \<open>Lemmas: scrolling\<close>

text \<open>A callback that returns and leaves the world alone runs once on every document delivered, in order.\<close>

lemma fold_frame:
  fixes s :: "'e Indexer"
  assumes frame: "\<And>d acc s w. g d (acc, s\<lparr>world := w\<rparr>) =
      (fst (g d (acc, s)), (snd (g d (acc, s)))\<lparr>world := w\<rparr>)"
  shows "fold g ds (acc, s\<lparr>world := w\<rparr>) =
    (fst (fold g ds (acc, s)), (snd (fold g ds (acc, s)))\<lparr>world := w\<rparr>)"
proof (induction ds arbitrary: acc s)
  case (Cons x ds)
  obtain a t where g: "g x (acc, s) = (a, t)" by fastforce
  have "g x (acc, s\<lparr>world := w\<rparr>) = (a, t\<lparr>world := w\<rparr>)" using frame[where acc = acc and s = s] g by simp
  then show ?case using Cons g by simp
qed simp

lemma scroll_each_delivers:
  assumes "delivers (Next E decode) (\<lambda>w. w) scroll w ds scroll' w'"
    and fn: "\<And>d acc s. fn d acc s = Some (Ret (fst (g d (acc, s))), snd (g d (acc, s)))"
    and frame: "\<And>d acc s w. g d (acc, s\<lparr>world := w\<rparr>) =
      (fst (g d (acc, s)), (snd (g d (acc, s)))\<lparr>world := w\<rparr>)"
    and w: "world s = w"
  shows "scroll_each E decode fn acc scroll s =
    Some (Ret (fst (fold g ds (acc, s))), (snd (fold g ds (acc, s)))\<lparr>world := w'\<rparr>)"
  using assms(1) w
proof (induction arbitrary: acc s rule: delivers.induct)
  case (eof sc w sc' w')
  then show ?case by (subst scroll_each.simps) (simp add: next_doc_def)
next
  case (doc sc w d s1 w1 ds s' w')
  let ?p = "g d (acc, s)"
  have keep: "world (snd (g d (acc, s\<lparr>world := w1\<rparr>))) = w1" using frame by simp
  have f: "fold g ds (fst ?p, (snd ?p)\<lparr>world := w1\<rparr>) =
      (fst (fold g ds ?p), (snd (fold g ds ?p))\<lparr>world := w1\<rparr>)"
    by (subst fold_frame[of g, OF frame]) simp
  have "scroll_each E decode fn acc sc s =
      scroll_each E decode fn (fst ?p) s1 ((snd ?p)\<lparr>world := w1\<rparr>)"
    using doc.hyps(1) doc.prems by (subst scroll_each.simps) (simp add: next_doc_def bnd_Ret[OF fn] frame)
  then show ?case using doc.IH[of "(snd ?p)\<lparr>world := w1\<rparr>" "fst ?p"] f by simp
next
  case (err sc w e s1 w1 ds s' w')
  have "scroll_each E decode fn acc sc s = scroll_each E decode fn acc s1 (s\<lparr>world := w1\<rparr>)"
    using err.hyps(1,2) err.prems by (subst scroll_each.simps) (simp add: next_doc_def)
  moreover have "fold g ds (acc, s\<lparr>world := w1\<rparr>) =
      (fst (fold g ds (acc, s)), (snd (fold g ds (acc, s)))\<lparr>world := w1\<rparr>)"
    by (rule fold_frame) (rule frame)
  ultimately show ?case using err.IH[of "s\<lparr>world := w1\<rparr>" acc] by simp
qed

section \<open>Lemmas: the newest block wins\<close>

lemma es_store_index:
    "es_store E view \<Longrightarrow> view (snd (es_Index E i d src w)) i d = view w i d \<or>
      view (snd (es_Index E i d src w)) i d = Some src"
  and es_store_index_frame: "es_store E view \<Longrightarrow> i' \<noteq> i \<or> d' \<noteq> d \<Longrightarrow>
      view (snd (es_Index E i d src w)) i' d' = view w i' d'"
  and es_store_update: "es_store E view \<Longrightarrow> view (snd (es_Update E i d src w)) i d = view w i d \<or>
      view (snd (es_Update E i d src w)) i d = Some (merge_source (view w i d) src)"
  and es_store_update_frame: "es_store E view \<Longrightarrow> i' \<noteq> i \<or> d' \<noteq> d \<Longrightarrow>
      view (snd (es_Update E i d src w)) i' d' = view w i' d'"
  unfolding es_store_def
  by (rule document_store.insert_cases document_store.insert_frame
      document_store.update_cases document_store.update_frame; assumption)+

lemma Update_world: "snd (Update E d i docid w) = snd (es_Update E i docid (doc_source d) w)"
  by (auto simp: Update_def split: prod.splits option.splits go_error.splits)

lemma Insert_world: "snd (Insert E d i w) = snd (es_Index E i (doc_GetID d) (doc_source d) w)"
  by (simp add: Insert_def)

text \<open>A read by id returns the stored document or fails, and changes no document.\<close>

lemma SelectOne_store:
  assumes st: "es_store E view" and run: "SelectOne E (id_params i docid) decode w = (r, w')"
  shows "view w' = view w"
    and "r = Inr d \<Longrightarrow> (case view w i docid of None \<Rightarrow> d = None
       | Some src \<Rightarrow> \<exists>d0. decode src = Some d0 \<and> d = Some (SetID docid d0))"
proof -
  obtain a w1 where se: "es_Search E i (MatchQuery ''_id'' docid) None 1 w = (a, w1)" by fastforce
  from st have ds: "document_store view (es_Index E) (es_Update E) (\<lambda>i d. es_Search E i (MatchQuery ''_id'' d) None 1)"
    by (simp add: es_store_def)
  have S: "(r, w') = (case a of Inl err \<Rightarrow> (Inl err, w1) | Inr (n, hits) \<Rightarrow>
      if n = 0 then (Inr None, w1) else case hits of [] \<Rightarrow> (Inr None, w1)
        | (h, src) # _ \<Rightarrow> (case decode src of None \<Rightarrow> (Inl json_err, w1) | Some x \<Rightarrow> (Inr (Some (SetID h x)), w1)))"
    using run se by (simp add: SelectOne_def id_params_def zeroQueryParams_def match_query_def Let_def)
  have "w' = w1" using S by (auto split: sum.splits prod.splits list.splits option.splits if_splits)
  then show "view w' = view w" using document_store.search_view[OF ds, of i docid w] se by simp
  assume r: "r = Inr d"
  then obtain n hits where a: "a = Inr (n, hits)" using S by (cases a) auto
  from document_store.search_ok[OF ds] se a
  have ok: "case view w i docid of None \<Rightarrow> n = 0 | Some src \<Rightarrow> n = 1 \<and> hits = [(docid, src)]" by simp
  show "case view w i docid of None \<Rightarrow> d = None
       | Some src \<Rightarrow> \<exists>d0. decode src = Some d0 \<and> d = Some (SetID docid d0)"
    using S r a ok by (auto split: option.splits if_splits)
qed

lemma select_by_id_run [simp]: "select_by_id E t decode docid s =
    Some (Ret (fst (SelectOne E (id_params (index_name s t) docid) decode (world s))),
      s\<lparr>world := snd (SelectOne E (id_params (index_name s t) docid) decode (world s))\<rparr>)"
  and bnd_select [simp]: "bnd (select_by_id E t decode docid) f s =
    f (fst (SelectOne E (id_params (index_name s t) docid) decode (world s)))
      (s\<lparr>world := snd (SelectOne E (id_params (index_name s t) docid) decode (world s))\<rparr>)"
  by (simp_all add: select_by_id_def bnd_assoc)

lemma index_name_world [simp]: "index_name (s\<lparr>world := w\<rparr>) t = index_name s t"
  and index_name_acts [simp]: "index_name (s\<lparr>acts := a\<rparr>) t = index_name s t"
  by (simp_all add: index_name_def)

text \<open>The block number of a stored source.\<close>

definition stored_blockno :: "source \<Rightarrow> uint64" where
  "stored_blockno src = get_uint src ''blockno''"

lemma merge_blockno:
  assumes "map_of new ''blockno'' = Some (SNum (unat n))"
  shows "stored_blockno (merge_source old new) = n"
  using assms by (simp add: stored_blockno_def get_uint_def map_of_merge_source)

lemma EsNFT_blockno: "map_of (EsNFT_source d) ''blockno'' = Some (SNum (unat (EsNFT_BlockNo d)))"
  and EsNFT_decode_blockno: "EsNFT_decode src = Some d \<Longrightarrow> EsNFT_BlockNo d = stored_blockno src"
  by (auto simp: EsNFT_source_def EsNFT_decode_def stored_blockno_def split: if_splits)

lemma EsAccountBalance_blockno:
  "map_of (EsAccountBalance_source d) ''blockno'' = Some (SNum (unat (EsAccountBalance_BlockNo d)))"
  and EsAccountBalance_decode_blockno: "EsAccountBalance_decode src = Some b \<Longrightarrow>
    EsAccountBalance_BlockNo b = stored_blockno src"
  by (auto simp: EsAccountBalance_source_def EsAccountBalance_decode_def stored_blockno_def split: if_splits)

lemma addNFT_returns: "\<exists>w. addNFT E n s = Some (Ret (), s\<lparr>world := w\<rparr>)"
  by (auto simp: addNFT_def getNFT_def whn_def split: sum.splits option.splits)

text \<open>A write of a source with this block number leaves a document at its block number or at this one.\<close>

lemma update_blockno:
  assumes st: "es_store E view" and old: "view w i d = Some src"
    and new: "map_of (doc_source n) ''blockno'' = Some (SNum (unat b))"
    and newer: "d = docid \<Longrightarrow> stored_blockno src \<le> b"
  shows "\<exists>src'. view (snd (Update E n i docid w)) i d = Some src' \<and> stored_blockno src \<le> stored_blockno src'"
proof (cases "d = docid")
  case True
  with es_store_update[OF st, of i d "doc_source n" w] merge_blockno[OF new, of "Some src"] newer old
  show ?thesis by (auto simp: Update_world)
next
  case False
  then show ?thesis using es_store_update_frame[OF st] old by (simp add: Update_world)
qed

lemma addNFT_blockno:
  assumes st: "es_store E view" and run: "addNFT E n s = Some (r, s')"
    and old: "view (world s) i d = Some src" and i: "i = index_name s ''nft''"
  shows "\<exists>src'. view (world s') i d = Some src' \<and> stored_blockno src \<le> stored_blockno src'"
proof -
  obtain q w1 where q: "SelectOne E (id_params i (Doc_Id n)) EsNFT_decode (world s) = (q, w1)" by fastforce
  note sel = SelectOne_store[OF st q]
  have run': "addNFT E n s = (case q of Inl _ \<Rightarrow> ret ()
     | Inr (Some x) \<Rightarrow> whn (EsNFT_BlockNo n > EsNFT_BlockNo x) (update_in E ''nft'' (DNFT n))
     | Inr None \<Rightarrow> insert_into E ''nft'' (DNFT n)) (s\<lparr>world := w1\<rparr>)"
    using q i by (simp add: addNFT_def getNFT_def)
  have old1: "view w1 i d = Some src" using sel(1) old by simp
  consider "world s' = w1" | "q = Inr None" | x where "q = Inr (Some x)" "EsNFT_BlockNo x < EsNFT_BlockNo n"
    using run run' by (auto simp: whn_def split: sum.splits option.splits if_splits)
  then show ?thesis
  proof cases
    case 1
    then show ?thesis using old1 by blast
  next
    case 2
    then have "d \<noteq> Doc_Id n" using sel(2)[of None] old by (auto split: option.splits)
    moreover have "world s' = snd (Insert E (DNFT n) i w1)" using run run' 2 i by auto
    ultimately show ?thesis using es_store_index_frame[OF st] old1 by (simp add: Insert_world GetID_def)
  next
    case 3
    have w: "world s' = snd (Update E (DNFT n) i (Doc_Id n) w1)"
      using run run' 3 i by (auto simp: GetID_def)
    have "stored_blockno src \<le> EsNFT_BlockNo n" if "d = Doc_Id n"
    proof -
      from sel(2)[OF 3(1)] that old obtain d0 where "EsNFT_decode src = Some d0" "x = SetID (Doc_Id n) d0"
        by auto
      then show ?thesis using 3(2) EsNFT_decode_blockno by (fastforce simp: SetID_def)
    qed
    then show ?thesis
      unfolding w using update_blockno[OF st old1] EsNFT_blockno by simp
  qed
qed

text \<open>For balances the same, unless the read by id fails: then the address counts as new.\<close>

lemma addAccountBalance_blockno:
  assumes st: "es_store E view" and run: "addAccountBalance E b s = Some (r, s')"
    and old: "view (world s) i d = Some src" and i: "i = index_name s ''account_balance''"
    and readable: "\<exists>x. fst (SelectOne E (id_params i (Doc_Id b)) EsAccountBalance_decode (world s)) = Inr x"
  shows "\<exists>src'. view (world s') i d = Some src' \<and> stored_blockno src \<le> stored_blockno src'"
proof -
  obtain q w1 where q: "SelectOne E (id_params i (Doc_Id b)) EsAccountBalance_decode (world s) = (q, w1)" by fastforce
  note sel = SelectOne_store[OF st q]
  obtain e where e: "q = Inr e" using readable q by auto
  have old1: "view w1 i d = Some src" using sel(1) old by simp
  show ?thesis
  proof (cases e)
    case None
    then have "d \<noteq> Doc_Id b" using sel(2)[OF e] old by (auto split: option.splits)
    moreover have "world s' = w1 \<or> world s' = snd (Insert E (DAccountBalance b) i w1)"
      using run q e None i
      by (auto simp: addAccountBalance_def getAccountBalance_def bnd_assoc whn_def split: if_splits)
    ultimately show ?thesis using es_store_index_frame[OF st] old1 by (auto simp: Insert_world GetID_def)
  next
    case (Some x)
    define b' where "b' = (if EsAccountBalance_BlockNo b < EsAccountBalance_BlockNo x
      then b\<lparr>EsAccountBalance_BlockNo := EsAccountBalance_BlockNo x,
        EsAccountBalance_Timestamp := EsAccountBalance_Timestamp x\<rparr> else b)"
    have b': "world s' = snd (Update E (DAccountBalance b') i (Doc_Id b) w1)"
      "EsAccountBalance_BlockNo b' = max (EsAccountBalance_BlockNo b) (EsAccountBalance_BlockNo x)"
      using run q e Some i
      by (auto simp: addAccountBalance_def getAccountBalance_def bnd_assoc GetID_def Let_def b'_def)
    have "stored_blockno src \<le> EsAccountBalance_BlockNo b'" if "d = Doc_Id b"
    proof -
      from sel(2)[OF e] that old Some
      obtain d0 where "EsAccountBalance_decode src = Some d0" "x = SetID (Doc_Id b) d0" by auto
      then show ?thesis using b'(2) EsAccountBalance_decode_blockno by (fastforce simp: SetID_def)
    qed
    then show ?thesis
      unfolding b'(1) using update_blockno[OF st old1] EsAccountBalance_blockno by simp
  qed
qed

end
