(* ===== verification/Connect.thy ===== *)
theory Connect
  imports Indexer_State
begin

text \<open>
  The connections of the indexer and its view of the two best blocks (\<open>indexer/indexer.go\<close>:
  \<open>WaitForServer\<close>, \<open>WaitForDatabase\<close>, \<open>Stop\<close>, \<open>GetBestBlock\<close>, \<open>GetBestBlockFromDb\<close>).
\<close>

text \<open>A second, in nanoseconds.\<close>

definition Second :: int where "Second = 10 ^ 9"

partial_function (option) WaitForServer :: "'e env \<Rightarrow> ('e, unit) idx" where
  "WaitForServer E ns =
     bnd (rd serverAddr) (\<lambda>addr. bnd (ext (NewAergoClient E addr)) (\<lambda>ok s.
       if ok then ret () s
       else sq (Sleep E Second) (\<lambda>s'. WaitForServer E s') s)) ns"

partial_function (option) wait_healthy :: "'e env \<Rightarrow> ('e, unit) idx" where
  "wait_healthy E ns =
     bnd (ext (HealthCheck E)) (\<lambda>ok s.
       if ok then ret () s
       else sq (Sleep E Second) (\<lambda>s'. wait_healthy E s') s) ns"

text \<open>The result is the error of creating the client.\<close>

definition WaitForDatabase :: "'e env \<Rightarrow> ('e, go_error option) idx" where
  "WaitForDatabase E =
     bnd (rd dbAddr) (\<lambda>addr. bnd (ext (NewElasticsearchDbController E addr)) (\<lambda>err. case err of
       Some e \<Rightarrow> ret (Some e)
     | None \<Rightarrow> sq (wait_healthy E) (ret None)))"

definition Stop :: "'e env \<Rightarrow> ('e, unit) idx" where
  "Stop E = bnd (rd stream) (\<lambda>st. case st of
     None \<Rightarrow> ret ()
   | Some h \<Rightarrow> sq (ext (\<lambda>w. ((), stream_CloseSend E h w))) (upd (\<lambda>s. s\<lparr>stream := None\<rparr>)))"

text \<open>A failed query counts as height 0.\<close>

definition GetBestBlock :: "'e env \<Rightarrow> ('e, uint64) idx" where
  "GetBestBlock E = bnd (ext (client_GetBestBlock E)) (\<lambda>r. ret (case r of Inl _ \<Rightarrow> 0 | Inr blockNo \<Rightarrow> blockNo))"

definition best_block_params :: "string \<Rightarrow> QueryParams" where
  "best_block_params indexName = zeroQueryParams\<lparr>IndexName := indexName, SortField := ''no'', SortAsc := False\<rparr>"

definition GetBestBlockFromDb :: "'e env \<Rightarrow> ('e, go_error + uint64) idx" where
  "GetBestBlockFromDb E =
     bnd (rd (\<lambda>ns. index_name ns ''block'')) (\<lambda>i.
     bnd (ext (SelectOne E (best_block_params i) EsBlock_decode)) (\<lambda>r. ret (case r of
       Inl err \<Rightarrow> Inl err
     | Inr None \<Rightarrow> Inl (Err ''best block not found'')
     | Inr (Some block) \<Rightarrow> Inr (EsBlock_BlockNo block))))"

end
