(* ===== verification/Bulk.thy ===== *)
theory Bulk
  imports Connect
begin

text \<open>
  The bulk channels (\<open>indexer/bulk.go\<close>): handing heights to the miners, opening and closing the
  channels, and the indexer of one channel, which collects documents and commits them.
\<close>

section \<open>Handing out heights\<close>

definition bulk_block :: "uint64 \<Rightarrow> BlockInfo" where
  "bulk_block h = \<lparr>BlockInfo_Type = BlockType_Bulk, BlockInfo_Height = h\<rparr>"

lemma word_dec_less: "l < h \<Longrightarrow> unat (h - 1) < unat h" for h l :: uint64
  by (metis uint64_dec diff_less not_less_zero unat_mono zero_less_one neq0_conv)

function insert_down :: "nat \<Rightarrow> uint64 \<Rightarrow> uint64 \<Rightarrow> ('e, unit) idx" where
  "insert_down n fromBlockHeight blockHeight =
     (if blockHeight > fromBlockHeight then
        (if n = 0 then pan DivideByZero
         else sq (emit (SendR (unat blockHeight mod n) (bulk_block blockHeight)))
                 (insert_down n fromBlockHeight (blockHeight - 1)))
      else ret ())"
  by pat_completeness auto
termination
  by (relation "measure (\<lambda>(n, l, h). unat h)") (auto simp: word_dec_less)

declare insert_down.simps [simp del]

definition InsertBlocksInRange :: "uint64 \<Rightarrow> uint64 \<Rightarrow> ('e, unit) idx" where
  "InsertBlocksInRange fromBlockHeight toBlockHeight =
     bnd (rd minerNum) (\<lambda>n.
     sq (insert_down n fromBlockHeight toBlockHeight)
        (if n = 0 then pan IndexOutOfRange else emit (SendR 0 (bulk_block fromBlockHeight))))"

section \<open>Opening and closing the channels\<close>

definition bulk_channels :: "(chan \<times> string) list" where
  "bulk_channels = [(ChBlock, ''block''), (ChTx, ''tx''), (ChEvent, ''event''), (ChContract, ''contract''),
     (ChTokenTransfer, ''token_transfer''), (ChAccTokens, ''account_tokens'')]"

definition StartBulkChannel :: "'e env \<Rightarrow> ('e, unit) idx" where
  "StartBulkChannel E =
     sq (each (\<lambda>(c, _). emit (MakeB c)) bulk_channels)
     (sq (emit MakeSynDone)
     (sq (each (\<lambda>(c, t). bnd (rd (\<lambda>ns. index_name ns t)) (\<lambda>i. emit (GoBulkIndexer c i (c = ChBlock)))) bulk_channels)
     (bnd (rd grpcNum) (\<lambda>g.
      sq (each (\<lambda>_. WaitForServer E) [0..<g])
      (bnd (rd minerNum) (\<lambda>n.
       each (\<lambda>i. sq (emit (MakeR i)) (emit (GoMiner i (if g > 0 then Some (i mod g) else None)))) [0..<n]))))))"

definition stop_miner :: BlockInfo where
  "stop_miner = \<lparr>BlockInfo_Type = BlockType_StopMiner, BlockInfo_Height = 0\<rparr>"

definition control :: "ChanType \<Rightarrow> ChanInfo" where
  "control t = \<lparr>ChanInfo_Type = t, ChanInfo_Doc = None\<rparr>"

definition StopBulkChannel :: "'e env \<Rightarrow> ('e, unit) idx" where
  "StopBulkChannel E =
     bnd (rd minerNum) (\<lambda>n.
     sq (each (\<lambda>i. sq (emit (SendR i stop_miner)) (emit (CloseR i))) [0..<n])
     (sq (Sleep E (5 * Second))
     (sq (emit (SendB ChBlock (control ChanType_Commit)))
     (sq (Sleep E (5 * Second))
     (sq (each (\<lambda>(c, _). emit (SendB c (control ChanType_StopBulk))) bulk_channels)
     (sq (each (\<lambda>(c, _). emit (CloseB c)) bulk_channels)
     (emit CloseSynDone)))))))"

section \<open>The indexer of a channel\<close>

record BulkState =
  bi_bulk :: EsBulkInstance
  bi_total :: int32
  bi_begin :: time
  bi_return_flag :: bool

definition now :: "'e env \<Rightarrow> ('e, time) idx" where
  "now E = ext (clock_Now E)"

text \<open>The commit: the indexer of blocks first has the five others commit and waits for them; a failed commit
  stops the bulk indexing.\<close>

definition commitBulk :: "'e env \<Rightarrow> bool \<Rightarrow> bool \<Rightarrow> BulkState \<Rightarrow> ('e, BulkState) idx" where
  "commitBulk E isBlock sync st =
     (if bi_total st = 0 then
        sq (whn (sync \<and> \<not> isBlock) (emit SendSynDone)) (ret (st\<lparr>bi_return_flag := True\<rparr>))
      else
        sq (whn isBlock
             (sq (each (\<lambda>c. emit (SendB c (control ChanType_Commit)))
                   [ChTx, ChEvent, ChContract, ChTokenTransfer, ChAccTokens])
                 (each (\<lambda>_. emit RecvSynDone) [0..<5])))
        (bnd (ext (\<lambda>w. case Commit E (bi_bulk st) w of (err, b, w') \<Rightarrow> ((err, b), w'))) (\<lambda>(err, b).
         sq (whn (sync \<and> \<not> isBlock) (emit SendSynDone))
         (sq (whn (err \<noteq> None) (StopBulkChannel E))
         (bnd (now E) (\<lambda>_. bnd (now E) (\<lambda>t.
           ret \<lparr>bi_bulk = b, bi_total = 0, bi_begin = t, bi_return_flag = True\<rparr>)))))))"

text \<open>One message; the result says whether to go on.\<close>

definition bulk_message :: "'e env \<Rightarrow> bool \<Rightarrow> int32 \<Rightarrow> ChanInfo \<Rightarrow> BulkState \<Rightarrow> ('e, bool \<times> BulkState) idx" where
  "bulk_message E isBlock bsize I st =
     (if ChanInfo_Type I = ChanType_StopBulk then ret (False, st)
      else if ChanInfo_Type I = ChanType_Commit then
        bnd (commitBulk E isBlock True st) (\<lambda>st'. ret (True, st'))
      else
        bnd (if sint (bi_total st) \<ge> sint bsize then commitBulk E isBlock False st else ret st) (\<lambda>st'.
        bnd (lft (deref (ChanInfo_Doc I))) (\<lambda>d.
          ret (True, st'\<lparr>bi_total := bi_total st' + 1, bi_bulk := Add d (bi_bulk st')\<rparr>))))"

primrec bulk_loop :: "'e env \<Rightarrow> bool \<Rightarrow> int32 \<Rightarrow> BulkState \<Rightarrow> ChanInfo list \<Rightarrow> ('e, BulkState) idx" where
  "bulk_loop E isBlock bsize st [] = ret st"
| "bulk_loop E isBlock bsize st (I # Is) =
     bnd (bulk_message E isBlock bsize I st) (\<lambda>(go_on, st').
       if go_on then bulk_loop E isBlock bsize st' Is else ret st')"

text \<open>The messages received on the channel, up to its closing. (The time-out goroutine is below.)\<close>

definition BulkIndexer :: "'e env \<Rightarrow> string \<Rightarrow> int32 \<Rightarrow> bool \<Rightarrow> ChanInfo list \<Rightarrow> ('e, BulkState) idx" where
  "BulkIndexer E indexName bsize isBlock Is =
     bnd (now E) (\<lambda>t.
       bulk_loop E isBlock bsize
         \<lparr>bi_bulk = InsertBulk indexName, bi_total = 0, bi_begin = t, bi_return_flag = False\<rparr> Is)"

text \<open>One round of the time-out goroutine of the block channel: it ends when the flag is set, which every commit
  does; otherwise it sleeps and may ask for a commit. \<open>st\<close> is the state the indexer has before the round, \<open>st'\<close>
  after the sleep.\<close>

definition timeout_round :: "'e env \<Rightarrow> int \<Rightarrow> BulkState \<Rightarrow> BulkState \<Rightarrow> ('e, bool) idx" where
  "timeout_round E batch st st' =
     (if bi_return_flag st then ret False
      else sq (Sleep E batch) (bnd (now E) (\<lambda>t.
        sq (whn (0 < sint (bi_total st') \<and> t - bi_begin st' > batch)
             (emit (SendB ChBlock (control ChanType_Commit))))
           (ret True))))"

section \<open>Lemmas\<close>

text \<open>The heights handed out: downwards from the top to above the bottom, then the bottom, each to its miner.\<close>

definition handed :: "nat \<Rightarrow> uint64 \<Rightarrow> uint64 \<Rightarrow> action list" where
  "handed n lo hi = map (\<lambda>h. SendR (h mod n) (bulk_block (of_nat h))) (rev [Suc (unat lo)..<Suc (unat hi)])
     @ [SendR 0 (bulk_block lo)]"

lemma insert_down_run:
  assumes "0 < n"
  shows "insert_down n lo hi s = Some (Ret (), s\<lparr>acts := acts s @
    map (\<lambda>h. SendR (h mod n) (bulk_block (of_nat h))) (rev [Suc (unat lo)..<Suc (unat hi)])\<rparr>)"
  using assms
proof (induction n lo hi arbitrary: s rule: insert_down.induct)
  case (1 n lo hi)
  show ?case
  proof (cases "lo < hi")
    case True
    then have d: "unat (hi - 1) = unat hi - 1" "unat lo < unat hi" by (auto simp: uint64_dec unat_mono)
    then have "rev [Suc (unat lo)..<Suc (unat hi)] = unat hi # rev [Suc (unat lo)..<Suc (unat (hi - 1))]"
      by simp
    then show ?thesis
      using 1 True by (subst insert_down.simps) (simp del: upt_Suc)
  next
    case False
    then have "[Suc (unat lo)..<Suc (unat hi)] = []" by (simp add: word_le_nat_alt not_less)
    with False show ?thesis by (subst insert_down.simps) simp
  qed
qed

lemma InsertBlocksInRange_run:
  assumes "0 < minerNum s"
  shows "InsertBlocksInRange lo hi s = Some (Ret (), s\<lparr>acts := acts s @ handed (minerNum s) lo hi\<rparr>)"
  using assms by (simp add: InsertBlocksInRange_def handed_def sq_Ret[OF insert_down_run])

text \<open>The heights of a list of messages to the miners.\<close>

definition bulk_heights :: "action list \<Rightarrow> nat list" where
  "bulk_heights l = List.map_filter (\<lambda>a. case a of
     SendR i info \<Rightarrow> if BlockInfo_Type info = BlockType_Bulk then Some (unat (BlockInfo_Height info)) else None
   | _ \<Rightarrow> None) l"

lemma bulk_heights_append [simp]: "bulk_heights (k @ l) = bulk_heights k @ bulk_heights l"
  by (simp add: bulk_heights_def List.map_filter_def)

text \<open>Every height of the range once, in descending order; an empty range still hands out its bottom.\<close>

lemma handed_heights: "bulk_heights (handed n lo hi) = rev [Suc (unat lo)..<Suc (unat hi)] @ [unat lo]"
proof -
  have "h \<le> unat hi \<Longrightarrow> unat (of_nat h :: uint64) = h" for h
    by (metis le_unat_uoi)
  then have "map (\<lambda>h. unat (of_nat h :: uint64)) (rev [Suc (unat lo)..<Suc (unat hi)]) =
      rev [Suc (unat lo)..<Suc (unat hi)]"
    by (intro map_idI) auto
  then show ?thesis
    by (simp add: bulk_heights_def handed_def List.map_filter_def bulk_block_def comp_def del: upt_Suc)
qed

lemma handed_range: "lo \<le> hi \<Longrightarrow> bulk_heights (handed n lo hi) = rev [unat lo..<Suc (unat hi)]"
  by (simp add: handed_heights word_le_nat_alt upt_rec[of "unat lo"])

lemma handed_routes:
  assumes "a \<in> set (handed n lo hi)" and "lo \<le> hi"
  obtains h where "lo \<le> h" "h \<le> hi" "a = SendR (unat h mod n) (bulk_block h) \<or> a = SendR 0 (bulk_block h) \<and> h = lo"
proof -
  from assms(1) consider "a = SendR 0 (bulk_block lo)"
    | h where "h \<in> set [Suc (unat lo)..<Suc (unat hi)]" "a = SendR (h mod n) (bulk_block (of_nat h))"
    unfolding handed_def by (auto simp del: upt_Suc)
  then show thesis
  proof cases
    case 1
    then show thesis using that[of lo] assms(2) by simp
  next
    case (2 h)
    then have h: "unat lo < h" "h \<le> unat hi" by auto
    then have "unat (of_nat h :: uint64) = h" by (metis le_unat_uoi)
    with 2 h show thesis using that[of "of_nat h"] by (simp add: word_le_nat_alt)
  qed
qed

text \<open>Closing: every miner is told to stop before its channel is closed, then the bulk channels are.\<close>

lemma each_emit: "each (\<lambda>x. emit (f x)) xs s = Some (Ret (), s\<lparr>acts := acts s @ map f xs\<rparr>)"
  by (induction xs arbitrary: s) simp_all

lemma each_emit2: "each (\<lambda>x. sq (emit (f x)) (emit (g x))) xs s =
    Some (Ret (), s\<lparr>acts := acts s @ concat (map (\<lambda>x. [f x, g x]) xs)\<rparr>)"
  by (induction xs arbitrary: s) (simp_all add: sq_assoc)

definition closing :: "nat \<Rightarrow> action list" where
  "closing n = concat (map (\<lambda>i. [SendR i stop_miner, CloseR i]) [0..<n])
     @ SendB ChBlock (control ChanType_Commit)
     # map (\<lambda>(c, _). SendB c (control ChanType_StopBulk)) bulk_channels
     @ map (\<lambda>(c, _). CloseB c) bulk_channels @ [CloseSynDone]"

lemma split_emit: "(\<lambda>(c, t). emit (f c t)) = (\<lambda>x. emit (case x of (c, t) \<Rightarrow> f c t))"
  by (auto simp: fun_eq_iff)

lemma StopBulkChannel_run: "StopBulkChannel E s = Some (Ret (), s\<lparr>acts := acts s @ closing (minerNum s),
    world := clock_Sleep E (5 * Second) (clock_Sleep E (5 * Second) (world s))\<rparr>)"
  by (simp add: StopBulkChannel_def sq_Ret[OF each_emit2] sq_Ret[OF Sleep_run] split_emit
      sq_Ret[OF each_emit] closing_def sq_assoc)

lemma closing_heights [simp]: "bulk_heights (closing n) = []"
proof -
  have "bulk_heights (concat (map (\<lambda>i. [SendR i stop_miner, CloseR i]) is)) = []" for "is"
    by (induction "is") (simp_all add: bulk_heights_def List.map_filter_def stop_miner_def)
  then show ?thesis
    by (simp add: closing_def bulk_channels_def) (simp add: bulk_heights_def List.map_filter_def)
qed

section \<open>Commits\<close>

text \<open>A channel that is not the one of blocks answers every commit request with exactly one signal.\<close>

definition syn_dones :: "action list \<Rightarrow> nat" where
  "syn_dones l = length (filter (\<lambda>a. a = SendSynDone) l)"

lemma commitBulk_other:
  "\<exists>st' s' l. commitBulk E False True st s = Some (Ret st', s') \<and> acts s' = acts s @ l \<and>
    (\<exists>l'. l = SendSynDone # l' \<and> syn_dones l' = 0) \<and> (bi_total st \<noteq> 0 \<longrightarrow> bi_total st' = 0) \<and> bi_return_flag st'"
proof (cases "bi_total st = 0")
  case True
  then show ?thesis by (simp add: commitBulk_def syn_dones_def)
next
  case False
  obtain err b w where c: "Commit E (bi_bulk st) (world s) = (err, b, w)" by (metis prod_cases3)
  have "syn_dones (closing n) = 0" for n
  proof -
    have "filter (\<lambda>a. a = SendSynDone) (concat (map (\<lambda>i. [SendR i stop_miner, CloseR i]) is)) = []" for "is"
      by (induction "is") simp_all
    then show ?thesis by (simp add: syn_dones_def closing_def bulk_channels_def)
  qed
  then show ?thesis
    using False c by (cases "err = None") (auto simp: commitBulk_def now_def sq_Ret[OF StopBulkChannel_run] syn_dones_def)
qed

end
