(* ===== verification/Check.thy ===== *)
theory Check
  imports Bulk
begin

text \<open>
  The consistency check (\<open>indexer/run_check.go\<close>): the numbers of the indexed blocks are scrolled from the
  top, and the heights between them are handed to the miners.
\<close>

definition check_params :: "string \<Rightarrow> uint64 \<Rightarrow> uint64 \<Rightarrow> QueryParams" where
  "check_params indexName startFrom stopAt = zeroQueryParams\<lparr>IndexName := indexName, TypeName := ''_doc'',
     SelectFields := [''no''], Query_Size := 10000, SortField := ''no'', SortAsc := False,
     From := startFrom, To := stopAt\<rparr>"

text \<open>The loop over the scroll; the results are the last \<open>prevBlockNo\<close> and \<open>blockNo\<close>.\<close>

partial_function (option) check_loop ::
  "'e env \<Rightarrow> uint64 \<Rightarrow> uint64 \<Rightarrow> uint64 \<Rightarrow> EsScrollInstance \<Rightarrow> ('e, uint64 \<times> uint64) idx" where
  "check_loop E startFrom prevBlockNo blockNo scroll ns =
     bnd (next_doc E EsBlock_decode scroll) (\<lambda>(r, scroll') s.
       if r = Inl EOF then ret (prevBlockNo, blockNo) s
       else case r of
         Inl _ \<Rightarrow> sq (Sleep E Second) (\<lambda>s'. check_loop E startFrom prevBlockNo blockNo scroll' s') s
       | Inr block \<Rightarrow>
          if EsBlock_BlockNo block \<ge> prevBlockNo
          then check_loop E startFrom prevBlockNo (EsBlock_BlockNo block) scroll' s
          else if EsBlock_BlockNo block \<le> startFrom then ret (prevBlockNo, EsBlock_BlockNo block) s
          else sq (whn (EsBlock_BlockNo block < prevBlockNo - 1)
                    (InsertBlocksInRange (EsBlock_BlockNo block + 1) (prevBlockNo - 1)))
                 (\<lambda>s'. check_loop E startFrom (EsBlock_BlockNo block) (EsBlock_BlockNo block) scroll' s') s) ns"

definition checkIndex :: "'e env \<Rightarrow> uint64 \<Rightarrow> uint64 \<Rightarrow> ('e, unit) idx" where
  "checkIndex E startFrom stopAt =
     sq (StartBulkChannel E)
     (bnd (rd (\<lambda>ns. Scroll (check_params (index_name ns ''block'') startFrom stopAt))) (\<lambda>scroll.
      bnd (check_loop E startFrom (stopAt + 1) (startFrom + 1) scroll) (\<lambda>(prevBlockNo, blockNo).
      sq (whn (blockNo \<noteq> startFrom \<and> prevBlockNo > startFrom)
            (InsertBlocksInRange startFrom (prevBlockNo - 1)))
         (StopBulkChannel E))))"

definition fixIndex :: "'e env \<Rightarrow> uint64 \<Rightarrow> uint64 \<Rightarrow> ('e, unit) idx" where
  "fixIndex E startFrom stopAt =
     sq (StartBulkChannel E) (sq (InsertBlocksInRange startFrom stopAt) (StopBulkChannel E))"

definition Check :: "'e env \<Rightarrow> uint64 \<Rightarrow> uint64 \<Rightarrow> ('e, unit) idx" where
  "Check E startFrom stopAt =
     bnd (if stopAt = 0 then bnd (GetBestBlock E) (\<lambda>b. ret (b - 1)) else ret stopAt) (\<lambda>stopAt'.
     bnd (rd fixMode) (\<lambda>fx.
       if fx then fixIndex E startFrom stopAt' else checkIndex E startFrom stopAt'))"

section \<open>Cleaning\<close>

definition delete_by :: "'e env \<Rightarrow> string \<Rightarrow> string \<Rightarrow> string \<Rightarrow> ('e, unit) idx" where
  "delete_by E documentType field v =
     bnd (rd (\<lambda>ns. index_name ns documentType)) (\<lambda>i.
     bnd (ext (Delete E (zeroQueryParams\<lparr>IndexName := i,
            StringMatch := Some \<lparr>Match_Field = field, Match_Value = v\<rparr>\<rparr>))) (\<lambda>_. ret ()))"

definition cleanIndex :: "'e env \<Rightarrow> ('e, go_error option) idx" where
  "cleanIndex E =
     bnd (ScrollToken E (\<lambda>tokenDoc tokens. ret (EsToken_TokenAddress tokenDoc # tokens)) []) (\<lambda>tokens.
     sq (ScrollTokenTransfer E (\<lambda>transferDoc _.
           whn (EsTokenTransfer_TokenAddress transferDoc \<notin> set tokens)
             (delete_by E ''token_transfer'' ''address'' (EsTokenTransfer_TokenAddress transferDoc))) ())
     (sq (ScrollAccountTokens E (\<lambda>accountDoc _.
           whn (EsAccountTokens_TokenAddress accountDoc \<notin> set tokens)
             (delete_by E ''account_tokens'' ''address'' (EsAccountTokens_TokenAddress accountDoc))) ())
     (sq (ScrollBalance E (\<lambda>balanceDoc _.
           whn (IsBalanceNotResolved E (Doc_Id balanceDoc))
             (delete_by E ''account_balance'' ''_id'' (Doc_Id balanceDoc))) ())
     (ret None))))"

section \<open>What the check hands out\<close>

text \<open>The loop as a function of the numbers delivered: the ranges handed out, the last two variables.\<close>

fun scan :: "uint64 \<Rightarrow> uint64 \<Rightarrow> uint64 \<Rightarrow> uint64 list \<Rightarrow> (uint64 \<times> uint64) list \<times> uint64 \<times> uint64" where
  "scan startFrom prev no [] = ([], prev, no)"
| "scan startFrom prev no (b # bs) =
     (if b \<ge> prev then scan startFrom prev b bs
      else if b \<le> startFrom then ([], prev, b)
      else (case scan startFrom b b bs of (rs, p, n) \<Rightarrow>
        ((if b < prev - 1 then [(b + 1, prev - 1)] else []) @ rs, p, n)))"

text \<open>The final range.\<close>

definition ranges :: "uint64 \<Rightarrow> uint64 \<Rightarrow> uint64 list \<Rightarrow> (uint64 \<times> uint64) list" where
  "ranges startFrom stopAt bs = (case scan startFrom (stopAt + 1) (startFrom + 1) bs of (rs, prev, no) \<Rightarrow>
     rs @ (if no \<noteq> startFrom \<and> prev > startFrom then [(startFrom, prev - 1)] else []))"

definition handed_ranges :: "nat \<Rightarrow> (uint64 \<times> uint64) list \<Rightarrow> action list" where
  "handed_ranges n rs = concat (map (\<lambda>(lo, hi). handed n lo hi) rs)"

text \<open>A break leaves the rest of the scroll unread.\<close>

lemma check_loop_run:
  assumes "delivers (Next E EsBlock_decode) (clock_Sleep E Second) scroll w ds scroll' w'"
    and "world s = w" and "0 < minerNum s"
    and "scan startFrom prev no (map EsBlock_BlockNo ds) = (rs, p, n)"
  shows "\<exists>w1. check_loop E startFrom prev no scroll s =
    Some (Ret (p, n), s\<lparr>acts := acts s @ handed_ranges (minerNum s) rs, world := w1\<rparr>)"
  using assms
proof (induction arbitrary: s prev no rs rule: delivers.induct)
  case (eof sc w sc' w')
  then show ?case by (subst check_loop.simps) (auto simp: next_doc_def handed_ranges_def)
next
  case (err sc w e s1 w1 ds s' w')
  from err.IH[of "s\<lparr>world := clock_Sleep E Second w1\<rparr>" prev no rs] err.prems err.hyps(1,2)
  show ?case by (subst check_loop.simps) (simp add: next_doc_def sq_Ret[OF Sleep_run])
next
  case (doc sc w d s1 w1 ds s' w')
  let ?b = "EsBlock_BlockNo d"
  consider "prev \<le> ?b" | "?b < prev" "?b \<le> startFrom" | "?b < prev" "startFrom < ?b" by fastforce
  then show ?case
  proof cases
    case 1
    from doc.IH[of "s\<lparr>world := w1\<rparr>" prev ?b rs] doc.prems doc.hyps(1) 1
    show ?thesis by (subst check_loop.simps) (simp add: next_doc_def)
  next
    case 2
    then show ?thesis using doc.prems doc.hyps(1)
      by (subst check_loop.simps) (auto simp: next_doc_def handed_ranges_def)
  next
    case 3
    then have n3: "(prev \<le> ?b) = False" "(?b \<le> startFrom) = False" by auto
    obtain rs1 where r: "scan startFrom ?b ?b (map EsBlock_BlockNo ds) = (rs1, p, n)"
      "rs = (if ?b < prev - 1 then [(?b + 1, prev - 1)] else []) @ rs1"
      using doc.prems(3) n3 by (auto split: prod.splits)
    let ?s = "s\<lparr>world := w1, acts := acts s @ handed_ranges (minerNum s)
      (if ?b < prev - 1 then [(?b + 1, prev - 1)] else [])\<rparr>"
    from doc.IH[of ?s ?b ?b rs1] doc.prems r(1) obtain w2 where
      IH: "check_loop E startFrom ?b ?b s1 ?s = Some (Ret (p, n), ?s\<lparr>acts := acts ?s @ handed_ranges (minerNum s) rs1, world := w2\<rparr>)"
      by auto
    show ?thesis
      using doc.prems(1,2) doc.hyps(1) n3 IH r(2)
      by (subst check_loop.simps)
        (auto simp: next_doc_def sq_Ret[OF InsertBlocksInRange_run] handed_ranges_def)
  qed
qed

text \<open>The heights of the ranges, in the order they are handed out.\<close>

definition range_heights :: "(uint64 \<times> uint64) list \<Rightarrow> nat list" where
  "range_heights rs = concat (map (\<lambda>(lo, hi). rev [unat lo..<Suc (unat hi)]) rs)"

lemma handed_ranges_heights:
  "\<forall>(lo, hi) \<in> set rs. lo \<le> hi \<Longrightarrow> bulk_heights (handed_ranges n rs) = range_heights rs"
  by (induction rs) (auto simp: handed_ranges_def range_heights_def handed_range, simp add: bulk_heights_def List.map_filter_def)

lemma range_heights_simps [simp]:
  "range_heights [] = []"
  "range_heights (rs @ rs') = range_heights rs @ range_heights rs'"
  "range_heights ((lo, hi) # rs) = rev [unat lo..<Suc (unat hi)] @ range_heights rs"
  by (simp_all add: range_heights_def)

text \<open>The heights between an indexed block and the one above it.\<close>

lemma gap_heights:
  assumes "b < prev"
  shows "range_heights (if b < prev - 1 then [(b + 1, prev - 1)] else []) = rev [Suc (unat b)..<unat prev]"
    and "\<forall>(lo, hi) \<in> set (if b < prev - 1 then [(b + 1, prev - 1)] else []). lo \<le> hi"
proof -
  have d: "unat (prev - 1) = unat prev - 1" "unat b < unat prev" using assms by (auto simp: uint64_dec unat_mono)
  have i: "unat (b + 1) = Suc (unat b)" using uint64_inc[OF assms] by simp
  have lt: "b < prev - 1 \<longleftrightarrow> unat b < unat prev - 1" by (simp add: word_less_nat_alt d(1))
  show "range_heights (if b < prev - 1 then [(b + 1, prev - 1)] else []) = rev [Suc (unat b)..<unat prev]"
    using d i by (auto simp: lt simp del: upt_Suc)
  show "\<forall>(lo, hi) \<in> set (if b < prev - 1 then [(b + 1, prev - 1)] else []). lo \<le> hi"
    using d i by (auto simp: lt word_le_nat_alt)
qed

lemma scan_above:
  assumes "sorted_wrt (\<ge>) bs" and "\<forall>b \<in> set bs. startFrom < b \<and> b \<le> prev" and "scan startFrom prev no bs = (rs, p, n)"
  shows "p = last (prev # bs) \<and> n = last (no # bs) \<and> (\<forall>(lo, hi) \<in> set rs. lo \<le> hi) \<and>
    range_heights rs = rev (filter (\<lambda>h. h \<notin> unat ` set bs) [unat p..<unat prev])"
  using assms
proof (induction bs arbitrary: prev no rs)
  case Nil
  then show ?case by simp
next
  case (Cons b bs)
  have srt: "sorted_wrt (\<ge>) bs" "\<forall>x \<in> set bs. x \<le> b" using Cons.prems(1) by auto
  have pre: "\<forall>x \<in> set bs. startFrom < x \<and> x \<le> b" "\<forall>x \<in> set bs. startFrom < x \<and> x \<le> prev"
    using Cons.prems(2) srt by auto
  have st: "(b \<le> startFrom) = False" using Cons.prems(2) by auto
  show ?case
  proof (cases "prev \<le> b")
    case True
    then have "b = prev" using Cons.prems(2) by auto
    moreover from True Cons.prems(3) have "scan startFrom prev b bs = (rs, p, n)" by simp
    note IH = Cons.IH[OF srt(1) pre(2) this]
    have "filter (\<lambda>h. h \<notin> unat ` set (prev # bs)) [unat p..<unat prev] = filter (\<lambda>h. h \<notin> unat ` set bs) [unat p..<unat prev]"
      by (rule filter_cong) auto
    ultimately show ?thesis using IH by auto
  next
    case False
    then have lt: "b < prev" by simp
    obtain rs1 where r: "scan startFrom b b bs = (rs1, p, n)"
      "rs = (if b < prev - 1 then [(b + 1, prev - 1)] else []) @ rs1"
      using Cons.prems(3) False st by (auto split: prod.splits)
    note IH = Cons.IH[OF srt(1) pre(1) r(1)]
    then have IH4: "range_heights rs1 = rev (filter (\<lambda>h. h \<notin> unat ` set bs) [unat p..<unat b])" by blast
    have pb: "unat p \<le> unat b" using IH srt(2) by (auto simp: word_le_nat_alt)
    have lt': "unat b < unat prev" using lt by (rule unat_mono)
    have split: "[unat p..<unat prev] = [unat p..<unat b] @ unat b # [Suc (unat b)..<unat prev]"
      using pb lt' by (metis upt_conv_Cons upt_add_eq_append le_add_diff_inverse less_imp_le order_trans)
    have hi: "filter (\<lambda>h. h \<notin> unat ` set (b # bs)) [Suc (unat b)..<unat prev] = [Suc (unat b)..<unat prev]"
      using srt(2) by (auto simp: filter_id_conv word_le_nat_alt)
    have lo: "filter (\<lambda>h. h \<notin> unat ` set (b # bs)) [unat p..<unat b] = filter (\<lambda>h. h \<notin> unat ` set bs) [unat p..<unat b]"
      by (rule filter_cong) auto
    have "range_heights rs = rev (filter (\<lambda>h. h \<notin> unat ` set (b # bs)) [unat p..<unat prev])"
      unfolding split r(2) range_heights_simps gap_heights(1)[OF lt] IH4 filter_append rev_append
      using hi lo by (simp del: upt_Suc)
    then show ?thesis using IH gap_heights(2)[OF lt] r(2) by auto
  qed
qed

lemma scan_stops:
  "\<forall>b \<in> set cs. startFrom < b \<Longrightarrow> startFrom < prev \<Longrightarrow> scan startFrom prev no cs = (rs, p, n) \<Longrightarrow>
    scan startFrom prev no (cs @ startFrom # rest) = (rs, p, startFrom)"
proof (induction cs arbitrary: prev no rs)
  case (Cons b cs)
  then have "(b \<le> startFrom) = False" by auto
  with Cons show ?case by (auto split: prod.splits if_splits)
qed auto

text \<open>The lower bound itself is not indexed: exactly the missing heights of the range are handed out, in descending order.\<close>

lemma ranges_missing:
  assumes "sorted_wrt (\<ge>) bs" and "\<forall>b \<in> set bs. startFrom < b \<and> b \<le> stopAt"
    and "startFrom \<le> stopAt" and "stopAt \<noteq> - 1"
  shows "range_heights (ranges startFrom stopAt bs) =
      rev (filter (\<lambda>h. h \<notin> unat ` set bs) [unat startFrom..<Suc (unat stopAt)])"
    and "\<forall>(lo, hi) \<in> set (ranges startFrom stopAt bs). lo \<le> hi"
proof -
  obtain rs p n where sc: "scan startFrom (stopAt + 1) (startFrom + 1) bs = (rs, p, n)" by (metis prod_cases3)
  have top: "unat (stopAt + 1) = Suc (unat stopAt)" using uint64_inc_max[OF assms(4)] by simp
  have le: "\<forall>b \<in> set bs. startFrom < b \<and> b \<le> stopAt + 1"
    using assms(2) top by (auto simp: word_le_nat_alt)
  note A = scan_above[OF assms(1) le sc]
  have st1: "startFrom < stopAt + 1" using assms(3) top by (simp add: word_less_nat_alt word_le_nat_alt)
  then have p: "startFrom < p" using A le by (auto split: if_splits)
  have "startFrom \<noteq> - 1" using assms(3,4) by (metis word_order.extremum_uniqueI)
  then have "startFrom + 1 \<noteq> startFrom" by simp
  then have n: "n \<noteq> startFrom" using A le by (auto split: if_splits)
  have R: "ranges startFrom stopAt bs = rs @ [(startFrom, p - 1)]"
    using sc n p by (simp add: ranges_def)
  have pd: "unat (p - 1) = unat p - 1" "unat startFrom < unat p" using p by (auto simp: uint64_dec unat_mono)
  have ple: "unat p \<le> Suc (unat stopAt)" using A assms(2) top last_in_set[of bs]
    by (cases "bs = []") (auto simp: word_le_nat_alt le_SucI simp del: last_in_set)
  have split: "[unat startFrom..<Suc (unat stopAt)] = [unat startFrom..<unat p] @ [unat p..<Suc (unat stopAt)]"
    using pd(2) ple by (metis upt_add_eq_append le_add_diff_inverse less_imp_le)
  have "\<forall>b \<in> set bs. p \<le> b"
    using A assms(1) by (cases bs rule: rev_cases) (auto simp: sorted_wrt_append)
  then have lo: "filter (\<lambda>h. h \<notin> unat ` set bs) [unat startFrom..<unat p] = [unat startFrom..<unat p]"
    by (auto simp: filter_id_conv word_le_nat_alt)
  have A4: "range_heights rs = rev (filter (\<lambda>h. h \<notin> unat ` set bs) [unat p..<Suc (unat stopAt)])"
    using A top by simp
  show "range_heights (ranges startFrom stopAt bs) =
      rev (filter (\<lambda>h. h \<notin> unat ` set bs) [unat startFrom..<Suc (unat stopAt)])"
    unfolding R split filter_append rev_append lo range_heights_simps A4
    using pd by (simp del: upt_Suc)
  show "\<forall>(lo, hi) \<in> set (ranges startFrom stopAt bs). lo \<le> hi"
    using R A pd by (auto simp: word_le_nat_alt)
qed

text \<open>The lower bound is indexed: the heights between it and the next indexed block above are never handed out.\<close>

lemma ranges_gap:
  assumes "sorted_wrt (\<ge>) cs" and "\<forall>b \<in> set cs. startFrom < b \<and> b \<le> stopAt"
    and "startFrom \<le> stopAt" and "stopAt \<noteq> - 1"
  shows "range_heights (ranges startFrom stopAt (cs @ startFrom # rest)) =
      rev (filter (\<lambda>h. h \<notin> unat ` set cs) [unat (last ((stopAt + 1) # cs))..<Suc (unat stopAt)])"
    and "\<forall>(lo, hi) \<in> set (ranges startFrom stopAt (cs @ startFrom # rest)). lo \<le> hi"
proof -
  obtain rs p n where sc: "scan startFrom (stopAt + 1) (startFrom + 1) cs = (rs, p, n)" by (metis prod_cases3)
  have top: "unat (stopAt + 1) = Suc (unat stopAt)" using uint64_inc_max[OF assms(4)] by simp
  have le: "\<forall>b \<in> set cs. startFrom < b \<and> b \<le> stopAt + 1"
    using assms(2) top by (auto simp: word_le_nat_alt)
  have st1: "startFrom < stopAt + 1" using assms(3) top by (simp add: word_less_nat_alt word_le_nat_alt)
  note A = scan_above[OF assms(1) le sc]
  have R: "ranges startFrom stopAt (cs @ startFrom # rest) = rs"
    using scan_stops[OF _ st1 sc] le by (simp add: ranges_def)
  show "range_heights (ranges startFrom stopAt (cs @ startFrom # rest)) =
      rev (filter (\<lambda>h. h \<notin> unat ` set cs) [unat (last ((stopAt + 1) # cs))..<Suc (unat stopAt)])"
    "\<forall>(lo, hi) \<in> set (ranges startFrom stopAt (cs @ startFrom # rest)). lo \<le> hi"
    using A top unfolding R by simp_all
qed

section \<open>The whole check\<close>

text \<open>A node that accepts connections.\<close>

definition accepting :: "'e env \<Rightarrow> bool" where
  "accepting E \<longleftrightarrow> (\<forall>addr w. fst (rpc_Dial E addr w))"

lemma WaitForServer_accepting:
  "accepting E \<Longrightarrow> WaitForServer E s = Some (Ret (), s\<lparr>world := snd (rpc_Dial E (serverAddr s) (world s))\<rparr>)"
  by (subst WaitForServer.simps) (simp add: NewAergoClient_def accepting_def)

primrec dials :: "'e env \<Rightarrow> string \<Rightarrow> nat \<Rightarrow> 'e \<Rightarrow> 'e" where
  "dials E addr 0 w = w"
| "dials E addr (Suc n) w = dials E addr n (snd (rpc_Dial E addr w))"

lemma each_WaitForServer:
  "accepting E \<Longrightarrow> each (\<lambda>_. WaitForServer E) xs s =
    Some (Ret (), s\<lparr>world := dials E (serverAddr s) (length xs) (world s)\<rparr>)"
  by (induction xs arbitrary: s) (simp_all add: sq_Ret[OF WaitForServer_accepting])

definition opening_acts :: "'e Indexer \<Rightarrow> action list" where
  "opening_acts s = map (\<lambda>(c, _). MakeB c) bulk_channels @ MakeSynDone
     # map (\<lambda>(c, t). GoBulkIndexer c (index_name s t) (c = ChBlock)) bulk_channels
     @ concat (map (\<lambda>i. [MakeR i, GoMiner i (if grpcNum s > 0 then Some (i mod grpcNum s) else None)]) [0..<minerNum s])"

lemma StartBulkChannel_run:
  assumes "accepting E"
  shows "StartBulkChannel E s = Some (Ret (), s\<lparr>acts := acts s @ opening_acts s,
    world := dials E (serverAddr s) (grpcNum s) (world s)\<rparr>)"
proof -
  have go: "each (\<lambda>(c, t). bnd (rd (\<lambda>ns. index_name ns t)) (\<lambda>i. emit (GoBulkIndexer c i (c = ChBlock)))) bulk_channels s' =
    Some (Ret (), s'\<lparr>acts := acts s' @ map (\<lambda>(c, t). GoBulkIndexer c (index_name s' t) (c = ChBlock)) bulk_channels\<rparr>)"
    for s' :: "'e Indexer"
    by (simp add: bulk_channels_def sq_def bnd_assoc) (simp add: bnd_def)
  then show ?thesis
    by (simp add: StartBulkChannel_def split_emit sq_Ret[OF each_emit] sq_Ret[OF each_WaitForServer[OF assms]]
        each_emit2 opening_acts_def sq_Ret[OF go] cong: if_cong)
qed

lemma opening_heights [simp]: "bulk_heights (opening_acts s) = []"
proof -
  have "bulk_heights (concat (map (\<lambda>i. [MakeR i, GoMiner i (f i)]) is)) = []" for f "is"
    by (induction "is") (simp_all add: bulk_heights_def List.map_filter_def)
  then show ?thesis
    by (simp add: opening_acts_def bulk_channels_def) (simp add: bulk_heights_def List.map_filter_def)
qed

lemma each_ranges: "ranges startFrom stopAt bs = (case scan startFrom (stopAt + 1) (startFrom + 1) bs of (rs, prev, no) \<Rightarrow>
    rs @ (if no \<noteq> startFrom \<and> prev > startFrom then [(startFrom, prev - 1)] else []))"
  by (simp add: ranges_def)

text \<open>What the check does to the channels: it opens them, hands out the ranges, and closes them.\<close>

lemma checkIndex_run:
  assumes "accepting E" and "0 < minerNum s"
    and "delivers (Next E EsBlock_decode) (clock_Sleep E Second)
      (Scroll (check_params (index_name s ''block'') startFrom stopAt))
      (dials E (serverAddr s) (grpcNum s) (world s)) ds scroll' w'"
  shows "\<exists>w1. checkIndex E startFrom stopAt s = Some (Ret (), s\<lparr>acts := acts s @ opening_acts s
      @ handed_ranges (minerNum s) (ranges startFrom stopAt (map EsBlock_BlockNo ds)) @ closing (minerNum s),
    world := w1\<rparr>)"
proof -
  obtain rs p n where sc: "scan startFrom (stopAt + 1) (startFrom + 1) (map EsBlock_BlockNo ds) = (rs, p, n)"
    by (metis prod_cases3)
  let ?s1 = "s\<lparr>acts := acts s @ opening_acts s, world := dials E (serverAddr s) (grpcNum s) (world s)\<rparr>"
  obtain w1 where c: "check_loop E startFrom (stopAt + 1) (startFrom + 1)
      (Scroll (check_params (index_name s ''block'') startFrom stopAt)) ?s1 =
    Some (Ret (p, n), ?s1\<lparr>acts := acts ?s1 @ handed_ranges (minerNum ?s1) rs, world := w1\<rparr>)"
    using check_loop_run[OF assms(3), of ?s1 startFrom "stopAt + 1" "startFrom + 1" rs p n] assms(2) sc by auto
  note run = bnd_Ret[where m = "check_loop E startFrom (stopAt + 1) (startFrom + 1)
      (Scroll (check_params (index_name s ''block'') startFrom stopAt))", OF c]
  show ?thesis
    using assms(2) sc
    by (auto simp: checkIndex_def sq_Ret[OF StartBulkChannel_run[OF assms(1)]] run ranges_def
        sq_Ret[OF InsertBlocksInRange_run] StopBulkChannel_run handed_ranges_def)
qed

end
