(* ===== verification/Miner.thy ===== *)
theory Miner
  imports Indexer_State
begin

text \<open>
  Mining blocks (\<open>indexer/miner.go\<close>), the refresh of verified tokens and contracts
  (\<open>refreshVariables\<close> in \<open>indexer/cache.go\<close>) and the CCCV contract (\<open>indexer/cccv.go\<close>). The node connection that
  a miner was given is not distinguished: all reach the same node.
\<close>

section \<open>CCCV\<close>

definition isCccvNft :: "'e Indexer \<Rightarrow> slice \<Rightarrow> bool" where
  "isCccvNft ns contractAddress \<longleftrightarrow>
     cccvNftAddress ns \<noteq> None \<and> bytes_Equal contractAddress (cccvNftAddress ns)"

definition cccv_token :: "string \<Rightarrow> string \<Rightarrow> uint64 \<Rightarrow> EsToken" where
  "cccv_token cccv_nft_string txid blockno =
     \<lparr>Doc_Id = cccv_nft_string, EsToken_TxId = txid, EsToken_BlockNo = blockno, EsToken_Creator = [],
       EsToken_Type = TokenARC2, EsToken_Name = ''cccv_nft'', EsToken_Name_lower = ''cccv_nft'',
       EsToken_Symbol = ''CNFT'', EsToken_Symbol_lower = ''cnft'', EsToken_Decimals = 0,
       EsToken_Supply = ''0'', EsToken_SupplyFloat = zero32,
       EsToken_VerifiedStatus = [], EsToken_TokenAddress = [], EsToken_Owner = [],
       EsToken_Comment = [], EsToken_Email = [], EsToken_RegDate = [], EsToken_ImageUrl = [],
       EsToken_HomepageUrl = [], EsToken_TotalTransfer = 0\<rparr>"

definition initCccvNft_for :: "'e env \<Rightarrow> string \<Rightarrow> string \<Rightarrow> uint64 \<Rightarrow> ('e, unit) idx" where
  "initCccvNft_for E cccv_nft_string txid blockno =
     bnd (lft (DecodeAddress E cccv_nft_string)) (\<lambda>r.
     sq (upd (\<lambda>s. s\<lparr>cccvNftAddress := (case r of Inl _ \<Rightarrow> None | Inr a \<Rightarrow> Some a)\<rparr>))
        (addToken E (cccv_token cccv_nft_string txid blockno)))"

definition initCccvNft :: "'e env \<Rightarrow> ('e, unit) idx" where
  "initCccvNft E = bnd (rd networkTypeForCccv) (\<lambda>network.
     if network = ''mainnet'' then
       initCccvNft_for E ''Amg5yZU9j5rCYBmCs1TiZ65GpffFBhEBpYyRAyjwXMweouVTeckE''
         ''9nCGvpKEY7Yu9zbwCzGwurTzjHKV9qEgH54MtVXY7DpL'' 68592368
     else if network = ''testnet'' then
       initCccvNft_for E ''Amg5KQVkBcX1rR1nmKFPyZPnU8CeGWnZkqAiqp3v4fgSL6KmcCuF''
         ''21J8YmRt3onQYwZnCkwUEk1zV7GsvRMhfFzwdtaeWkyi'' 66638759
     else ret ())"

section \<open>Events\<close>

text \<open>A query about a contract, with the flag of the CCCV contract.\<close>

definition ask :: "(bool \<Rightarrow> 'e \<Rightarrow> 'a \<times> 'e) \<Rightarrow> slice \<Rightarrow> ('e, 'a) idx" where
  "ask q contractAddress = bnd (rd (\<lambda>ns. isCccvNft ns contractAddress)) (\<lambda>flag. ext (q flag))"

definition add_new_token :: "'e env \<Rightarrow> BlockType \<Rightarrow> EsTx \<Rightarrow> TokenType \<Rightarrow> slice \<Rightarrow> ('e, unit) idx" where
  "add_new_token E blockType txDoc tokenType contractAddress =
     bnd (ext (QueryTokenInfo E contractAddress)) (\<lambda>(name, symbol, decimals).
     if name = [] then ret ()
     else
       bnd (ask (QueryTotalSupply E contractAddress) contractAddress) (\<lambda>(supply, supplyFloat).
       sq (addToken E (ConvToken E txDoc contractAddress tokenType name symbol decimals supply supplyFloat))
       (bnd (ask (QueryBalanceOf E contractAddress (EsTx_Account txDoc)) contractAddress) (\<lambda>(balance, balanceFloat).
       sq (addAccountTokens E blockType (ConvAccountTokens tokenType
             (EncodeAndResolveAccount E contractAddress (EsTx_BlockNo txDoc)) (EsTx_Timestamp txDoc)
             (EsTx_Account txDoc) balance balanceFloat))
       (addContract E blockType (ConvContract E txDoc contractAddress))))))"

definition event_new_token :: "'e env \<Rightarrow> BlockType \<Rightarrow> EsTx \<Rightarrow> Event \<Rightarrow> ('e, unit) idx" where
  "event_new_token E blockType txDoc event =
     bnd (lft (UnmarshalEventNewArcToken E (Some event))) (\<lambda>r. case r of
       Inl _ \<Rightarrow> ret ()
     | Inr (tokenType, contractAddress) \<Rightarrow> add_new_token E blockType txDoc tokenType (Some contractAddress))"

text \<open>The current balance of an account, added to its tokens.\<close>

definition add_balance_of :: "'e env \<Rightarrow> BlockType \<Rightarrow> slice \<Rightarrow> TokenType \<Rightarrow> EsTokenTransfer \<Rightarrow> string \<Rightarrow> ('e, unit) idx" where
  "add_balance_of E blockType contractAddress tokenType ttDoc account =
     bnd (ask (QueryBalanceOf E contractAddress account) contractAddress) (\<lambda>(balance, balanceFloat).
       addAccountTokens E blockType (ConvAccountTokens tokenType (EsTokenTransfer_TokenAddress ttDoc)
         (EsTokenTransfer_Timestamp ttDoc) account balance balanceFloat))"

definition update_supply :: "'e env \<Rightarrow> EsTx \<Rightarrow> slice \<Rightarrow> ('e, unit) idx" where
  "update_supply E txDoc contractAddress =
     bnd (ask (QueryTotalSupply E contractAddress) contractAddress) (\<lambda>(supply, supplyFloat).
       updateToken E (ConvTokenUp E txDoc contractAddress supply supplyFloat))"

definition add_nft :: "'e env \<Rightarrow> slice \<Rightarrow> TokenType \<Rightarrow> EsTokenTransfer \<Rightarrow> string \<Rightarrow> ('e, unit) idx" where
  "add_nft E contractAddress tokenType ttDoc tokenId = whn (tokenType = TokenARC2)
     (bnd (ext (QueryNFTMetadata E contractAddress tokenId)) (\<lambda>(tokenUri, imageUrl).
       addNFT E (ConvNFT ttDoc tokenUri imageUrl)))"

definition event_transfer_doc :: "'e env \<Rightarrow> slice \<Rightarrow> EsTx \<Rightarrow> Event \<Rightarrow> string \<Rightarrow> string \<Rightarrow> string \<Rightarrow> string
    \<Rightarrow> float32 \<Rightarrow> EsTokenTransfer" where
  "event_transfer_doc E contractAddress txDoc event from to tokenId amount amountFloat =
     ConvTokenTransfer E contractAddress txDoc (sint (Event_EventIdx event)) from to tokenId amount amountFloat"

definition event_mint :: "'e env \<Rightarrow> BlockType \<Rightarrow> EsTx \<Rightarrow> Event \<Rightarrow> ('e, unit) idx" where
  "event_mint E blockType txDoc event = (case UnmarshalEventMint (Some event) of
     Inl _ \<Rightarrow> ret ()
   | Inr (contractAddress, accountFrom, accountTo, amountOrId) \<Rightarrow>
       bnd (ask (QueryOwnerOf E contractAddress amountOrId) (Event_ContractAddress event))
         (\<lambda>(tokenType, tokenId, amount, amountFloat).
       let ttDoc = event_transfer_doc E contractAddress txDoc event accountFrom accountTo tokenId amount amountFloat in
       sq (addTokenTransfer E blockType ttDoc)
       (sq (update_supply E txDoc contractAddress)
       (sq (add_balance_of E blockType contractAddress tokenType ttDoc (EsTokenTransfer_To ttDoc))
       (add_nft E contractAddress tokenType ttDoc (EsTokenTransfer_TokenId ttDoc))))))"

definition event_transfer :: "'e env \<Rightarrow> BlockType \<Rightarrow> EsTx \<Rightarrow> Event \<Rightarrow> ('e, unit) idx" where
  "event_transfer E blockType txDoc event = (case UnmarshalEventTransfer (Some event) of
     Inl _ \<Rightarrow> ret ()
   | Inr (contractAddress, accountFrom, accountTo, amountOrId) \<Rightarrow>
       bnd (ask (QueryOwnerOf E contractAddress amountOrId) contractAddress)
         (\<lambda>(tokenType, tokenId, amount, amountFloat).
       let ttDoc = event_transfer_doc E contractAddress txDoc event accountFrom accountTo tokenId amount amountFloat in
       if EsTokenTransfer_Amount ttDoc = [] then ret ()
       else
       sq (addTokenTransfer E blockType ttDoc)
       (sq (add_balance_of E blockType contractAddress tokenType ttDoc (EsTokenTransfer_To ttDoc))
       (sq (add_balance_of E blockType contractAddress tokenType ttDoc (EsTokenTransfer_From ttDoc))
       (add_nft E contractAddress tokenType ttDoc tokenId)))))"

definition event_burn :: "'e env \<Rightarrow> BlockType \<Rightarrow> EsTx \<Rightarrow> Event \<Rightarrow> ('e, unit) idx" where
  "event_burn E blockType txDoc event = (case UnmarshalEventBurn (Some event) of
     Inl _ \<Rightarrow> ret ()
   | Inr (contractAddress, accountFrom, accountTo, amountOrId) \<Rightarrow>
       bnd (ask (QueryOwnerOf E contractAddress amountOrId) contractAddress)
         (\<lambda>(tokenType, tokenId, amount, amountFloat).
       let ttDoc = event_transfer_doc E contractAddress txDoc event accountFrom accountTo tokenId amount amountFloat in
       if EsTokenTransfer_Amount ttDoc = [] then ret ()
       else
       sq (addTokenTransfer E blockType ttDoc)
       (sq (update_supply E txDoc contractAddress)
       (sq (add_balance_of E blockType contractAddress tokenType ttDoc (EsTokenTransfer_From ttDoc))
       (add_nft E contractAddress tokenType ttDoc tokenId)))))"

definition MinerEventByName :: "'e env \<Rightarrow> BlockInfo \<Rightarrow> EsBlock \<Rightarrow> EsTx \<Rightarrow> Event \<Rightarrow> ('e, unit) idx" where
  "MinerEventByName E info blockDoc txDoc event =
     (let name = Event_EventName event; blockType = BlockInfo_Type info in
      if name = EventNewArc1Token \<or> name = EventNewArc2Token then event_new_token E blockType txDoc event
      else if name = EventMint then event_mint E blockType txDoc event
      else if name = EventTransfer then event_transfer E blockType txDoc event
      else if name = EventBurn then event_burn E blockType txDoc event
      else ret ())"

text \<open>An event that cannot be read ends the function: the second test is not made.\<close>

definition MinerEventByAddr :: "'e env \<Rightarrow> EsBlock \<Rightarrow> EsTx \<Rightarrow> Event \<Rightarrow> ('e, unit) idx" where
  "MinerEventByAddr E blockDoc txDoc event =
     (let addr = Event_ContractAddress event in
      bnd (rd (\<lambda>ns. (bytes_of addr \<noteq> [] \<and> bytes_Equal addr (tokenVerifyAddr ns),
                     bytes_of addr \<noteq> [] \<and> bytes_Equal addr (contractVerifyAddr ns)))) (\<lambda>(isToken, isContract).
      bnd (if isToken then (case UnmarshalEventVerifyToken event of
             Inl _ \<Rightarrow> ret False
           | Inr tokenAddr \<Rightarrow> sq (addWhitelist E (ConvWhitelist tokenAddr [] ''token'')) (ret True))
           else ret True) (\<lambda>go_on.
      whn (go_on \<and> isContract) (case UnmarshalEventVerifyContract event of
             Inl _ \<Rightarrow> ret ()
           | Inr tokenAddr \<Rightarrow> addWhitelist E (ConvWhitelist tokenAddr [] ''contract'')))))"

definition MinerEvent :: "'e env \<Rightarrow> BlockInfo \<Rightarrow> EsBlock \<Rightarrow> EsTx \<Rightarrow> uint64 \<Rightarrow> Event \<Rightarrow> ('e, unit) idx" where
  "MinerEvent E info blockDoc txDoc txIdx event =
     sq (addEvent E (BlockInfo_Type info) (ConvEvent E event blockDoc txDoc txIdx))
     (sq (MinerEventByAddr E blockDoc txDoc event)
         (MinerEventByName E info blockDoc txDoc event))"

section \<open>Transactions\<close>

definition contract_of :: "Receipt option \<Rightarrow> slice outcome" where
  "contract_of receipt = obnd (deref receipt) (\<lambda>r. Ret (Receipt_ContractAddress r))"

definition policy2_token :: "'e env \<Rightarrow> BlockInfo \<Rightarrow> EsTx \<Rightarrow> Receipt option \<Rightarrow> TokenType \<Rightarrow> ('e, unit) idx" where
  "policy2_token E info txDoc receipt tType =
     bnd (lft (contract_of receipt)) (\<lambda>contract.
     bnd (ext (QueryTokenInfo E contract)) (\<lambda>(name, symbol, decimals).
     if name = [] then ret ()
     else
       bnd (ask (QueryTotalSupply E contract) contract) (\<lambda>(supply, supplyFloat).
       sq (addToken E (ConvToken E txDoc contract tType name symbol decimals supply supplyFloat))
          (addContract E (BlockInfo_Type info) (ConvContract E txDoc contract)))))"

text \<open>What follows the storing of the balances.\<close>

definition tx_contracts :: "'e env \<Rightarrow> uint64 \<Rightarrow> BlockInfo \<Rightarrow> EsBlock \<Rightarrow> Tx \<Rightarrow> Receipt option \<Rightarrow> EsTx \<Rightarrow> ('e, unit) idx" where
  "tx_contracts E txIdx info blockDoc tx receipt txDoc =
     (if EsTx_Category txDoc \<in> {TxCall, TxDeploy, TxPayload, TxMultiCall} then
        sq (whn (EsTx_Category txDoc = TxDeploy)
             (bnd (lft (contract_of receipt)) (\<lambda>contract.
                addContract E (BlockInfo_Type info) (ConvContract E txDoc contract))))
        (sq (each (MinerEvent E info blockDoc txDoc txIdx) (GetEvents receipt))
        (bnd (lft (MaybeTokenCreation tx)) (\<lambda>tType.
           whn (tType \<in> {TokenARC1, TokenARC2}) (policy2_token E info txDoc receipt tType))))
      else ret ())"

text \<open>What runs between the conversion of the transaction and the deferred \<open>addTx\<close>.\<close>

definition tx_body :: "'e env \<Rightarrow> uint64 \<Rightarrow> BlockInfo \<Rightarrow> EsBlock \<Rightarrow> Tx \<Rightarrow> Receipt option \<Rightarrow> EsTx \<Rightarrow> ('e, unit) idx" where
  "tx_body E txIdx info blockDoc tx receipt txDoc =
     (if GetType (GetBody tx) = TxType_GOVERNANCE \<and> bytes_of (GetRecipient (GetBody tx)) = ''aergo.name'' then
        bnd (lft (ConvName E tx (EsTx_BlockNo txDoc))) (\<lambda>nameDoc. addName E nameDoc)
      else
        bnd (lft (deref (Tx_Body tx))) (\<lambda>Body.
        sq (storeBalance (EncodeAndResolveAccount E (TxBody_Account Body) (EsTx_BlockNo txDoc)))
        (sq (storeBalance (EncodeAndResolveAccount E (TxBody_Recipient Body) (EsTx_BlockNo txDoc)))
            (tx_contracts E txIdx info blockDoc tx receipt txDoc))))"

definition MinerTx :: "'e env \<Rightarrow> uint64 \<Rightarrow> BlockInfo \<Rightarrow> EsBlock \<Rightarrow> Tx \<Rightarrow> ('e, unit) idx" where
  "MinerTx E txIdx info blockDoc tx =
     bnd (ext (GetReceipt E (GetTxHash tx))) (\<lambda>r.
     let receipt = (case r of Inl _ \<Rightarrow> None | Inr x \<Rightarrow> Some x) in
     bnd (lft (ConvTx E txIdx tx receipt blockDoc)) (\<lambda>txDoc.
     deferred (addTx E (BlockInfo_Type info) txDoc) (tx_body E txIdx info blockDoc tx receipt txDoc)))"

section \<open>Balances and verified contracts\<close>

text \<open>Whether the address stakes enough to keep being tracked.\<close>

definition MinerBalance :: "'e env \<Rightarrow> EsBlock \<Rightarrow> string \<Rightarrow> ('e, bool) idx" where
  "MinerBalance E block address =
     bnd (lft (DecodeAddress E address)) (\<lambda>r. case r of
       Inl _ \<Rightarrow> ret False
     | Inr addressRaw \<Rightarrow>
        if IsBalanceNotResolved E addressRaw then ret False
        else bnd (ext (BalanceOf E (Some addressRaw))) (\<lambda>(balance, balanceFloat, staking, stakingFloat).
          sq (addAccountBalance E (ConvAccountBalance (EsBlock_BlockNo block) address (EsBlock_Timestamp block)
                balance balanceFloat staking stakingFloat))
             (ret (f32_ge stakingFloat 10000))))"

text \<open>The number of transfers; none if it cannot be counted.\<close>

definition count_transfers :: "'e env \<Rightarrow> string \<Rightarrow> ('e, uint64) idx" where
  "count_transfers E contractAddr =
     bnd (cntTokenTransfer E contractAddr) (\<lambda>r. ret (case r of Inl _ \<Rightarrow> 0 | Inr n \<Rightarrow> n))"

text \<open>Whether the token of the former contract is known and could be taken back.\<close>

definition unverify_token :: "'e env \<Rightarrow> string \<Rightarrow> ('e, bool) idx" where
  "unverify_token E contractAddr =
     bnd (getToken E contractAddr) (\<lambda>r. case r of
       Inr (Some tokenDoc) \<Rightarrow>
         bnd (count_transfers E contractAddr) (\<lambda>totalTransfer.
         sq (updateTokenVerified E (ConvTokenUpVerified tokenDoc NotVerified [] [] [] [] [] [] [] totalTransfer))
            (ret True))
     | _ \<Rightarrow> ret False)"

definition MinerTokenVerified :: "'e env \<Rightarrow> string \<Rightarrow> string \<Rightarrow> string \<Rightarrow> ('e, string) idx" where
  "MinerTokenVerified E tokenAddr contractAddr metadata =
     (case UnmarshalMetadataVerifyToken metadata of
       (updateContractAddr, owner, comment, email, regDate, homepageUrl, imageUrl) \<Rightarrow>
       bnd (if contractAddr \<noteq> [] \<and> updateContractAddr \<noteq> contractAddr then unverify_token E contractAddr
            else ret True) (\<lambda>go_on.
       if \<not> go_on then ret contractAddr
       else if updateContractAddr \<noteq> [] then
         bnd (getToken E updateContractAddr) (\<lambda>r. case r of
           Inr (Some tokenDoc) \<Rightarrow>
             bnd (count_transfers E updateContractAddr) (\<lambda>totalTransfer.
             sq (updateTokenVerified E (ConvTokenUpVerified tokenDoc Verified tokenAddr owner comment email
                  regDate homepageUrl imageUrl totalTransfer))
                (ret updateContractAddr))
         | _ \<Rightarrow> ret contractAddr)
       else ret updateContractAddr))"

definition unverify_contract :: "'e env \<Rightarrow> string \<Rightarrow> ('e, bool) idx" where
  "unverify_contract E contractAddr =
     bnd (getContract E contractAddr) (\<lambda>r. case r of
       Inr (Some contractDoc) \<Rightarrow>
         sq (updateContract E (ConvContractUp (Doc_Id contractDoc) NotVerified [] [] [])) (ret True)
     | _ \<Rightarrow> ret False)"

text \<open>The code behind the URL and the status: verified when some code could be fetched.\<close>

definition fetch_code :: "'e env \<Rightarrow> string \<Rightarrow> ('e, string \<times> string) idx" where
  "fetch_code E codeUrl = bnd (ext (GetCode E codeUrl)) (\<lambda>r. ret (case r of
     Inl _ \<Rightarrow> ([], NotVerified)
   | Inr code \<Rightarrow> (code, if length code > 0 then Verified else NotVerified)))"

definition MinerContractVerified :: "'e env \<Rightarrow> string \<Rightarrow> string \<Rightarrow> string \<Rightarrow> ('e, string) idx" where
  "MinerContractVerified E tokenAddr contractAddr metadata =
     (case UnmarshalMetadataVerifyContract metadata of (updateContractAddr, _, codeUrl) \<Rightarrow>
       bnd (if contractAddr \<noteq> [] \<and> contractAddr \<noteq> updateContractAddr then unverify_contract E contractAddr
            else ret True) (\<lambda>go_on.
       if \<not> go_on then ret contractAddr
       else if updateContractAddr \<noteq> [] then
         bnd (getContract E updateContractAddr) (\<lambda>r. case r of
           Inr (Some contractDoc) \<Rightarrow>
             if codeUrl \<noteq> [] \<and> EsContract_CodeUrl contractDoc = codeUrl then ret updateContractAddr
             else bnd (fetch_code E codeUrl) (\<lambda>(code, status).
               sq (updateContract E (ConvContractUp updateContractAddr status tokenAddr codeUrl code))
                  (ret updateContractAddr))
         | _ \<Rightarrow> ret contractAddr)
       else ret updateContractAddr))"

section \<open>Refreshing the cached lists\<close>

text \<open>The visit of one whitelist entry; the accumulator is the map of the entries to be written.\<close>

definition refresh_entry :: "'e env \<Rightarrow> EsWhitelist \<Rightarrow> (string \<times> string \<times> string) list
    \<Rightarrow> ('e, (string \<times> string \<times> string) list) idx" where
  "refresh_entry E whitelistDoc mapWhitelist =
     bnd (if EsWhitelist_Type whitelistDoc = ''token'' then
            bnd (rd tokenVerifyAddr) (\<lambda>a. bnd (ext (QueryMetadataOf E a (Doc_Id whitelistDoc))) (\<lambda>metadata.
              MinerTokenVerified E (Doc_Id whitelistDoc) (EsWhitelist_Contract whitelistDoc) metadata))
          else ret []) (\<lambda>updateToken.
     bnd (if EsWhitelist_Type whitelistDoc = ''contract'' then
            bnd (rd contractVerifyAddr) (\<lambda>a. bnd (ext (QueryMetadataOf E a (Doc_Id whitelistDoc))) (\<lambda>metadata.
              MinerContractVerified E (Doc_Id whitelistDoc) (EsWhitelist_Contract whitelistDoc) metadata))
          else ret updateToken) (\<lambda>updateContractAddress.
     ret (if EsWhitelist_Contract whitelistDoc \<noteq> updateContractAddress
          then (Doc_Id whitelistDoc, updateContractAddress, EsWhitelist_Type whitelistDoc)
            # filter (\<lambda>(k, _). k \<noteq> Doc_Id whitelistDoc) mapWhitelist
          else mapWhitelist)))"

text \<open>The addresses of \<open>addrsBalance\<close>, each with its balance updated; those that stake too little are collected.\<close>

primrec refresh_balances :: "'e env \<Rightarrow> EsBlock \<Rightarrow> string list \<Rightarrow> string list \<Rightarrow> ('e, string list) idx" where
  "refresh_balances E blockDoc mapBalance [] = ret mapBalance"
| "refresh_balances E blockDoc mapBalance (addr # addrs) =
     bnd (MinerBalance E blockDoc addr) (\<lambda>isExiststake.
       refresh_balances E blockDoc (if isExiststake then mapBalance else addr # mapBalance) addrs)"

definition refresh_tracked :: "'e env \<Rightarrow> EsBlock \<Rightarrow> ('e, unit) idx" where
  "refresh_tracked E blockDoc =
     bnd (rd addrsBalance) (\<lambda>addrs.
     bnd (refresh_balances E blockDoc [] addrs) (\<lambda>mapBalance.
     each deleteBalance mapBalance))"

definition refreshVariables :: "'e env \<Rightarrow> BlockInfo \<Rightarrow> EsBlock \<Rightarrow> ('e, unit) idx" where
  "refreshVariables E info blockDoc =
     bnd (ScrollWhitelist E (refresh_entry E) []) (\<lambda>mapWhitelist.
     sq (each (\<lambda>(tokenAddr, contractAddr, t). addWhitelist E (ConvWhitelist tokenAddr contractAddr t)) mapWhitelist)
     (refresh_tracked E blockDoc))"

section \<open>The miner\<close>

text \<open>\<open>binary.LittleEndian.PutUint64\<close>.\<close>

definition PutUint64 :: "uint64 \<Rightarrow> string" where
  "PutUint64 v = map (\<lambda>i. char_of (unat v div 256 ^ i)) [0..<8]"

text \<open>Asking for the block until the node gives it: this may not end.\<close>

partial_function (option) get_block_retry :: "'e env \<Rightarrow> string \<Rightarrow> ('e, Block) idx" where
  "get_block_retry E blockQuery ns =
     bnd (ext (GetBlock E blockQuery)) (\<lambda>r s. case r of
       Inl _ \<Rightarrow> sq (Sleep E (100 * 10 ^ 6)) (\<lambda>s'. get_block_retry E blockQuery s') s
     | Inr block \<Rightarrow> ret block s) ns"

text \<open>The transactions, the block document, and every 300 blocks of the stream the refresh.\<close>

definition index_block :: "'e env \<Rightarrow> BlockInfo \<Rightarrow> EsBlock \<Rightarrow> Tx list \<Rightarrow> ('e, unit) idx" where
  "index_block E info blockDoc txs =
     sq (each_from 0 (\<lambda>i tx. MinerTx E (of_nat i) info blockDoc tx) txs)
     (sq (addBlock E (BlockInfo_Type info) blockDoc)
     (whn (BlockInfo_Type info = BlockType_Sync \<and> BlockInfo_Height info mod 300 = 0)
       (refreshVariables E info blockDoc)))"

definition mine_block :: "'e env \<Rightarrow> BlockInfo \<Rightarrow> ('e, unit) idx" where
  "mine_block E info =
     bnd (get_block_retry E (PutUint64 (BlockInfo_Height info))) (\<lambda>block.
     bnd (lft (deref (Block_Header block))) (\<lambda>Header.
     bnd (getPeerId E (BlockHeader_PubKey Header)) (\<lambda>blockProducer.
     bnd (lft (ConvBlock E block blockProducer)) (\<lambda>blockDoc.
     bnd (lft (deref (Block_Body block))) (\<lambda>Body.
     index_block E info blockDoc (BlockBody_Txs Body))))))"

text \<open>The messages received on the channel of the miner, up to its closing.\<close>

primrec Miner :: "'e env \<Rightarrow> BlockInfo list \<Rightarrow> ('e, unit) idx" where
  "Miner E [] = ret ()"
| "Miner E (info # infos) =
     (if BlockInfo_Type info = BlockType_StopMiner then ret ()
      else sq (mine_block E info) (Miner E infos))"

end
