(* ===== verification/Sync.thy ===== *)
theory Sync
  imports Check Miner
begin

text \<open>
  Following the chain (\<open>indexer/run_onsync.go\<close>) and the registration of what is refreshed
  (\<open>registerVariables\<close> in \<open>indexer/cache.go\<close>). Messages to the miner of the stream are in the log;
  the goroutine that drains the stream while it sleeps is only recorded.
\<close>

section \<open>Rolling back\<close>

definition deleteTypeByQuery :: "'e env \<Rightarrow> string \<Rightarrow> IntegerRangeQuery \<Rightarrow> ('e, unit) idx" where
  "deleteTypeByQuery E typeName rangeQuery =
     bnd (rd (\<lambda>ns. index_name ns typeName)) (\<lambda>i.
     bnd (ext (Delete E (zeroQueryParams\<lparr>IndexName := i, IntegerRange := Some rangeQuery\<rparr>))) (\<lambda>_. ret ()))"

definition rollback_types :: "(string \<times> string) list" where
  "rollback_types = [(''block'', ''no''), (''tx'', ''blockno''), (''name'', ''blockno''),
     (''token_transfer'', ''blockno''), (''token'', ''blockno''), (''nft'', ''blockno'')]"

text \<open>A range of more than a thousand blocks is taken for an error of the node: the stream is closed, but the
  documents are deleted all the same.\<close>

definition DeleteBlocksInRange :: "'e env \<Rightarrow> uint64 \<Rightarrow> uint64 \<Rightarrow> ('e, unit) idx" where
  "DeleteBlocksInRange E fromBlockHeight toBlockHeight =
     sq (whn (toBlockHeight - fromBlockHeight > 1000) (Stop E))
        (each (\<lambda>(typeName, field). deleteTypeByQuery E typeName
           \<lparr>Range_Field = field, Range_Min = fromBlockHeight, Range_Max = toBlockHeight\<rparr>) rollback_types)"

section \<open>The stream\<close>

text \<open>Waiting until the best indexed block stays the same for a round.\<close>

partial_function (option) sleep_loop :: "'e env \<Rightarrow> uint64 \<Rightarrow> ('e, unit) idx" where
  "sleep_loop E CBlockNo ns =
     sq (Sleep E (5 * Second)) (bnd (GetBestBlockFromDb E) (\<lambda>r s. case r of
       Inl _ \<Rightarrow> sleep_loop E CBlockNo s
     | Inr BestBlockNo \<Rightarrow>
        if CBlockNo \<ge> BestBlockNo then upd (\<lambda>s. s\<lparr>lastHeight := BestBlockNo\<rparr>) s
        else sleep_loop E BestBlockNo s)) ns"

definition sleepStream :: "'e env \<Rightarrow> uint64 \<Rightarrow> ('e, unit) idx" where
  "sleepStream E BlockNo = sq (emit GoDrainStream) (sleep_loop E BlockNo)"

definition sync_block :: "uint64 \<Rightarrow> BlockInfo" where
  "sync_block h = \<lparr>BlockInfo_Type = BlockType_Sync, BlockInfo_Height = h\<rparr>"

lemma word_inc_less: "h < n \<Longrightarrow> unat n - unat (h + 1) < unat n - unat h" for h n :: uint64
  using uint64_inc[of h n] unat_mono[of h n] by simp

function send_up :: "uint64 \<Rightarrow> uint64 \<Rightarrow> ('e, unit) idx" where
  "send_up H newHeight =
     (if H < newHeight then sq (emit (SendM (sync_block H))) (send_up (H + 1) newHeight) else ret ())"
  by pat_completeness auto
termination
  by (relation "measure (\<lambda>(h, n). unat n - unat h)") (auto simp: word_inc_less)

declare send_up.simps [simp del]

definition send_new :: "uint64 \<Rightarrow> ('e, unit) idx" where
  "send_new newHeight =
     sq (emit (SendM (sync_block newHeight))) (upd (\<lambda>s. s\<lparr>lastHeight := newHeight\<rparr>))"

definition SyncBlock :: "'e env \<Rightarrow> Block \<Rightarrow> ('e, unit) idx" where
  "SyncBlock E block =
     bnd (lft (deref (Block_Header block))) (\<lambda>Header.
     let newHeight = BlockHeader_BlockNo Header in
     bnd (rd lastHeight) (\<lambda>last.
     if newHeight < last then
       sq (DeleteBlocksInRange E (newHeight + 1) last) (upd (\<lambda>s. s\<lparr>lastHeight := newHeight\<rparr>))
     else
       sq (whn (newHeight > last + 1) (send_up (last + 1) newHeight))
       (bnd (now E) (\<lambda>t.
        if t mod 10 = 0 then
          sq (Sleep E Second)
          (bnd (GetBestBlockFromDb E) (\<lambda>r. case r of
             Inr BestBlockNo \<Rightarrow> if BestBlockNo \<ge> newHeight then sleepStream E newHeight else send_new newHeight
           | Inl _ \<Rightarrow> send_new newHeight))
        else send_new newHeight))))"

text \<open>Receiving from a stream that was closed meanwhile is a call on a nil interface.\<close>

partial_function (option) recv_loop :: "'e env \<Rightarrow> ('e, unit) idx" where
  "recv_loop E ns =
     bnd (rd stream) (\<lambda>st s. case st of
       None \<Rightarrow> pan NilInterfaceCall s
     | Some h \<Rightarrow> bnd (ext (stream_Recv E h)) (\<lambda>r s'. case r of
          Inl _ \<Rightarrow> ret () s'
        | Inr block \<Rightarrow> sq (SyncBlock E block) (\<lambda>s''. recv_loop E s'') s') s) ns"

partial_function (option) openStream :: "'e env \<Rightarrow> ('e, unit) idx" where
  "openStream E ns =
     bnd (ext (ListBlockStream E)) (\<lambda>r s. case r of
       Inr (Some h) \<Rightarrow> upd (\<lambda>s. s\<lparr>stream := Some h\<rparr>) s
     | _ \<Rightarrow> sq (upd (\<lambda>s. s\<lparr>stream := None\<rparr>)) (sq (Sleep E (6 * Second)) (\<lambda>s'. openStream E s')) s) ns"

definition stream_round :: "'e env \<Rightarrow> ('e, unit) idx" where
  "stream_round E = sq (openStream E) (sq (recv_loop E) (Stop E))"

text \<open>The loop of the rounds has no exit.\<close>

partial_function (option) stream_rounds :: "'e env \<Rightarrow> ('e, unit) idx" where
  "stream_rounds E ns = sq (stream_round E) (\<lambda>s. stream_rounds E s) ns"

definition startStream :: "'e env \<Rightarrow> ('e, unit) idx" where
  "startStream E = sq (emit GoStreamMiner) (stream_rounds E)"

section \<open>Registration\<close>

definition registerVariables :: "'e env \<Rightarrow> ('e, unit) idx" where
  "registerVariables E =
     sq (ScrollToken E (\<lambda>tokenDoc _. whn (EsToken_TokenAddress tokenDoc \<noteq> [])
           (addWhitelist E (ConvWhitelist (EsToken_TokenAddress tokenDoc) (Doc_Id tokenDoc) ''token''))) ())
     (sq (ScrollContract E (\<lambda>contractDoc _. whn (EsContract_VerifiedToken contractDoc \<noteq> [])
           (addWhitelist E (ConvWhitelist (EsContract_VerifiedToken contractDoc) (Doc_Id contractDoc) ''contract''))) ())
     (ScrollBalance E (\<lambda>balanceDoc _. storeBalance (Doc_Id balanceDoc)) ()))"

definition OnSync :: "'e env \<Rightarrow> ('e, unit) idx" where
  "OnSync E = sq (registerVariables E) (emit GoStartStream)"

section \<open>Lemmas\<close>

lemma send_up_run: "send_up lo hi s = Some (Ret (), s\<lparr>acts := acts s @
    map (\<lambda>h. SendM (sync_block (of_nat h))) [unat lo..<unat hi]\<rparr>)"
proof (induction lo hi arbitrary: s rule: send_up.induct)
  case (1 lo hi)
  show ?case
  proof (cases "lo < hi")
    case True
    then have "unat (lo + 1) = Suc (unat lo)" "unat lo < unat hi" using uint64_inc[OF True] by (auto simp: unat_mono)
    with True 1 show ?thesis by (subst send_up.simps) (simp add: upt_conv_Cons)
  next
    case False
    then have "[unat lo..<unat hi] = []" by (simp add: word_le_nat_alt not_less)
    with False show ?thesis by (subst send_up.simps) simp
  qed
qed

text \<open>A new height is followed at once when the clock does not ask for a look at the index.\<close>

lemma SyncBlock_forward:
  assumes "Block_Header b = Some h" and "BlockHeader_BlockNo h = n" and "lastHeight s < n"
    and "fst (clock_Now E (world s)) mod 10 \<noteq> 0"
  shows "SyncBlock E b s = Some (Ret (), s\<lparr>acts := acts s @
      map (\<lambda>h. SendM (sync_block (of_nat h))) [Suc (unat (lastHeight s))..<Suc (unat n)],
    world := snd (clock_Now E (world s)), lastHeight := n\<rparr>)"
proof -
  have i: "unat (lastHeight s + 1) = Suc (unat (lastHeight s))" using uint64_inc[OF assms(3)] by simp
  have lt: "unat (lastHeight s) < unat n" using assms(3) by (rule unat_mono)
  have "whn (lastHeight s + 1 < n) (send_up (lastHeight s + 1) n) s = Some (Ret (), s\<lparr>acts := acts s @
      map (\<lambda>h. SendM (sync_block (of_nat h))) [Suc (unat (lastHeight s))..<unat n]\<rparr>)"
  proof (cases "lastHeight s + 1 < n")
    case True
    then show ?thesis by (simp add: send_up_run i)
  next
    case False
    then have "[Suc (unat (lastHeight s))..<unat n] = []" using i by (simp add: word_less_nat_alt)
    with False show ?thesis by simp
  qed
  note up = sq_Ret[where m = "whn (lastHeight s + 1 < n) (send_up (lastHeight s + 1) n)", OF this]
  have nl: "(n < lastHeight s) = False" using assms(3) by auto
  show ?thesis
    using assms(1,2,4) lt nl by (simp add: SyncBlock_def now_def up send_new_def)
qed

text \<open>A height below: a rollback, and nothing is mined.\<close>

primrec delete_world :: "'e env \<Rightarrow> (string \<times> string) list \<Rightarrow> string \<Rightarrow> uint64 \<Rightarrow> uint64 \<Rightarrow> 'e \<Rightarrow> 'e" where
  "delete_world E [] p lo hi w = w"
| "delete_world E (tf # ts) p lo hi w = delete_world E ts p lo hi (snd (es_DeleteByQuery E (p @ fst tf)
     (RangeQuery (snd tf) (Some (int (unat lo))) (Some (int (unat hi)))) w))"

lemma deleteTypeByQuery_run: "deleteTypeByQuery E t \<lparr>Range_Field = f, Range_Min = lo, Range_Max = hi\<rparr> s =
    Some (Ret (), s\<lparr>world := snd (es_DeleteByQuery E (indexNamePrefix s @ t)
      (RangeQuery f (Some (int (unat lo))) (Some (int (unat hi)))) (world s))\<rparr>)"
  by (simp add: deleteTypeByQuery_def Delete_def params_query_def zeroQueryParams_def range_query_def
      index_name_def split: prod.splits sum.splits)

lemma delete_types_run:
  "each (\<lambda>(t, f). deleteTypeByQuery E t \<lparr>Range_Field = f, Range_Min = lo, Range_Max = hi\<rparr>) ts s =
    Some (Ret (), s\<lparr>world := delete_world E ts (indexNamePrefix s) lo hi (world s)\<rparr>)"
  by (induction ts arbitrary: s) (auto simp: sq_Ret[OF deleteTypeByQuery_run])

definition closed :: "'e env \<Rightarrow> 'e Indexer \<Rightarrow> 'e Indexer" where
  "closed E s = (case stream s of None \<Rightarrow> s | Some h \<Rightarrow> s\<lparr>world := stream_CloseSend E h (world s), stream := None\<rparr>)"

lemma Stop_run: "Stop E s = Some (Ret (), closed E s)"
  by (cases "stream s") (simp_all add: Stop_def closed_def sq_def)

lemma SyncBlock_rewind:
  assumes "Block_Header b = Some h" and "BlockHeader_BlockNo h = n" and "n < lastHeight s"
  shows "\<exists>s1. s1 = (if lastHeight s - (n + 1) > 1000 then closed E s else s) \<and>
    SyncBlock E b s = Some (Ret (), s1\<lparr>lastHeight := n,
      world := delete_world E rollback_types (indexNamePrefix s) (n + 1) (lastHeight s) (world s1)\<rparr>)"
  using assms by (auto simp: SyncBlock_def DeleteBlocksInRange_def sq_Ret[OF Stop_run] sq_assoc
      sq_Ret[OF delete_types_run] closed_def split: option.splits)

text \<open>Rolling back more than a thousand blocks ends in a panic of the receiving loop.\<close>

lemma recv_loop_big_rewind:
  assumes "stream s = Some q" and "stream_Recv E q (world s) = (Inr b, w)"
    and "Block_Header b = Some h" and "BlockHeader_BlockNo h < lastHeight s"
    and "lastHeight s - (BlockHeader_BlockNo h + 1) > 1000"
  shows "\<exists>s'. recv_loop E s = Some (Panic NilInterfaceCall, s') \<and> lastHeight s' = BlockHeader_BlockNo h"
proof -
  let ?s = "s\<lparr>world := w\<rparr>"
  from SyncBlock_rewind[of b h "BlockHeader_BlockNo h" ?s E] assms
  obtain s1 where r: "SyncBlock E b ?s = Some (Ret (), s1)" "stream s1 = None" "lastHeight s1 = BlockHeader_BlockNo h"
    by (auto simp: closed_def)
  have "recv_loop E s1 = Some (Panic NilInterfaceCall, s1)" using r(2) by (subst recv_loop.simps) simp
  moreover have "recv_loop E s = recv_loop E s1"
    using assms(1,2) sq_Ret[where m = "SyncBlock E b", OF r(1)] by (subst recv_loop.simps) simp
  ultimately show ?thesis using r(3) by simp
qed

text \<open>Blocks with growing heights are followed without a gap.\<close>

definition sync_heights :: "action list \<Rightarrow> nat list" where
  "sync_heights l = List.map_filter (\<lambda>a. case a of SendM info \<Rightarrow> Some (unat (BlockInfo_Height info)) | _ \<Rightarrow> None) l"

lemma sync_heights_append [simp]: "sync_heights (k @ l) = sync_heights k @ sync_heights l"
  by (simp add: sync_heights_def List.map_filter_def)

lemma sync_heights_upt: "b \<le> Suc (unat n) \<Longrightarrow>
    sync_heights (map (\<lambda>h. SendM (sync_block (of_nat h))) [a..<b]) = [a..<b]" for n :: uint64
proof -
  assume "b \<le> Suc (unat n)"
  then have "h \<in> set [a..<b] \<Longrightarrow> unat (of_nat h :: uint64) = h" for h
    using le_unat_uoi[of h n] by auto
  then have "map (\<lambda>h. unat (of_nat h :: uint64)) [a..<b] = [a..<b]" by (intro map_idI)
  then show ?thesis
    by (simp add: sync_heights_def List.map_filter_def sync_block_def comp_def)
qed

definition block_height :: "Block \<Rightarrow> uint64" where
  "block_height b = (case Block_Header b of None \<Rightarrow> 0 | Some h \<Rightarrow> BlockHeader_BlockNo h)"

lemma SyncBlock_follows:
  assumes "\<forall>w. fst (clock_Now E w) mod 10 \<noteq> 0" and "\<forall>b \<in> set bs. Block_Header b \<noteq> None"
    and "sorted_wrt (<) (lastHeight s # map block_height bs)"
  shows "\<exists>s'. each (SyncBlock E) bs s = Some (Ret (), s') \<and>
    acts s' = acts s @ map (\<lambda>h. SendM (sync_block (of_nat h))) [Suc (unat (lastHeight s))..<Suc (unat (lastHeight s'))] \<and>
    lastHeight s' = last (lastHeight s # map block_height bs)"
  using assms(2,3)
proof (induction bs arbitrary: s)
  case Nil
  then show ?case by simp
next
  case (Cons b bs)
  then obtain h where h: "Block_Header b = Some h" by auto
  let ?n = "block_height b"
  have n: "BlockHeader_BlockNo h = ?n" "lastHeight s < ?n" using h Cons.prems(2) by (simp_all add: block_height_def)
  let ?l = "map (\<lambda>h. SendM (sync_block (of_nat h))) [Suc (unat (lastHeight s))..<Suc (unat ?n)]"
  let ?s = "s\<lparr>acts := acts s @ ?l, world := snd (clock_Now E (world s)), lastHeight := ?n\<rparr>"
  have step: "SyncBlock E b s = Some (Ret (), ?s)"
    using SyncBlock_forward[OF h n] assms(1) by (simp del: upt_Suc)
  let ?f = "\<lambda>h. SendM (sync_block (of_nat h))"
  obtain s' where IH: "each (SyncBlock E) bs ?s = Some (Ret (), s')"
    "acts s' = acts ?s @ map ?f [Suc (unat (lastHeight ?s))..<Suc (unat (lastHeight s'))]"
    "lastHeight s' = last (lastHeight ?s # map block_height bs)"
    using Cons.IH[of ?s] Cons.prems by (auto simp del: upt_Suc)
  have "?n \<le> lastHeight s'"
    using IH(3) Cons.prems(2) last_in_set[of "map block_height bs"] by (cases "bs = []") (auto intro: less_imp_le)
  then have le: "unat ?n \<le> unat (lastHeight s')" by (simp add: word_le_nat_alt)
  then have "[Suc (unat (lastHeight s))..<Suc (unat (lastHeight s'))] =
      [Suc (unat (lastHeight s))..<Suc (unat ?n)] @ [Suc (unat ?n)..<Suc (unat (lastHeight s'))]"
    using unat_mono[OF n(2)] by (metis Suc_le_mono less_imp_le upt_add_eq_append le_add_diff_inverse)
  then have "acts s' = acts s @ map ?f [Suc (unat (lastHeight s))..<Suc (unat (lastHeight s'))]"
    using IH(2) by (simp del: upt_Suc)
  moreover have "each (SyncBlock E) (b # bs) s = Some (Ret (), s')" using IH(1) by (simp add: sq_Ret[where m = "SyncBlock E b", OF step] del: upt_Suc)
  moreover have "lastHeight s' = last (lastHeight s # map block_height (b # bs))" using IH(3) by simp
  ultimately show ?case by (intro exI[of _ s']) (simp del: upt_Suc)
qed

lemma SyncBlock_contiguous:
  assumes "\<forall>w. fst (clock_Now E w) mod 10 \<noteq> 0" and "\<forall>b \<in> set bs. Block_Header b \<noteq> None"
    and "sorted_wrt (<) (lastHeight s # map block_height bs)"
  shows "\<exists>s' l. each (SyncBlock E) bs s = Some (Ret (), s') \<and> acts s' = acts s @ l \<and>
    sync_heights l = [Suc (unat (lastHeight s))..<Suc (unat (lastHeight s'))] \<and>
    lastHeight s' = last (lastHeight s # map block_height bs)"
proof -
  from SyncBlock_follows[OF assms] obtain s' where "each (SyncBlock E) bs s = Some (Ret (), s')"
    "acts s' = acts s @ map (\<lambda>h. SendM (sync_block (of_nat h))) [Suc (unat (lastHeight s))..<Suc (unat (lastHeight s'))]"
    "lastHeight s' = last (lastHeight s # map block_height bs)" by (elim exE conjE)
  then show ?thesis using sync_heights_upt[of "Suc (unat (lastHeight s'))" "lastHeight s'"] by blast
qed

end
