(* ===== verification/Miner_Facts.thy ===== *)
theory Miner_Facts
  imports Miner
begin

text \<open>
  What mining does to the channels: invariants of the miner as a locale (whatever the node answers, a
  transaction only adds events, contracts, transfers and new account tokens), and the documents
  that a mined block sends, in order.
\<close>

section \<open>Invariants of mining a transaction\<close>

text \<open>A change of the world, and a request to the node or the database, that keeps an invariant.\<close>

definition passes :: "('e Indexer \<Rightarrow> bool) \<Rightarrow> 'e \<Rightarrow> 'e \<Rightarrow> bool" where
  "passes I w w' \<longleftrightarrow> (\<forall>s. I (s\<lparr>world := w\<rparr>) \<longrightarrow> I (s\<lparr>world := w'\<rparr>))"

definition harmless :: "('e Indexer \<Rightarrow> bool) \<Rightarrow> ('e \<Rightarrow> 'a \<times> 'e) \<Rightarrow> bool" where
  "harmless I f \<longleftrightarrow> (\<forall>w. passes I w (snd (f w)))"

lemma passes_refl: "passes I w w"
  and passes_trans: "passes I w w1 \<Longrightarrow> passes I w1 w2 \<Longrightarrow> passes I w w2"
  by (auto simp: passes_def)

lemma passesD: "passes I (world s) w \<Longrightarrow> I s \<Longrightarrow> I (s\<lparr>world := w\<rparr>)"
  unfolding passes_def by (drule spec[of _ s]) simp

lemma harmlessD: "harmless I f \<Longrightarrow> f w = (r, w') \<Longrightarrow> passes I w w'"
  unfolding harmless_def by (metis snd_conv)

lemma harmless_ext: "harmless I f \<Longrightarrow> preserves I (ext f)"
  by (rule preservesI) (auto simp: harmless_def intro: passesD)

lemma Count_world: "\<exists>q. \<forall>w. snd (Count E params w) = snd (es_Count E (IndexName params) q w)"
  unfolding Count_def Let_def by (auto split: prod.splits sum.splits)

lemma SelectOne_world: "\<exists>q srt. \<forall>w. snd (SelectOne E params decode w) = snd (es_Search E (IndexName params) q srt 1 w)"
proof -
  have "snd (case x of (Inl err, w') \<Rightarrow> (Inl err, w') | (Inr (n, hits), w') \<Rightarrow>
      (if n = 0 then (Inr None, w') else case hits of [] \<Rightarrow> (Inr None, w')
       | (hit_id, src) # _ \<Rightarrow> (case decode src of None \<Rightarrow> (Inl json_err, w')
         | Some document \<Rightarrow> (Inr (Some (SetID hit_id document)), w')))) = snd x"
    for x :: "(go_error + int \<times> hit list) \<times> 'a"
    by (auto split: prod.split sum.split list.split option.split)
  then show ?thesis unfolding SelectOne_def Let_def by (intro exI allI) assumption
qed

lemma Next_world: "snd (snd (Next E decode sc w)) \<in> {w, snd (es_Scroll E (fst (scrollService sc)) (snd (scrollService sc)) w)}"
  by (auto simp: Next_def scroll_load_def Let_def split: prod.splits sum.splits option.splits if_splits)

definition side_types :: "string set" where
  "side_types = {''name'', ''event'', ''token'', ''contract'', ''token_transfer'', ''account_tokens'', ''nft'',
     ''account_balance'', ''whitelist''}"

text \<open>
  The interface of verifying tokens and contracts: the requests are harmless, and so are the updates of documents of
  given types.
\<close>

locale visiting =
  fixes E :: "'e env"
    and I :: "'e Indexer \<Rightarrow> bool"
    and U :: "string set"
  assumes visit_asks: "harmless I (rpc_QueryContract E a q)" "harmless I (http_Get E k)"
      "harmless I (es_Search E k query srt n)" "harmless I (es_Count E k query)"
    and visit_updates: "t \<in> U \<Longrightarrow> preserves I (update_in E t x)"
begin

named_theorems inv

lemma query_passes: "queryContract E a name args w = (r, w') \<Longrightarrow> passes I w w'"
  by (auto simp: queryContract_def Let_def dest!: harmlessD[OF visit_asks(1)] split: prod.splits sum.splits gval.splits option.splits)

lemma inv_metadata [inv]: "preserves I (ext (QueryMetadataOf E c m))"
  unfolding QueryMetadataOf_def
  by (auto intro!: harmless_ext simp: harmless_def Let_def split: prod.splits sum.splits dest!: query_passes)

lemma inv_code [inv]: "preserves I (ext (GetCode E k))"
  using visit_asks(2) by (auto intro!: harmless_ext simp: harmless_def GetCode_def)

lemma inv_reads [inv]: "preserves I (ext (Count E params))" "preserves I (ext (SelectOne E params decode))"
proof -
  from Count_world[of E params] obtain q where "\<forall>w. snd (Count E params w) = snd (es_Count E (IndexName params) q w)" by (elim exE)
  then show "preserves I (ext (Count E params))"
    using visit_asks(4)[of "IndexName params" q] by (intro harmless_ext) (simp add: harmless_def)
  from SelectOne_world[of E params decode] obtain q srt where
    "\<forall>w. snd (SelectOne E params decode w) = snd (es_Search E (IndexName params) q srt 1 w)" by (elim exE)
  then show "preserves I (ext (SelectOne E params decode))"
    using visit_asks(3)[of "IndexName params" q srt 1] by (intro harmless_ext) (simp add: harmless_def)
qed

lemma inv_select [inv]: "preserves I (select_by_id E t decode docid)"
  unfolding select_by_id_def by (intro preserves_intros inv)

lemma inv_marks [inv]: "''token'' \<in> U \<Longrightarrow> preserves I (updateTokenVerified E v)"
    "''contract'' \<in> U \<Longrightarrow> preserves I (updateContract E cu)"
  by (auto simp: updateTokenVerified_def updateContract_def intro!: visit_updates)

lemma inv_verified [inv]:
  "''token'' \<in> U \<Longrightarrow> preserves I (MinerTokenVerified E k c m)"
  "''contract'' \<in> U \<Longrightarrow> preserves I (MinerContractVerified E k c m)"
  unfolding MinerTokenVerified_def MinerContractVerified_def unverify_token_def unverify_contract_def
    fetch_code_def count_transfers_def cntTokenTransfer_def getToken_def getContract_def
  by (intro preserves_intros inv; assumption)+

end

text \<open>
  The interface of mining a transaction: the invariant survives the requests that mining makes, the writes to the
  indices beside those of blocks and transactions, the caches, and what is sent beside blocks and transactions.
\<close>

locale mining =
  fixes E :: "'e env"
    and I :: "'e Indexer \<Rightarrow> bool"
    and T :: BlockType
  assumes ask_node: "harmless I (rpc_QueryContract E a q)" "harmless I (rpc_GetState E a)" "harmless I (rpc_GetStaking E a)"
      "harmless I (rpc_GetReceipt E a)" "harmless I (rpc_GetBlock E k)" "harmless I (http_Get E k)"
    and ask_db: "harmless I (es_Search E k query srt n)" "harmless I (es_Count E k query)" "harmless I (es_Scroll E req sid)"
    and wait: "I s \<Longrightarrow> I (s\<lparr>world := clock_Sleep E d (world s)\<rparr>)"
    and side_insert: "t \<in> side_types \<Longrightarrow> preserves I (insert_into E t x)"
    and side_update: "t \<in> side_types \<Longrightarrow> preserves I (update_in E t x)"
    and I_balance: "I s \<Longrightarrow> I (s\<lparr>addrsBalance := b\<rparr>)"
    and I_peer: "I s \<Longrightarrow> I (s\<lparr>peerId := p\<rparr>)"
    and I_send: "T = BlockType_Bulk \<Longrightarrow> I s \<Longrightarrow> c \<in> {ChEvent, ChContract, ChTokenTransfer} \<Longrightarrow>
      I (s\<lparr>acts := acts s @ [SendB c (added x)]\<rparr>)"
    and I_acc: "T = BlockType_Bulk \<Longrightarrow> I s \<Longrightarrow> Doc_Id tk \<notin> set (accToken s) \<Longrightarrow>
      I (s\<lparr>accToken := Doc_Id tk # accToken s, acts := acts s @ [SendB ChAccTokens (added (DAccountTokens tk))]\<rparr>)"

sublocale mining \<subseteq> visiting E I side_types
  using ask_node ask_db side_insert side_update by unfold_locales auto

context mining
begin

lemma inv_queries [inv]:
  "preserves I (ext (QueryBalanceOf E c acc f))" "preserves I (ext (QueryOwnerOf E c m f))"
  "preserves I (ext (QueryTotalSupply E c f))"
  unfolding QueryBalanceOf_def QueryOwnerOf_def QueryTotalSupply_def
  by (auto intro!: harmless_ext simp: harmless_def Let_def split: prod.splits sum.splits dest!: query_passes)

lemma inv_QueryNFTMetadata [inv]: "preserves I (ext (QueryNFTMetadata E c m))"
  unfolding QueryNFTMetadata_def
  by (auto intro!: harmless_ext simp: harmless_def Let_def split: prod.splits dest!: query_passes intro: passes_trans)

lemma inv_QueryTokenInfo [inv]: "preserves I (ext (QueryTokenInfo E c))"
proof (rule harmless_ext, unfold harmless_def, rule allI)
  fix w
  obtain n w1 where n: "queryContract E c ''name'' [] w = (n, w1)" by fastforce
  obtain s w2 where s: "queryContract E c ''symbol'' [] w1 = (s, w2)" by fastforce
  obtain d w3 where d: "queryContract E c ''decimals'' [] w2 = (d, w3)" by fastforce
  have "passes I w w1" "passes I w w3" by (rule query_passes[OF n], rule passes_trans[OF query_passes[OF n] passes_trans[OF query_passes[OF s] query_passes[OF d]]])
  then show "passes I w (snd (QueryTokenInfo E c w))" by (cases n) (simp_all add: QueryTokenInfo_def n s d)
qed

lemma inv_BalanceOf [inv]: "preserves I (ext (BalanceOf E a))"
proof (rule harmless_ext, unfold harmless_def, rule allI)
  fix w
  obtain u w1 where u: "rpc_GetState E a w = (u, w1)" by fastforce
  obtain v w2 where v: "rpc_GetStaking E a w1 = (v, w2)" by fastforce
  have "passes I w w2" by (rule passes_trans[OF harmlessD[OF ask_node(2) u] harmlessD[OF ask_node(3) v]])
  then show "passes I w (snd (BalanceOf E a w))" by (simp add: BalanceOf_def u v Let_def split: prod.split)
qed

lemma inv_requests [inv]:
  "preserves I (ext (GetReceipt E h))" "preserves I (ext (GetBlock E k))"
  using ask_node(4,5) by (auto intro!: harmless_ext simp: harmless_def GetReceipt_def GetBlock_def)

lemma inv_next_doc [inv]: "preserves I (next_doc E decode scroll)"
proof -
  have "passes I w (snd (snd (Next E decode scroll w)))" for w
    using Next_world[of E decode scroll w] ask_db(3) passes_refl[of I w] by (auto simp: harmless_def)
  then show ?thesis unfolding next_doc_def by (intro harmless_ext) (simp add: harmless_def case_prod_beta)
qed

lemma inv_basic [inv]:
  "preserves I (Sleep E d)" "preserves I (lft y)" "preserves I (storeBalance docid)" "preserves I (deleteBalance docid)"
  by (auto intro!: preservesI wait I_balance simp: storeBalance_def deleteBalance_def lft_def)

lemma inv_write [inv]: "t \<in> side_types \<Longrightarrow> preserves I (insert_into E t x)" "t \<in> side_types \<Longrightarrow> preserves I (update_in E t x)"
  by (fact side_insert side_update)+

lemma side_types_mem [simp]:
  "''name'' \<in> side_types" "''event'' \<in> side_types" "''token'' \<in> side_types" "''contract'' \<in> side_types"
  "''token_transfer'' \<in> side_types" "''account_tokens'' \<in> side_types" "''nft'' \<in> side_types"
  "''account_balance'' \<in> side_types" "''whitelist'' \<in> side_types"
  by (simp_all add: side_types_def)

lemma inv_send [inv]: "T = BlockType_Bulk \<Longrightarrow> c \<in> {ChEvent, ChContract, ChTokenTransfer} \<Longrightarrow> preserves I (send_add c d)"
  by (rule preservesI) (use I_send in auto)

lemma inv_accTokens [inv]: "t = T \<Longrightarrow> preserves I (addAccountTokens E t d)"
proof (cases "T = BlockType_Bulk")
  case True
  assume "t = T"
  with True show ?thesis using I_acc by (auto simp: addAccountTokens_bulk intro!: preservesI split: if_splits)
next
  case False
  assume "t = T"
  with False show ?thesis by (simp add: addAccountTokens_def inv_write)
qed

lemma inv_adds [inv]:
  "t = T \<Longrightarrow> preserves I (addEvent E t e)" "t = T \<Longrightarrow> preserves I (addContract E t c)"
  "t = T \<Longrightarrow> preserves I (addTokenTransfer E t x)"
  "preserves I (addName E n)" "preserves I (addToken E k)" "preserves I (addWhitelist E wl)"
  "preserves I (updateToken E u)"
  by (auto simp: add_defs intro!: preserves_intros inv)

lemma inv_addNFT [inv]: "preserves I (addNFT E n)"
  by (auto simp: addNFT_def getNFT_def intro!: preserves_intros inv)

lemma inv_addAccountBalance [inv]: "preserves I (addAccountBalance E b)"
  by (auto simp: addAccountBalance_def getAccountBalance_def Let_def intro!: preserves_intros inv)

lemma inv_ask [inv]: "(\<And>flag. preserves I (ext (q flag))) \<Longrightarrow> preserves I (ask q c)"
  by (auto simp: ask_def intro!: preserves_intros)

lemma inv_events [inv]:
  "t = T \<Longrightarrow> preserves I (event_new_token E t x e)" "t = T \<Longrightarrow> preserves I (event_mint E t x e)"
  "t = T \<Longrightarrow> preserves I (event_transfer E t x e)" "t = T \<Longrightarrow> preserves I (event_burn E t x e)"
  by (auto simp: event_new_token_def add_new_token_def event_mint_def event_transfer_def event_burn_def
      add_balance_of_def update_supply_def add_nft_def Let_def intro!: preserves_intros inv)

lemma inv_MinerEvent [inv]: "BlockInfo_Type info = T \<Longrightarrow> preserves I (MinerEvent E info b x i e)"
  by (auto simp: MinerEvent_def MinerEventByAddr_def MinerEventByName_def Let_def intro!: preserves_intros inv)

lemma inv_tx_contracts [inv]: "BlockInfo_Type info = T \<Longrightarrow> preserves I (tx_contracts E i info b tx r d)"
  unfolding tx_contracts_def policy2_token_def Let_def by (intro preserves_intros inv) auto

lemma inv_tx_body [inv]: "BlockInfo_Type info = T \<Longrightarrow> preserves I (tx_body E i info b tx r d)"
  unfolding tx_body_def by (intro preserves_intros inv)

lemma inv_MinerBalance [inv]: "preserves I (MinerBalance E b a)"
  by (auto simp: MinerBalance_def intro!: preserves_intros inv)

lemma inv_get_block [inv]: "preserves I (get_block_retry E q)"
proof (rule preservesI)
  fix s o1 t assume "get_block_retry E q s = Some (o1, t)" and "I s"
  moreover have "E = E \<longrightarrow> I s \<longrightarrow> I (snd y)" if "get_block_retry E q s = Some y" for y
  proof (rule get_block_retry.raw_induct[where P = "\<lambda>E' q s y. E' = E \<longrightarrow> I s \<longrightarrow> I (snd y)", OF _ that], intro impI)
    fix f and E' :: "'e env" and q s y
    assume IH: "\<And>E' q s y. f E' q s = Some y \<Longrightarrow> E' = E \<longrightarrow> I s \<longrightarrow> I (snd y)" and "E' = E" "I s"
      and "bnd (ext (GetBlock E' q)) (\<lambda>r s. case r of
        Inl x \<Rightarrow> sq (Sleep E' (100 * 10 ^ 6)) (f E' q) s | Inr block \<Rightarrow> ret block s) s = Some y"
    moreover obtain r w where g: "GetBlock E q (world s) = (r, w)" by fastforce
    ultimately have body: "(case r of Inl x \<Rightarrow> f E q (s\<lparr>world := clock_Sleep E (100 * 10 ^ 6) w\<rparr>)
        | Inr block \<Rightarrow> ret block (s\<lparr>world := w\<rparr>)) = Some y"
      by (cases r) (simp_all add: sq_Ret[OF Sleep_run])
    have "ext (GetBlock E q) s = Some (Ret r, s\<lparr>world := w\<rparr>)" using g by simp
    then have w: "I (s\<lparr>world := w\<rparr>)" using preservesD[OF inv_requests(2)] \<open>I s\<close> by blast
    then have "I (s\<lparr>world := clock_Sleep E (100 * 10 ^ 6) w\<rparr>)" using wait[of "s\<lparr>world := w\<rparr>"] by simp
    with body IH w show "I (snd y)" by (cases r) auto
  qed
  ultimately show "I t" by fastforce
qed

lemma inv_getPeerId [inv]: "preserves I (getPeerId E k)"
  by (auto simp: getPeerId_def Let_def intro!: preserves_intros I_peer)

lemma inv_scroll_each:
  assumes fn: "\<And>d acc. preserves I (fn d acc)"
  shows "preserves I (scroll_each E decode fn acc scroll)"
proof (rule preservesI)
  fix s o1 t assume "scroll_each E decode fn acc scroll s = Some (o1, t)" and "I s"
  moreover have "E = E \<longrightarrow> (\<forall>d acc. preserves I (fn d acc)) \<longrightarrow> I s \<longrightarrow> I (snd y)"
    if "scroll_each E decode fn acc scroll s = Some y" for y
  proof (rule scroll_each.raw_induct[where P = "\<lambda>E' decode fn acc scroll s y.
      E' = E \<longrightarrow> (\<forall>d acc. preserves I (fn d acc)) \<longrightarrow> I s \<longrightarrow> I (snd y)", OF _ that], intro impI)
    fix f and E' :: "'e env" and decode fn acc scroll s y
    assume IH: "\<And>E' decode fn acc scroll s y. f E' decode fn acc scroll s = Some y \<Longrightarrow>
        E' = E \<longrightarrow> (\<forall>d acc. preserves I (fn d acc)) \<longrightarrow> I s \<longrightarrow> I (snd y)"
      and E': "E' = E" and fn: "\<forall>d acc. preserves I (fn d acc)" and "I s"
      and body: "bnd (next_doc E' decode scroll) (\<lambda>(r, scroll') s.
        if r = Inl EOF then ret acc s
        else case r of Inl x \<Rightarrow> f E' decode fn acc scroll' s
          | Inr document \<Rightarrow> bnd (fn document acc) (\<lambda>acc'. f E' decode fn acc' scroll') s) s = Some y"
    obtain r sc w where n: "Next E decode scroll (world s) = (r, sc, w)" by (metis prod_cases3)
    then have nd: "next_doc E decode scroll s = Some (Ret (r, sc), s\<lparr>world := w\<rparr>)" by (simp add: next_doc_def)
    have Iw: "I (s\<lparr>world := w\<rparr>)" using preservesD[OF inv_next_doc nd \<open>I s\<close>] .
    from body have b: "(if r = Inl EOF then ret acc (s\<lparr>world := w\<rparr>)
      else case r of Inl x \<Rightarrow> f E decode fn acc sc (s\<lparr>world := w\<rparr>)
        | Inr document \<Rightarrow> bnd (fn document acc) (\<lambda>acc'. f E decode fn acc' sc) (s\<lparr>world := w\<rparr>)) = Some y"
      unfolding E' bnd_Ret[where m = "next_doc E decode scroll", OF nd] by simp
    show "I (snd y)"
    proof (cases r)
      case (Inl e)
      with b IH fn Iw show ?thesis by (cases "e = EOF") auto
    next
      case (Inr d)
      with b obtain o2 s2 where f1: "fn d acc (s\<lparr>world := w\<rparr>) = Some (o2, s2)"
        and rest: "(case o2 of Ret acc' \<Rightarrow> f E decode fn acc' sc s2 | Panic p \<Rightarrow> Some (Panic p, s2)) = Some y"
        by (auto simp: bnd_def split: option.splits)
      have "preserves I (fn d acc)" using fn by blast
      then have "I s2" using f1 Iw by (rule preservesD)
      with rest IH fn show ?thesis by (cases o2) auto
    qed
  qed
  ultimately show "I t" using fn by fastforce
qed

lemma inv_refresh_balances [inv]: "preserves I (refresh_balances E b m as)"
  by (induction as arbitrary: m) (auto intro!: preserves_intros inv)

lemma inv_refresh [inv]: "preserves I (refreshVariables E info b)"
  unfolding refreshVariables_def refresh_tracked_def ScrollWhitelist_def scroll_index_of_def refresh_entry_def
  by (intro preserves_intros inv inv_scroll_each) simp_all

end

text \<open>An invariant that does not look at the world survives whatever the node and the database answer.\<close>

locale miner_invariant =
  fixes I :: "'e Indexer \<Rightarrow> bool"
    and T :: BlockType
  assumes I_world: "I s \<Longrightarrow> I (s\<lparr>world := w\<rparr>)"
    and any_balance: "I s \<Longrightarrow> I (s\<lparr>addrsBalance := b\<rparr>)"
    and any_peer: "I s \<Longrightarrow> I (s\<lparr>peerId := p\<rparr>)"
    and any_send: "T = BlockType_Bulk \<Longrightarrow> I s \<Longrightarrow> c \<in> {ChEvent, ChContract, ChTokenTransfer} \<Longrightarrow>
      I (s\<lparr>acts := acts s @ [SendB c (added d)]\<rparr>)"
    and any_acc: "T = BlockType_Bulk \<Longrightarrow> I s \<Longrightarrow> Doc_Id t \<notin> set (accToken s) \<Longrightarrow>
      I (s\<lparr>accToken := Doc_Id t # accToken s, acts := acts s @ [SendB ChAccTokens (added (DAccountTokens t))]\<rparr>)"
begin

lemma any_request: "harmless I f"
proof -
  have "I (s\<lparr>world := w'\<rparr>)" if "I (s\<lparr>world := w\<rparr>)" for s w w' using I_world[OF that, of w'] by simp
  then show ?thesis by (simp add: harmless_def passes_def)
qed

sublocale mining E I T for E :: "'e env"
  by unfold_locales (auto intro!: any_request preservesI I_world any_balance any_peer any_send any_acc)

end

text \<open>An invariant that also survives the documents of transactions and blocks is one of the whole miner.\<close>

locale block_invariant = miner_invariant +
  assumes I_send_tx: "T = BlockType_Bulk \<Longrightarrow> I s \<Longrightarrow> I (s\<lparr>acts := acts s @ [SendB ChTx (added x)]\<rparr>)"
    and I_send_block: "T = BlockType_Bulk \<Longrightarrow> I s \<Longrightarrow> I (s\<lparr>acts := acts s @ [SendB ChBlock (added x)]\<rparr>)"
begin

lemma inv_addTx [inv]: "t = T \<Longrightarrow> preserves I (addTx E t d)"
  and inv_addBlock [inv]: "t = T \<Longrightarrow> preserves I (addBlock E t b)"
  by (auto simp: addTx_def addBlock_def intro!: preservesI I_world I_send_tx I_send_block)

lemma inv_MinerTx [inv]: "BlockInfo_Type info = T \<Longrightarrow> preserves I (MinerTx E i info b tx)"
  unfolding MinerTx_def Let_def by (intro preserves_intros inv) simp_all

lemma inv_mine_block [inv]: "BlockInfo_Type info = T \<Longrightarrow> preserves I (mine_block E info)"
  unfolding mine_block_def index_block_def by (intro preserves_intros inv) simp_all

lemma inv_Miner: "\<forall>info \<in> set infos. BlockInfo_Type info \<in> {T, BlockType_StopMiner} \<Longrightarrow> preserves I (Miner E infos)"
  by (induction infos) (auto intro!: preserves_intros inv)

end

section \<open>Documents sent to a channel\<close>

definition sent_doc :: "chan \<Rightarrow> action \<Rightarrow> doc option" where
  "sent_doc c a = (case a of SendB c' i \<Rightarrow>
     if c' = c \<and> ChanInfo_Type i = ChanType_Add then ChanInfo_Doc i else None | _ \<Rightarrow> None)"

definition sends :: "chan \<Rightarrow> action list \<Rightarrow> doc list" where
  "sends c l = List.map_filter (sent_doc c) l"

lemma sends_append [simp]: "sends c (k @ l) = sends c k @ sends c l"
  and sends_nil [simp]: "sends c [] = []"
  and sends_added [simp]: "sends c (SendB c' (added d) # l) = (if c' = c then [d] else []) @ sends c l"
  by (auto simp: sends_def sent_doc_def List.map_filter_def added_def)

text \<open>A transaction sends nothing to the channels of transactions and blocks by itself.\<close>

definition quiet_since :: "action list \<Rightarrow> 'e Indexer \<Rightarrow> bool" where
  "quiet_since base s \<longleftrightarrow> (\<exists>l. acts s = base @ l \<and> sends ChTx l = [] \<and> sends ChBlock l = [])"

interpretation quiet: miner_invariant "quiet_since base" T for base :: "action list" and T
proof
  fix s :: "'e Indexer" and c :: chan and d :: doc
  assume q: "quiet_since base s" and c: "c \<in> {ChEvent, ChContract, ChTokenTransfer}"
  from q obtain l where "acts s = base @ l" "sends ChTx l = []" "sends ChBlock l = []"
    by (auto simp: quiet_since_def)
  with c show "quiet_since base (s\<lparr>acts := acts s @ [SendB c (added d)]\<rparr>)"
    by (auto simp: quiet_since_def)
next
  fix s :: "'e Indexer" and t :: EsAccountTokens
  assume q: "quiet_since base s"
  then obtain l where "acts s = base @ l" "sends ChTx l = []" "sends ChBlock l = []"
    by (auto simp: quiet_since_def)
  then show "quiet_since base (s\<lparr>accToken := Doc_Id t # accToken s,
      acts := acts s @ [SendB ChAccTokens (added (DAccountTokens t))]\<rparr>)"
    by (auto simp: quiet_since_def)
qed (simp_all add: quiet_since_def)

text \<open>Outside bulk mode nothing is sent at all.\<close>

interpretation silent: block_invariant "\<lambda>s. acts s = l" BlockType_Sync for l
  by unfold_locales simp_all

text \<open>The documents of account tokens that were sent are distinct, and all remembered.\<close>

definition acc_once :: "'e Indexer \<Rightarrow> bool" where
  "acc_once s \<longleftrightarrow> distinct (map doc_GetID (sends ChAccTokens (acts s))) \<and>
     set (map doc_GetID (sends ChAccTokens (acts s))) \<subseteq> set (accToken s)"

interpretation once: block_invariant acc_once T for T
  by unfold_locales (auto simp: acc_once_def GetID_def)

section \<open>Every step of mining a transaction ends\<close>

lemma ends_idx [ends_intros]:
  "ends (ext f)" "ends (logged g)" "ends (insert_into E t x)" "ends (update_in E t x)" "ends (send_add c x)"
  "ends (select_by_id E t decode docid)" "ends (lft y)" "ends (storeBalance docid)"
  by (auto simp: ends_def storeBalance_def lft_def)

lemma ends_adds [ends_intros]:
  "ends (addTx E t d)" "ends (addBlock E t b)"
  "ends (addEvent E t e)" "ends (addContract E t c)" "ends (addTokenTransfer E t x)"
  "ends (addName E n)" "ends (addToken E k)" "ends (addWhitelist E wl)"
  "ends (updateToken E u)" "ends (updateTokenVerified E v)" "ends (updateContract E cu)"
  by (auto simp: add_defs intro!: ends_intros)

lemma ends_addAccountTokens [ends_intros]: "ends (addAccountTokens E t d)"
  by (auto simp: addAccountTokens_def getAccTokens_def intro!: ends_intros)

lemma ends_addNFT [ends_intros]: "ends (addNFT E n)"
  by (auto simp: addNFT_def getNFT_def intro!: ends_intros)

lemma ends_ask [ends_intros]: "ends (ask q c)"
  by (auto simp: ask_def intro!: ends_intros)

lemma ends_events [ends_intros]:
  "ends (event_new_token E t x e)" "ends (event_mint E t x e)"
  "ends (event_transfer E t x e)" "ends (event_burn E t x e)"
  by (auto simp: event_new_token_def add_new_token_def event_mint_def event_transfer_def event_burn_def
      add_balance_of_def update_supply_def add_nft_def Let_def intro!: ends_intros)

lemma ends_MinerEvent [ends_intros]: "ends (MinerEvent E info b x i e)"
  by (auto simp: MinerEvent_def MinerEventByAddr_def MinerEventByName_def Let_def intro!: ends_intros)

lemma ends_tx_body [ends_intros]: "ends (tx_body E i info b tx r d)"
  by (auto simp: tx_body_def tx_contracts_def policy2_token_def Let_def intro!: ends_intros)

lemma ends_MinerTx [ends_intros]: "ends (MinerTx E i info b tx)"
  by (auto simp: MinerTx_def Let_def intro!: ends_intros)

section \<open>A mined transaction\<close>

lemma lft_run: "lft x s = Some (x, s)"
  by (simp add: lft_def)

text \<open>The receipt the node gave, or nil.\<close>

definition receipt_of :: "'e env \<Rightarrow> Tx \<Rightarrow> 'e \<Rightarrow> Receipt option" where
  "receipt_of E tx w = (case fst (GetReceipt E (GetTxHash tx) w) of Inl _ \<Rightarrow> None | Inr x \<Rightarrow> Some x)"

lemma MinerTx_unfold:
  assumes "ConvTx E i tx (receipt_of E tx (world s)) b = Ret d"
  shows "MinerTx E i info b tx s = deferred (addTx E (BlockInfo_Type info) d)
    (tx_body E i info b tx (receipt_of E tx (world s)) d)
    (s\<lparr>world := snd (GetReceipt E (GetTxHash tx) (world s))\<rparr>)"
  using assms by (simp add: MinerTx_def receipt_of_def[symmetric] Let_def)

lemma deferred_run:
  "m s = Some (o1, s1) \<Longrightarrow> d s1 = Some (Ret (), s2) \<Longrightarrow> deferred d m s = Some (o1, s2)"
  by (simp add: deferred_def)

text \<open>Whatever happens in the body, a panic included, in bulk mode exactly one transaction document is sent, and
  it is the last thing sent.\<close>

lemma MinerTx_bulk:
  assumes body: "Tx_Body tx = Some body" and bulk: "BlockInfo_Type info = BlockType_Bulk"
  obtains o1 s' d l where "MinerTx E i info b tx s = Some (o1, s')"
    "ConvTx E i tx (receipt_of E tx (world s)) b = Ret d"
    "acts s' = acts s @ l @ [SendB ChTx (added (DTx d))]" "sends ChTx l = []" "sends ChBlock l = []"
proof -
  obtain d where d: "ConvTx E i tx (receipt_of E tx (world s)) b = Ret d"
    using ConvTx_Ret[OF body] by metis
  let ?r = "receipt_of E tx (world s)"
  let ?s0 = "s\<lparr>world := snd (GetReceipt E (GetTxHash tx) (world s))\<rparr>"
  obtain o1 s1 where run: "tx_body E i info b tx ?r d ?s0 = Some (o1, s1)"
    using endsD[OF ends_tx_body] by metis
  have "quiet_since (acts s) ?s0" by (simp add: quiet_since_def)
  then have "quiet_since (acts s) s1"
    using preservesD[OF quiet.inv_tx_body[OF refl] run] by blast
  then obtain l where l: "acts s1 = acts s @ l" "sends ChTx l = []" "sends ChBlock l = []"
    by (auto simp: quiet_since_def)
  let ?s2 = "s1\<lparr>acts := acts s1 @ [SendB ChTx (added (DTx d))]\<rparr>"
  have "addTx E (BlockInfo_Type info) d s1 = Some (Ret (), ?s2)" using bulk by (simp add: addTx_def)
  then have "MinerTx E i info b tx s = Some (o1, ?s2)"
    unfolding MinerTx_unfold[OF d] by (rule deferred_run[where m = "tx_body E i info b tx ?r d", OF run])
  then show thesis using that d l by simp
qed

text \<open>A deployment whose receipt could not be fetched panics, after its transaction document was added.\<close>

lemma MinerTx_no_receipt:
  assumes body: "Tx_Body tx = Some body" and cat: "DetectTxCategory E tx = Ret (TxDeploy, n)"
    and nor: "receipt_of E tx (world s) = None"
  shows "\<exists>s'. MinerTx E i info b tx s = Some (Panic NilDeref, s')"
proof -
  obtain d where d: "ConvTx E i tx (receipt_of E tx (world s)) b = Ret d" "EsTx_Category d = TxDeploy"
    using ConvTx_Ret[OF body, of E i "receipt_of E tx (world s)" b] cat by (metis outcome.inject(1) prod.inject)
  have rcp: "bytes_of (GetRecipient (GetBody tx)) = []"
    using cat body governance_ranges[of E tx]
    by (cases rule: plain_category_cases[OF body])
      (auto simp: DetectTxCategory_body[OF body] GetBody_def Let_def category_defs split: if_splits)
  let ?s0 = "s\<lparr>world := snd (GetReceipt E (GetTxHash tx) (world s))\<rparr>"
  have "\<exists>s1. tx_body E i info b tx None d ?s0 = Some (Panic NilDeref, s1)"
    using rcp d(2) body
    by (simp add: tx_body_def tx_contracts_def contract_of_def GetBody_def storeBalance_def)
  then obtain s1 where run: "tx_body E i info b tx None d ?s0 = Some (Panic NilDeref, s1)" by blast
  obtain s2 where "addTx E (BlockInfo_Type info) d s1 = Some (Ret (), s2)"
    by (cases "BlockInfo_Type info") (auto simp: addTx_def)
  then show ?thesis
    unfolding MinerTx_unfold[OF d(1)] nor using deferred_run[where m = "tx_body E i info b tx None d", OF run] by blast
qed

section \<open>A mined block\<close>

text \<open>The transactions of a block one after the other: one document each, numbered from \<open>k\<close>.\<close>

lemma mine_txs_bulk:
  assumes "\<forall>tx \<in> set txs. Tx_Body tx \<noteq> None" and bulk: "BlockInfo_Type info = BlockType_Bulk"
    and "each_from k (\<lambda>i tx. MinerTx E (of_nat i) info b tx) txs s = Some (Ret (), s')"
  shows "\<exists>ds l. acts s' = acts s @ l \<and> sends ChTx l = map DTx ds \<and> sends ChBlock l = [] \<and>
    map Doc_Id ds = map (base58 E \<circ> Tx_Hash) txs \<and> map EsTx_TxIdx ds = map of_nat [k..<k + length txs] \<and>
    (\<forall>d \<in> set ds. EsTx_BlockNo d = EsBlock_BlockNo b)"
  using assms(1,3)
proof (induction txs arbitrary: k s)
  case Nil
  then show ?case by simp
next
  case (Cons tx txs)
  then obtain body where body: "Tx_Body tx = Some body" by auto
  obtain o1 s1 d l1 where t: "MinerTx E (of_nat k) info b tx s = Some (o1, s1)"
    "ConvTx E (of_nat k) tx (receipt_of E tx (world s)) b = Ret d"
    "acts s1 = acts s @ l1 @ [SendB ChTx (added (DTx d))]" "sends ChTx l1 = []" "sends ChBlock l1 = []"
    by (rule MinerTx_bulk[OF body bulk])
  have d: "Doc_Id d = base58 E (Tx_Hash tx)" "EsTx_BlockNo d = EsBlock_BlockNo b" "EsTx_TxIdx d = of_nat k"
    using ConvTx_Ret[OF body, of E "of_nat k" "receipt_of E tx (world s)" b] t(2) by (metis outcome.inject(1))+
  obtain x s2 where "MinerTx E (of_nat k) info b tx s = Some (Ret x, s2)"
    "each_from (Suc k) (\<lambda>i tx. MinerTx E (of_nat i) info b tx) txs s2 = Some (Ret (), s')"
    using Cons.prems(2) by (auto elim: sq_RetE)
  with t(1) have rest: "each_from (Suc k) (\<lambda>i tx. MinerTx E (of_nat i) info b tx) txs s1 = Some (Ret (), s')"
    by simp
  from Cons.IH[OF _ rest] Cons.prems(1) obtain ds l where IH: "acts s' = acts s1 @ l"
    "sends ChTx l = map DTx ds" "sends ChBlock l = []" "map Doc_Id ds = map (base58 E \<circ> Tx_Hash) txs"
    "map EsTx_TxIdx ds = map of_nat [Suc k..<Suc k + length txs]" "\<forall>d \<in> set ds. EsTx_BlockNo d = EsBlock_BlockNo b"
    by auto
  have upt: "[k..<k + length (tx # txs)] = k # [Suc k..<Suc k + length txs]" by (simp add: upt_rec)
  show ?case
    by (rule exI[of _ "d # ds"], rule exI[of _ "l1 @ SendB ChTx (added (DTx d)) # l"])
      (use IH t d upt in \<open>simp\<close>)
qed

text \<open>A block that is mined in bulk mode sends one document per transaction, in order, and its own document as the very
  last thing.\<close>

lemma index_block_bulk:
  assumes "\<forall>tx \<in> set txs. Tx_Body tx \<noteq> None" and bulk: "BlockInfo_Type info = BlockType_Bulk"
    and run: "index_block E info b txs s = Some (Ret (), s')"
  shows "\<exists>ds l. acts s' = acts s @ l @ [SendB ChBlock (added (DBlock b))] \<and>
    sends ChTx l = map DTx ds \<and> sends ChBlock l = [] \<and>
    map Doc_Id ds = map (base58 E \<circ> Tx_Hash) txs \<and> map EsTx_TxIdx ds = map of_nat [0..<length txs] \<and>
    (\<forall>d \<in> set ds. EsTx_BlockNo d = EsBlock_BlockNo b)"
proof -
  from run bulk obtain x s1 where
    t: "each_from 0 (\<lambda>i tx. MinerTx E (of_nat i) info b tx) txs s = Some (Ret x, s1)"
    and e: "s' = s1\<lparr>acts := acts s1 @ [SendB ChBlock (added (DBlock b))]\<rparr>"
    by (auto simp: index_block_def addBlock_def sq_def bnd_def split: option.splits outcome.splits)
  from mine_txs_bulk[OF assms(1) bulk, where k = 0 and b = b] t
  obtain ds l where "acts s1 = acts s @ l" "sends ChTx l = map DTx ds" "sends ChBlock l = []"
    "map Doc_Id ds = map (base58 E \<circ> Tx_Hash) txs" "map EsTx_TxIdx ds = map of_nat [0..<length txs]"
    "\<forall>d \<in> set ds. EsTx_BlockNo d = EsBlock_BlockNo b"
    by fastforce
  with e show ?thesis by (intro exI[of _ ds] exI[of _ l]) simp
qed

lemma bnd_lft_RetE:
  assumes "bnd (lft y) f s = Some (Ret v, t)"
  obtains x where "y = Ret x" "f x s = Some (Ret v, t)"
  using assms by (cases y) simp_all

text \<open>The steps of mining a block that lead to its indexing; they leave the log alone.\<close>

lemma mine_block_steps:
  assumes run: "mine_block E info s = Some (Ret (), s')"
  obtains block s1 Body k p blockDoc s2 where
    "get_block_retry E (PutUint64 (BlockInfo_Height info)) s = Some (Ret block, s1)" "getPeerId E k s1 = Some (Ret p, s2)"
    "Block_Body block = Some Body" "ConvBlock E block p = Ret blockDoc"
    "index_block E info blockDoc (BlockBody_Txs Body) s2 = Some (Ret (), s')" "acts s2 = acts s"
proof -
  from run obtain block s1 where b: "get_block_retry E (PutUint64 (BlockInfo_Height info)) s = Some (Ret block, s1)"
    and "bnd (lft (deref (Block_Header block))) (\<lambda>Header.
      bnd (getPeerId E (BlockHeader_PubKey Header)) (\<lambda>p.
      bnd (lft (ConvBlock E block p)) (\<lambda>blockDoc.
      bnd (lft (deref (Block_Body block))) (\<lambda>Body.
      index_block E info blockDoc (BlockBody_Txs Body))))) s1 = Some (Ret (), s')"
    unfolding mine_block_def by (rule bnd_RetE)
  then obtain Header :: BlockHeader where "bnd (getPeerId E (BlockHeader_PubKey Header)) (\<lambda>p.
      bnd (lft (ConvBlock E block p)) (\<lambda>blockDoc.
      bnd (lft (deref (Block_Body block))) (\<lambda>Body.
      index_block E info blockDoc (BlockBody_Txs Body)))) s1 = Some (Ret (), s')"
    by (cases "Block_Header block") auto
  then obtain p s2 where p: "getPeerId E (BlockHeader_PubKey Header) s1 = Some (Ret p, s2)"
    and r3: "bnd (lft (ConvBlock E block p)) (\<lambda>blockDoc.
      bnd (lft (deref (Block_Body block))) (\<lambda>Body.
      index_block E info blockDoc (BlockBody_Txs Body))) s2 = Some (Ret (), s')"
    by (rule bnd_RetE)
  from r3 obtain blockDoc where c: "ConvBlock E block p = Ret blockDoc" and
    "bnd (lft (deref (Block_Body block))) (\<lambda>Body. index_block E info blockDoc (BlockBody_Txs Body)) s2 = Some (Ret (), s')"
    by (rule bnd_lft_RetE)
  then obtain Body where bd: "Block_Body block = Some Body"
    and ib: "index_block E info blockDoc (BlockBody_Txs Body) s2 = Some (Ret (), s')"
    by (cases "Block_Body block") simp_all
  have "acts s1 = acts s" using preservesD[OF silent.inv_get_block b] by blast
  moreover have "acts s2 = acts s1" using preservesD[OF silent.inv_getPeerId p] by blast
  ultimately show thesis using that[OF b p bd c ib] by simp
qed

text \<open>Only transactions with a body are mined without a panic.\<close>

lemma MinerTx_body:
  assumes "MinerTx E i info b tx s = Some (Ret x, s')"
  shows "Tx_Body tx \<noteq> None"
proof
  assume "Tx_Body tx = None"
  then have "MinerTx E i info b tx s = Some (Panic NilDeref, s\<lparr>world := snd (GetReceipt E (GetTxHash tx) (world s))\<rparr>)"
    by (simp add: MinerTx_def ConvTx_nil Let_def)
  with assms show False by simp
qed

lemma mine_txs_bodies:
  "each_from k (\<lambda>i tx. MinerTx E (of_nat i) info b tx) txs s = Some (Ret x, s') \<Longrightarrow> \<forall>tx \<in> set txs. Tx_Body tx \<noteq> None"
proof (induction txs arbitrary: k s)
  case (Cons tx txs)
  then obtain y s1 where "MinerTx E (of_nat k) info b tx s = Some (Ret y, s1)"
    "each_from (Suc k) (\<lambda>i tx. MinerTx E (of_nat i) info b tx) txs s1 = Some (Ret x, s')"
    by (auto elim: sq_RetE)
  then show ?case using MinerTx_body Cons.IH by auto
qed simp

end
