(* ===== verification/Index.thy ===== *)
theory Index
  imports Sync Miner_Facts
begin

text \<open>
  Building and starting an indexer (\<open>indexer/indexer.go\<close>, \<open>indexer/option.go\<close>, \<open>NewCache\<close> in
  \<open>indexer/cache.go\<close>): the options, the indices and their aliases, and the run modes.
\<close>

section \<open>Options\<close>

type_synonym 'e IndexerOptionFunc = "('e, go_error option) idx"

definition option_set :: "('e Indexer \<Rightarrow> 'e Indexer) \<Rightarrow> 'e IndexerOptionFunc" where
  "option_set f = sq (upd f) (ret None)"

definition SetServerAddr :: "string \<Rightarrow> 'e IndexerOptionFunc" where
  "SetServerAddr a = option_set (\<lambda>ns. ns\<lparr>serverAddr := a\<rparr>)"

definition SetDBAddr :: "string \<Rightarrow> 'e IndexerOptionFunc" where
  "SetDBAddr a = option_set (\<lambda>ns. ns\<lparr>dbAddr := a\<rparr>)"

definition SetPrefix :: "string \<Rightarrow> 'e IndexerOptionFunc" where
  "SetPrefix p = option_set (\<lambda>ns. ns\<lparr>index_prefix := p\<rparr>)"

definition SetNetworkTypeForCccv :: "string \<Rightarrow> 'e IndexerOptionFunc" where
  "SetNetworkTypeForCccv n = option_set (\<lambda>ns. ns\<lparr>networkTypeForCccv := n\<rparr>)"

definition SetRunMode :: "string \<Rightarrow> 'e IndexerOptionFunc" where
  "SetRunMode m = option_set (\<lambda>ns. ns\<lparr>runMode := m\<rparr>)"

definition SetFix :: "bool \<Rightarrow> 'e IndexerOptionFunc" where
  "SetFix b = option_set (\<lambda>ns. ns\<lparr>fixMode := b\<rparr>)"

definition SetWhiteListAddresses :: "string list \<Rightarrow> 'e IndexerOptionFunc" where
  "SetWhiteListAddresses l = option_set (\<lambda>ns. ns\<lparr>balanceWhitelist := l\<rparr>)"

definition SetTokenVerifyAddress :: "'e env \<Rightarrow> string \<Rightarrow> 'e IndexerOptionFunc" where
  "SetTokenVerifyAddress E a =
     (if a = [] then ret None
      else bnd (lft (DecodeAddress E a)) (\<lambda>r. case r of
        Inl err \<Rightarrow> ret (Some err)
      | Inr raw \<Rightarrow> option_set (\<lambda>ns. ns\<lparr>tokenVerifyAddr := Some raw\<rparr>)))"

definition SetContractVerifyAddress :: "'e env \<Rightarrow> string \<Rightarrow> 'e IndexerOptionFunc" where
  "SetContractVerifyAddress E a =
     (if a = [] then ret None
      else bnd (lft (DecodeAddress E a)) (\<lambda>r. case r of
        Inl err \<Rightarrow> ret (Some err)
      | Inr raw \<Rightarrow> option_set (\<lambda>ns. ns\<lparr>contractVerifyAddr := Some raw\<rparr>)))"

definition SetTokenVerifyWhitelist :: "string list \<Rightarrow> 'e IndexerOptionFunc" where
  "SetTokenVerifyWhitelist l = option_set (\<lambda>ns. ns\<lparr>tokenVerifyWhitelist := l\<rparr>)"

definition SetContractVerifyWhitelist :: "string list \<Rightarrow> 'e IndexerOptionFunc" where
  "SetContractVerifyWhitelist l = option_set (\<lambda>ns. ns\<lparr>contractVerifyWhitelist := l\<rparr>)"

section \<open>A new indexer\<close>

text \<open>The defaults; the mappings were chosen before.\<close>

definition default_indexer :: "bool \<Rightarrow> 'e \<Rightarrow> 'e Indexer" where
  "default_indexer clusterMode w =
     \<lparr>dbAddr = [], serverAddr = [], index_prefix = [], runMode = [], fixMode = False,
      networkTypeForCccv = [], indexNamePrefix = [], aliasNamePrefix = [], lastHeight = 0,
      cccvNftAddress = None, bulkSize = 4000, batchTime = 60 * Second, minerNum = 32, grpcNum = 16,
      tokenVerifyAddr = None, contractVerifyAddr = None, balanceWhitelist = [],
      tokenVerifyWhitelist = [], contractVerifyWhitelist = [], clusterMapping = clusterMode,
      stream = None, accToken = [], peerId = [], addrsBalance = [], acts = [], world = w\<rparr>"

primrec apply_options :: "'e IndexerOptionFunc list \<Rightarrow> ('e, go_error option) idx" where
  "apply_options [] = ret None"
| "apply_options (opt # opts) = bnd opt (\<lambda>err. if err \<noteq> None then ret err else apply_options opts)"

definition NewCache :: "'e env \<Rightarrow> ('e, unit) idx" where
  "NewCache E =
     bnd (rd tokenVerifyWhitelist) (\<lambda>tokens.
     sq (each (\<lambda>tokenAddr. addWhitelist E (ConvWhitelist tokenAddr [] ''token'')) tokens)
     (bnd (rd contractVerifyWhitelist) (\<lambda>contracts.
     sq (each (\<lambda>tokenAddr. addWhitelist E (ConvWhitelist tokenAddr [] ''contract'')) contracts)
     (bnd (rd balanceWhitelist) (\<lambda>balances. each storeBalance balances)))))"

text \<open>Run from the default state; the state reached is the indexer, unless there is an error.\<close>

definition NewIndexer :: "'e env \<Rightarrow> 'e IndexerOptionFunc list \<Rightarrow> ('e, go_error option) idx" where
  "NewIndexer E opts =
     bnd (apply_options opts) (\<lambda>err. case err of
       Some e \<Rightarrow> ret (Some e)
     | None \<Rightarrow>
        sq (WaitForServer E)
        (bnd (WaitForDatabase E) (\<lambda>err'. case err' of
          Some e \<Rightarrow> ret (Some e)
        | None \<Rightarrow> sq (NewCache E) (ret None))))"

section \<open>The time stamp of an index\<close>

text \<open>The civil date of a day number counted from the epoch (proleptic Gregorian calendar).\<close>

definition year_of_era :: "int \<Rightarrow> int" where
  "year_of_era doe = (doe - doe div 1460 + doe div 36524 - doe div 146096) div 365"

definition day_of_year :: "int \<Rightarrow> int \<Rightarrow> int" where
  "day_of_year doe yoe = doe - (365 * yoe + yoe div 4 - yoe div 100)"

definition month_day :: "int \<Rightarrow> int \<times> int" where
  "month_day doy = (let mp = (5 * doy + 2) div 153 in
     (if mp < 10 then mp + 3 else mp - 9, doy - (153 * mp + 2) div 5 + 1))"

definition civil :: "int \<Rightarrow> int \<times> int \<times> int" where
  "civil days =
     (let z = days + 719468; doe = z mod 146097; yoe = year_of_era doe in
      case month_day (day_of_year doe yoe) of (month, day) \<Rightarrow>
        (yoe + z div 146097 * 400 + (if month \<le> 2 then 1 else 0), month, day))"

text \<open>Decimal with leading zeros.\<close>

definition pad :: "nat \<Rightarrow> int \<Rightarrow> string" where
  "pad n i = (let d = show_int i in replicate (n - length d) (CHR ''0'') @ d)"

text \<open>\<open>Format("2006-01-02_15-04-05")\<close> of a time from year 0 on, in UTC.\<close>

definition format_time :: "time \<Rightarrow> string" where
  "format_time t =
     (let secs = t div Second; sod = secs mod 86400 in
      case civil (secs div 86400) of (year, month, day) \<Rightarrow>
        pad 4 year @ ''-'' @ pad 2 month @ ''-'' @ pad 2 day @ ''_'' @
        pad 2 (sod div 3600) @ ''-'' @ pad 2 (sod div 60 mod 60) @ ''-'' @ pad 2 (sod mod 60))"

section \<open>Indices\<close>

definition UpdateAliasForType :: "'e env \<Rightarrow> string \<Rightarrow> ('e, unit) idx" where
  "UpdateAliasForType E documentType =
     bnd (rd (\<lambda>ns. aliasNamePrefix ns @ documentType)) (\<lambda>aliasName.
     bnd (rd (\<lambda>ns. index_name ns documentType)) (\<lambda>i.
     logged (UpdateAlias E aliasName i)))"

text \<open>An alias that exists decides the prefix of all index names.\<close>

definition CreateIndexIfNotExists :: "'e env \<Rightarrow> string \<Rightarrow> ('e, go_error option) idx" where
  "CreateIndexIfNotExists E documentType =
     bnd (rd (\<lambda>ns. aliasNamePrefix ns @ documentType)) (\<lambda>aliasName.
     bnd (ext (GetExistingIndexPrefix E aliasName documentType)) (\<lambda>r. case r of
       Inl err \<Rightarrow> ret (Some err)
     | Inr (exists, p) \<Rightarrow>
        if exists then sq (upd (\<lambda>ns. ns\<lparr>indexNamePrefix := p\<rparr>)) (ret None)
        else bnd (rd (\<lambda>ns. (clusterMapping ns, index_name ns documentType))) (\<lambda>(clusterMode, indexName).
          bnd (ext (CreateIndex E clusterMode indexName documentType)) (\<lambda>err.
          if err \<noteq> None then ret err
          else ext (UpdateAlias E aliasName indexName)))))"

definition ValidChainInfo :: "'e env \<Rightarrow> ('e, go_error option) idx" where
  "ValidChainInfo E =
     bnd (ext (GetChainInfo E)) (\<lambda>r. case r of
       Inl err \<Rightarrow> ret (Some err)
     | Inr chainInfoFromNode \<Rightarrow>
        bnd (rd (\<lambda>ns. index_name ns ''chain_info'')) (\<lambda>i.
        bnd (ext (SelectOne E (zeroQueryParams\<lparr>IndexName := i, SortField := ''version'', SortAsc := True, From := 0\<rparr>)
                 EsChainInfo_decode)) (\<lambda>sel.
        bnd (lft (ConvChainInfo chainInfoFromNode)) (\<lambda>chainInfo.
        case sel of
          Inr (Some chainInfoFromDb) \<Rightarrow>
            ret (if chainInfoFromDb \<noteq> chainInfo then Some (Err ''chain info is not matched'') else None)
        | _ \<Rightarrow> ext (Insert E (DChainInfo chainInfo) i)))))"

partial_function (option) create_chain_info :: "'e env \<Rightarrow> ('e, unit) idx" where
  "create_chain_info E ns =
     bnd (CreateIndexIfNotExists E ''chain_info'') (\<lambda>err s. case err of
       None \<Rightarrow> ret () s
     | Some _ \<Rightarrow> sq (Sleep E Second) (\<lambda>s'. create_chain_info E s') s) ns"

definition other_types :: "string list" where
  "other_types = [''block'', ''tx'', ''name'', ''event'', ''token'', ''contract'', ''token_transfer'',
     ''account_tokens'', ''nft'', ''account_balance'', ''whitelist'']"

definition InitIndex :: "'e env \<Rightarrow> ('e, go_error option) idx" where
  "InitIndex E =
     sq (upd (\<lambda>ns. ns\<lparr>aliasNamePrefix := index_prefix ns @ ''_''\<rparr>))
     (bnd (now E) (\<lambda>t.
      sq (upd (\<lambda>ns. ns\<lparr>indexNamePrefix := aliasNamePrefix ns @ format_time t @ ''_''\<rparr>))
      (sq (create_chain_info E)
      (bnd (ValidChainInfo E) (\<lambda>err. case err of
         Some e \<Rightarrow> ret (Some e)
       | None \<Rightarrow> sq (each (\<lambda>t. bnd (CreateIndexIfNotExists E t) (\<lambda>_. ret ())) other_types) (ret None))))))"

section \<open>Starting\<close>

text \<open>The result says whether the program ends when the function returns.\<close>

definition Start :: "'e env \<Rightarrow> uint64 \<Rightarrow> uint64 \<Rightarrow> ('e, bool) idx" where
  "Start E startFrom stopAt =
     bnd (InitIndex E) (\<lambda>err. case err of
       Some _ \<Rightarrow> ret True
     | None \<Rightarrow>
        sq (initCccvNft E)
        (bnd (GetBestBlock E) (\<lambda>best.
        sq (upd (\<lambda>ns. ns\<lparr>lastHeight := best - 1\<rparr>))
        (bnd (rd runMode) (\<lambda>mode.
         if mode = ''all'' then sq (OnSync E) (sq (Check E startFrom stopAt) (ret False))
         else if mode = ''check'' then sq (Check E startFrom stopAt) (ret True)
         else if mode = ''onsync'' then sq (OnSync E) (ret False)
         else ret True)))))"

section \<open>Evaluating a time stamp\<close>

lemma show_nat_rec:
  "n < 10 \<Longrightarrow> show_nat n = [digit_char n]"
  "10 \<le> n \<Longrightarrow> show_nat n = show_nat (n div 10) @ [digit_char (n mod 10)]"
  by (simp_all add: show_nat.simps[of n])
lemma digit_chars: "digit_char 0 = CHR ''0''" "digit_char 1 = CHR ''1''" "digit_char (Suc 0) = CHR ''1''" "digit_char 2 = CHR ''2''" "digit_char 3 = CHR ''3''"
  "digit_char 4 = CHR ''4''" "digit_char 5 = CHR ''5''" "digit_char 6 = CHR ''6''" "digit_char 7 = CHR ''7''"
  "digit_char 8 = CHR ''8''" "digit_char 9 = CHR ''9''" 
  by (simp_all add: digit_char_def)
lemma show_int_numeral: "show_int (numeral k) = show_nat (numeral k)" "show_int 0 = show_nat 0" "show_int 1 = show_nat 1"
  by (simp_all add: show_int_def)

lemma civil_sample: "civil 19675 = (2023, 11, 14)"
proof -
  have y: "year_of_era 8658 = 23" by (simp add: year_of_era_def)
  have d: "day_of_year 8658 23 = 258" by (simp add: day_of_year_def)
  have m: "month_day 258 = (11, 14)" by (simp add: month_day_def)
  show ?thesis by (simp add: civil_def y d m)
qed

lemma format_time_sample: "format_time 1700000000000000005 = ''2023-11-14_22-13-20''"
  by (simp add: format_time_def Second_def civil_sample pad_def show_int_numeral show_nat_rec digit_chars)


section \<open>What starting leaves alone\<close>

lemma create_chain_info_preserves:
  assumes C: "preserves I (CreateIndexIfNotExists E ''chain_info'')" and W: "\<And>s w. I s \<Longrightarrow> I (s\<lparr>world := w\<rparr>)"
  shows "preserves I (create_chain_info E)"
proof (rule preservesI)
  fix s o1 t assume run: "create_chain_info E s = Some (o1, t)" and i: "I s"
  have "preserves I (CreateIndexIfNotExists E ''chain_info'') \<longrightarrow> I s \<longrightarrow> I (snd (o1, t))"
  proof (rule create_chain_info.raw_induct[where P = "\<lambda>E s y. preserves I (CreateIndexIfNotExists E ''chain_info'') \<longrightarrow> I s \<longrightarrow> I (snd y)",
        OF _ run])
    fix f and E :: "'a env" and s y
    assume IH: "\<And>E s y. f E s = Some y \<Longrightarrow> preserves I (CreateIndexIfNotExists E ''chain_info'') \<longrightarrow> I s \<longrightarrow> I (snd y)"
      and body: "bnd (CreateIndexIfNotExists E ''chain_info'') (\<lambda>err s. case err of None \<Rightarrow> ret () s
        | Some x \<Rightarrow> sq (Sleep E Second) (f E) s) s = Some y"
    show "preserves I (CreateIndexIfNotExists E ''chain_info'') \<longrightarrow> I s \<longrightarrow> I (snd y)"
    proof (intro impI)
      assume p: "preserves I (CreateIndexIfNotExists E ''chain_info'')" and i: "I s"
      from body obtain r s1 where r: "CreateIndexIfNotExists E ''chain_info'' s = Some (r, s1)"
        and rest: "(case r of Panic q \<Rightarrow> Some (Panic q, s1) | Ret err \<Rightarrow> (case err of None \<Rightarrow> ret () s1
          | Some x \<Rightarrow> sq (Sleep E Second) (f E) s1)) = Some y"
        by (auto simp: bnd_def split: option.splits prod.splits outcome.splits)
      have "I s1" using preservesD[OF p r i] .
      then show "I (snd y)"
        using rest IH p W by (auto simp: sq_Ret[OF Sleep_run] split: outcome.splits option.splits)
    qed
  qed
  with C i show "I t" by simp
qed

text \<open>Creating an index keeps what does not depend on the world and the prefix of the indices.\<close>

lemma CreateIndex_preserves:
  assumes "\<And>s w. I s \<Longrightarrow> I (s\<lparr>world := w\<rparr>)" and "\<And>s p. I s \<Longrightarrow> I (s\<lparr>indexNamePrefix := p\<rparr>)"
  shows "preserves I (CreateIndexIfNotExists E t)"
  by (rule preservesI)
    (auto simp: CreateIndexIfNotExists_def bnd_assoc assms split: sum.splits if_splits)

lemma ext_preserves [preserves_intros]: "(\<And>s w. I s \<Longrightarrow> I (s\<lparr>world := w\<rparr>)) \<Longrightarrow> preserves I (ext f)"
  by (rule preservesI) auto

lemma lft_preserves [preserves_intros]: "preserves I (lft x)"
  by (rule preservesI) (auto simp: lft_def)

lemma ValidChainInfo_preserves:
  "(\<And>s w. I s \<Longrightarrow> I (s\<lparr>world := w\<rparr>)) \<Longrightarrow> preserves I (ValidChainInfo E)"
  unfolding ValidChainInfo_def by (intro preserves_intros)

lemma InitIndex_preserves:
  assumes "\<And>s w. I s \<Longrightarrow> I (s\<lparr>world := w\<rparr>)" and "\<And>s p. I s \<Longrightarrow> I (s\<lparr>indexNamePrefix := p\<rparr>)"
    and "\<And>s p. I s \<Longrightarrow> I (s\<lparr>aliasNamePrefix := p\<rparr>)"
  shows "preserves I (InitIndex E)"
  unfolding InitIndex_def now_def
  by (intro preserves_intros create_chain_info_preserves CreateIndex_preserves ValidChainInfo_preserves assms)

section \<open>The prefix of the indices\<close>

text \<open>Every alias that exists leads to an index of this prefix.\<close>

definition aliases_at :: "'e env \<Rightarrow> string \<Rightarrow> string \<Rightarrow> bool" where
  "aliases_at E a p \<longleftrightarrow> (\<forall>t w. case fst (es_IndicesByAlias E (a @ t) w) of
     Inr (i # _) \<Rightarrow> i = p @ t | _ \<Rightarrow> True)"

lemma existing_prefix:
  assumes "aliases_at E a p" and "fst (GetExistingIndexPrefix E (a @ t) t w) = Inr (True, q)"
  shows "q = p"
  using assms by (auto simp: GetExistingIndexPrefix_def aliases_at_def split: prod.splits sum.splits list.splits
      dest!: spec[of _ t] spec[of _ w])

lemma CreateIndex_prefix:
  assumes "aliases_at E a p"
  shows "preserves (\<lambda>s. aliasNamePrefix s = a \<and> indexNamePrefix s = p) (CreateIndexIfNotExists E t)"
  using assms by (intro preservesI)
    (auto simp: CreateIndexIfNotExists_def bnd_assoc dest: existing_prefix split: sum.splits if_splits)

lemma InitIndex_from:
  assumes al: "aliases_at E (index_prefix s @ ''_'') p"
    and run: "InitIndex E s = Some (Ret None, s')"
    and first: "\<And>t s1. create_chain_info E t = Some (Ret (), s1) \<Longrightarrow>
      aliasNamePrefix t = index_prefix s @ ''_'' \<Longrightarrow>
      indexNamePrefix t = index_prefix s @ ''_'' @ format_time (fst (clock_Now E (world s))) @ ''_'' \<Longrightarrow>
      aliasNamePrefix s1 = index_prefix s @ ''_'' \<and> indexNamePrefix s1 = p"
  shows "indexNamePrefix s' = p"
proof -
  let ?I = "\<lambda>s1 :: 'a Indexer. aliasNamePrefix s1 = index_prefix s @ ''_'' \<and> indexNamePrefix s1 = p"
  let ?rest = "sq (each (\<lambda>t. bnd (CreateIndexIfNotExists E t) (\<lambda>_. ret ())) other_types) (ret (None :: go_error option))"
  from run obtain s1 where c: "create_chain_info E (s\<lparr>aliasNamePrefix := index_prefix s @ ''_'',
      world := snd (clock_Now E (world s)),
      indexNamePrefix := index_prefix s @ ''_'' @ format_time (fst (clock_Now E (world s))) @ ''_''\<rparr>) = Some (Ret (), s1)"
    and v: "bnd (ValidChainInfo E) (\<lambda>err. case err of Some e \<Rightarrow> ret (Some e) | None \<Rightarrow> ?rest) s1 = Some (Ret None, s')"
    by (auto simp: InitIndex_def now_def elim!: sq_RetE)
  have i1: "?I s1" using first[OF c] by simp
  from v obtain err s2 where "ValidChainInfo E s1 = Some (Ret err, s2)"
    and r: "(case err of Some e \<Rightarrow> ret (Some e) | None \<Rightarrow> ?rest) s2 = Some (Ret None, s')"
    by (rule bnd_RetE)
  moreover have "preserves ?I (ValidChainInfo E)" by (rule ValidChainInfo_preserves) simp
  ultimately have i2: "?I s2" using i1 by (blast dest: preservesD)
  have "?rest s2 = Some (Ret None, s')" using r by (cases err) auto
  moreover have "preserves ?I ?rest" by (intro preserves_intros CreateIndex_prefix al)
  ultimately show ?thesis using i2 by (blast dest: preservesD)
qed

text \<open>When the chain info was indexed before, its prefix is adopted; the stamp of this start is not used.\<close>

lemma create_chain_info_adopts:
  assumes al: "aliases_at E a p" and known: "\<And>w. fst (es_IndicesByAlias E (a @ ''chain_info'') w) \<noteq> Inr []"
    and run: "create_chain_info E t = Some y" and a: "aliasNamePrefix t = a"
  shows "fst y = Ret () \<and> aliasNamePrefix (snd y) = a \<and> indexNamePrefix (snd y) = p"
proof -
  have "E = E \<longrightarrow> aliasNamePrefix t = a \<longrightarrow> fst y = Ret () \<and> aliasNamePrefix (snd y) = a \<and> indexNamePrefix (snd y) = p"
  proof (rule create_chain_info.raw_induct[where P = "\<lambda>E' t y. E' = E \<longrightarrow> aliasNamePrefix t = a \<longrightarrow>
      fst y = Ret () \<and> aliasNamePrefix (snd y) = a \<and> indexNamePrefix (snd y) = p", OF _ run], intro impI)
    fix f and E' :: "'a env" and t y
    assume IH: "\<And>E' t y. f E' t = Some y \<Longrightarrow> E' = E \<longrightarrow> aliasNamePrefix t = a \<longrightarrow>
        fst y = Ret () \<and> aliasNamePrefix (snd y) = a \<and> indexNamePrefix (snd y) = p"
      and body: "bnd (CreateIndexIfNotExists E' ''chain_info'') (\<lambda>err s. case err of None \<Rightarrow> ret () s
        | Some x \<Rightarrow> sq (Sleep E' Second) (f E') s) t = Some y"
      and E': "E' = E" and t: "aliasNamePrefix t = a"
    from known[of "world t"] obtain r w where g: "GetExistingIndexPrefix E (a @ ''chain_info'') ''chain_info'' (world t) = (r, w)"
      and r: "r = Inr (True, p) \<or> (\<exists>e. r = Inl e)"
      using al by (fastforce simp: GetExistingIndexPrefix_def aliases_at_def split: sum.splits list.splits prod.splits
          dest!: spec[of _ "''chain_info''"] spec[of _ "world t"])
    from r show "fst y = Ret () \<and> aliasNamePrefix (snd y) = a \<and> indexNamePrefix (snd y) = p"
    proof
      assume "r = Inr (True, p)"
      then show ?thesis using body E' t g by (auto simp: CreateIndexIfNotExists_def sq_def bnd_assoc)
    next
      assume "\<exists>e. r = Inl e"
      then obtain w' where "f E (t\<lparr>world := w'\<rparr>) = Some y"
        using body E' t g by (auto simp: CreateIndexIfNotExists_def bnd_assoc sq_Ret[OF Sleep_run])
      then show ?thesis using IH E' t by fastforce
    qed
  qed
  then show ?thesis using a by simp
qed

lemma InitIndex_adopts:
  assumes al: "aliases_at E (index_prefix s @ ''_'') p"
    and known: "\<And>w. fst (es_IndicesByAlias E (index_prefix s @ ''_chain_info'') w) \<noteq> Inr []"
    and run: "InitIndex E s = Some (Ret None, s')"
  shows "indexNamePrefix s' = p"
  using create_chain_info_adopts[OF al] known by (intro InitIndex_from[OF al run]) fastforce

text \<open>The query for the stored chain info, and the refusal of a database of another chain.\<close>

definition chain_info_query :: "string \<Rightarrow> QueryParams" where
  "chain_info_query i = zeroQueryParams\<lparr>IndexName := i, SortField := ''version'', SortAsc := True, From := 0\<rparr>"

lemma InitIndex_refuses:
  assumes al: "aliases_at E (index_prefix s @ ''_'') p"
    and known: "\<And>w. fst (es_IndicesByAlias E (index_prefix s @ ''_chain_info'') w) \<noteq> Inr []"
    and node: "\<And>w. fst (GetChainInfo E w) = Inr ci" "ConvChainInfo ci = Ret here"
    and stored: "\<And>w. fst (SelectOne E (chain_info_query (p @ ''chain_info'')) EsChainInfo_decode w) = Inr (Some there)"
    and differ: "there \<noteq> here" and run: "InitIndex E s = Some (r, s')"
  shows "(\<exists>e. r = Ret (Some e)) \<and> indexNamePrefix s' = p"
proof -
  let ?t = "s\<lparr>aliasNamePrefix := index_prefix s @ ''_'', world := snd (clock_Now E (world s)),
      indexNamePrefix := index_prefix s @ ''_'' @ format_time (fst (clock_Now E (world s))) @ ''_''\<rparr>"
  obtain y where y: "create_chain_info E ?t = Some y"
    using run by (cases "create_chain_info E ?t") (auto simp: InitIndex_def now_def sq_def bnd_def)
  have "fst y = Ret () \<and> aliasNamePrefix (snd y) = index_prefix s @ ''_'' \<and> indexNamePrefix (snd y) = p"
    by (rule create_chain_info_adopts[OF al _ y]) (use known in simp_all)
  then obtain s1 where c: "create_chain_info E ?t = Some (Ret (), s1)" and p: "indexNamePrefix s1 = p"
    using y by (cases y) auto
  obtain w1 where g: "GetChainInfo E (world s1) = (Inr ci, w1)" using node(1) by (metis prod.collapse)
  obtain w2 where q: "SelectOne E (chain_info_query (p @ ''chain_info'')) EsChainInfo_decode w1 = (Inr (Some there), w2)"
    using stored by (metis prod.collapse)
  have v: "ValidChainInfo E s1 = Some (Ret (Some (Err ''chain info is not matched'')), s1\<lparr>world := w2\<rparr>)"
    using g q p differ by (simp add: ValidChainInfo_def chain_info_query_def index_name_def node(2))
  from run have "(r, s') = (Ret (Some (Err ''chain info is not matched'')), s1\<lparr>world := w2\<rparr>)"
    by (simp add: InitIndex_def now_def sq_Ret[where m = "create_chain_info E", OF c[simplified]] bnd_Ret[where m = "ValidChainInfo E", OF v])
  then show ?thesis using p by simp
qed

text \<open>A start on an empty cluster puts all indices under the stamp of the start.\<close>

lemma InitIndex_fresh:
  assumes "aliases_at E (index_prefix s @ ''_'') (index_prefix s @ ''_'' @ format_time (fst (clock_Now E (world s))) @ ''_'')"
    and "InitIndex E s = Some (Ret None, s')"
  shows "indexNamePrefix s' = index_prefix s @ ''_'' @ format_time (fst (clock_Now E (world s))) @ ''_''"
proof (rule InitIndex_from[OF assms])
  let ?p = "index_prefix s @ ''_'' @ format_time (fst (clock_Now E (world s))) @ ''_''"
  fix t s1 assume c: "create_chain_info E t = Some (Ret (), s1)"
    and a: "aliasNamePrefix t = index_prefix s @ ''_''" "indexNamePrefix t = ?p"
  have "preserves (\<lambda>s1. aliasNamePrefix s1 = index_prefix s @ ''_'' \<and> indexNamePrefix s1 = ?p) (create_chain_info E)"
    by (rule create_chain_info_preserves[OF CreateIndex_prefix[OF assms(1)]]) simp
  then show "aliasNamePrefix s1 = index_prefix s @ ''_'' \<and> indexNamePrefix s1 = ?p"
    using c a by (blast dest: preservesD)
qed

section \<open>Starting\<close>

text \<open>When the indices cannot be set up nothing is handed to a miner or started.\<close>

lemma InitIndex_acts: "InitIndex E s = Some (r, s') \<Longrightarrow> acts s' = acts s"
  using preservesD[OF InitIndex_preserves[where I = "\<lambda>t. acts t = acts s"]] by fastforce

lemma Start_refused:
  assumes "InitIndex E s = Some (Ret (Some e), s')"
  shows "Start E startFrom stopAt s = Some (Ret True, s') \<and> acts s' = acts s"
  using InitIndex_acts[OF assms] by (simp add: Start_def bnd_Ret[where m = "InitIndex E", OF assms])

text \<open>The height from which the stream goes on: below the best block of the node.\<close>

interpretation height: block_invariant "\<lambda>s. lastHeight s = c" T for c T
  by unfold_locales simp_all

lemma registerVariables_height: "preserves (\<lambda>s. lastHeight s = c) (registerVariables E)"
  unfolding registerVariables_def ScrollToken_def ScrollContract_def ScrollBalance_def scroll_index_of_def
  by (intro preserves_intros height.inv_scroll_each height.inv)

lemma OnSync_height: "preserves (\<lambda>s. lastHeight s = c) (OnSync E)"
  unfolding OnSync_def emit_def by (intro preserves_intros registerVariables_height) simp_all

lemma Start_onsync_height:
  assumes mode: "runMode s = ''onsync''" and run: "Start E a b s = Some (Ret False, s')"
    and best: "\<And>w. (case fst (rpc_Blockchain E w) of Inl e \<Rightarrow> 0 | Inr n \<Rightarrow> n) = h"
  shows "lastHeight s' = h - 1"
proof -
  have mi: "preserves (\<lambda>t. runMode t = ''onsync'') (InitIndex E)" by (rule InitIndex_preserves) simp_all
  have mc: "preserves (\<lambda>t. runMode t = ''onsync'') (initCccvNft E)"
    unfolding initCccvNft_def initCccvNft_for_def addToken_def insert_into_def logged_def
    by (intro preserves_intros) simp_all
  let ?go = "bnd (GetBestBlock E) (\<lambda>best.
        sq (upd (\<lambda>ns. ns\<lparr>lastHeight := best - 1\<rparr>)) (bnd (rd runMode) (\<lambda>mode.
         if mode = ''all'' then sq (OnSync E) (sq (Check E a b) (ret False))
         else if mode = ''check'' then sq (Check E a b) (ret True)
         else if mode = ''onsync'' then sq (OnSync E) (ret False)
         else ret True)))"
  from run obtain err s1 where i: "InitIndex E s = Some (Ret err, s1)"
    and "(case err of Some e \<Rightarrow> ret True | None \<Rightarrow> sq (initCccvNft E) ?go) s1 = Some (Ret False, s')"
    unfolding Start_def by (rule bnd_RetE)
  then have "sq (initCccvNft E) ?go s1 = Some (Ret False, s')" by (cases err) auto
  then obtain x s2 where c: "initCccvNft E s1 = Some (Ret x, s2)" and r2: "?go s2 = Some (Ret False, s')"
    by (rule sq_RetE)
  note p1 = preservesD[OF mi i]
  note p2 = preservesD[OF mc c]
  have mode1: "runMode s1 = ''onsync''" using p1 mode by (rule mp[OF impI])
  have mode2: "runMode s2 = ''onsync''" using p2 mode1 by (rule mp[OF impI])
  from r2 best[of "world s2"] mode2 have "sq (OnSync E) (ret False) (s2\<lparr>world := snd (rpc_Blockchain E (world s2)),
      lastHeight := h - 1\<rparr>) = Some (Ret False, s')"
    by (simp add: GetBestBlock_def client_GetBestBlock_def bnd_assoc)
  then obtain y s3 where o: "OnSync E (s2\<lparr>world := snd (rpc_Blockchain E (world s2)), lastHeight := h - 1\<rparr>) = Some (Ret y, s3)"
    and e: "ret False s3 = Some (Ret False, s')" by (rule sq_RetE)
  have "lastHeight s3 = h - 1" by (rule preservesD[OF OnSync_height o]) simp
  then show ?thesis using e by simp
qed

section \<open>The whitelists of the command line\<close>

text \<open>They are written before the prefix of the indices is known.\<close>

lemma each_addWhitelist_frame:
  assumes st: "es_store E view" and "i \<noteq> indexNamePrefix s @ ''whitelist''"
  shows "\<exists>w. each (\<lambda>a. addWhitelist E (ConvWhitelist a [] t)) l s = Some (Ret (), s\<lparr>world := w\<rparr>) \<and>
    view w i x = view (world s) i x"
  using assms(2)
proof (induction l arbitrary: s)
  case Nil
  then show ?case by (auto intro: exI[of _ "world s"])
next
  case (Cons a l)
  let ?s = "s\<lparr>world := snd (Insert E (DWhitelist (ConvWhitelist a [] t)) (index_name s ''whitelist'') (world s))\<rparr>"
  have "view (world ?s) i x = view (world s) i x"
    using Cons.prems es_store_index_frame[OF st] by (simp add: Insert_world index_name_def)
  moreover obtain w where "each (\<lambda>a. addWhitelist E (ConvWhitelist a [] t)) l ?s = Some (Ret (), ?s\<lparr>world := w\<rparr>)"
    "view w i x = view (world ?s) i x" using Cons.IH[of ?s] Cons.prems by auto
  moreover have "addWhitelist E (ConvWhitelist a [] t) s = Some (Ret (), ?s)" by (simp add: addWhitelist_def)
  ultimately show ?case
    by (auto simp: sq_Ret[where m = "addWhitelist E (ConvWhitelist a [] t)"])
qed

lemma each_storeBalance:
  "each storeBalance l s = Some (Ret (), s\<lparr>addrsBalance := fold List.insert l (addrsBalance s)\<rparr>)"
  by (induction l arbitrary: s) (simp_all add: storeBalance_def)

lemma NewCache_frame:
  assumes st: "es_store E view" and i: "i \<noteq> indexNamePrefix s @ ''whitelist''"
  shows "\<exists>s'. NewCache E s = Some (Ret (), s') \<and> view (world s') i x = view (world s) i x"
proof -
  obtain w1 where 1: "each (\<lambda>a. addWhitelist E (ConvWhitelist a [] ''token'')) (tokenVerifyWhitelist s) s =
      Some (Ret (), s\<lparr>world := w1\<rparr>)" "view w1 i x = view (world s) i x"
    using each_addWhitelist_frame[OF st i] by blast
  obtain w2 where 2: "each (\<lambda>a. addWhitelist E (ConvWhitelist a [] ''contract'')) (contractVerifyWhitelist s) (s\<lparr>world := w1\<rparr>) =
      Some (Ret (), s\<lparr>world := w2\<rparr>)" "view w2 i x = view w1 i x"
    using each_addWhitelist_frame[OF st, where s = "s\<lparr>world := w1\<rparr>" and i = i and x = x and t = "''contract''"
      and l = "contractVerifyWhitelist s"] i by auto
  show ?thesis
    using 1 2 by (simp add: NewCache_def each_storeBalance
      sq_Ret[where m = "each (\<lambda>a. addWhitelist E (ConvWhitelist a [] ''token'')) (tokenVerifyWhitelist s)", OF 1(1)]
      sq_Ret[where m = "each (\<lambda>a. addWhitelist E (ConvWhitelist a [] ''contract'')) (contractVerifyWhitelist s)", OF 2(1)])
qed
end
