(* ===== verification/Command.thy ===== *)
theory Command
  imports Index
begin

text \<open>
  The command (\<open>main.go\<close>): its flags, the address and the run mode they give, and the run. The signal
  handler stops the indexer and ends the wait of the main goroutine.
\<close>

record flags =
  fl_runMode :: string
  fl_checkMode :: bool
  fl_onsyncMode :: bool
  fl_fix :: bool
  fl_host :: string
  fl_port :: int32
  fl_dbURL :: string
  fl_prefix :: string
  fl_aergoAddress :: string
  fl_cluster :: bool
  fl_from :: uint64
  fl_to :: uint64
  fl_cccvNftServerType :: string
  fl_balanceWhitelist :: "string list"
  fl_tokenVerifyAddress :: string
  fl_contractVerifyAddress :: string
  fl_tokenVerifyWhitelist :: "string list"
  fl_contractVerifyWhitelist :: "string list"

definition default_flags :: flags where
  "default_flags = \<lparr>fl_runMode = [], fl_checkMode = True, fl_onsyncMode = True, fl_fix = False,
     fl_host = ''localhost'', fl_port = 7845, fl_dbURL = ''localhost:9200'', fl_prefix = ''testnet'',
     fl_aergoAddress = [], fl_cluster = False, fl_from = 0, fl_to = 0, fl_cccvNftServerType = [],
     fl_balanceWhitelist = [], fl_tokenVerifyAddress = [], fl_contractVerifyAddress = [],
     fl_tokenVerifyWhitelist = [], fl_contractVerifyWhitelist = []\<rparr>"

definition getServerAddress :: "flags \<Rightarrow> string" where
  "getServerAddress fl =
     (if length (fl_aergoAddress fl) > 0 then fl_aergoAddress fl
      else fl_host fl @ '':'' @ show_int (sint (fl_port fl)))"

definition getRunMode :: "flags \<Rightarrow> string" where
  "getRunMode fl =
     (if length (fl_runMode fl) > 0 then fl_runMode fl
      else if fl_onsyncMode fl \<and> fl_checkMode fl then ''all''
      else if fl_checkMode fl then ''check''
      else ''onsync'')"

definition root_options :: "'e env \<Rightarrow> flags \<Rightarrow> 'e IndexerOptionFunc list" where
  "root_options E fl =
     [SetServerAddr (getServerAddress fl), SetDBAddr (fl_dbURL fl), SetPrefix (fl_prefix fl),
      SetNetworkTypeForCccv (fl_cccvNftServerType fl), SetRunMode (getRunMode fl), SetFix (fl_fix fl),
      SetWhiteListAddresses (fl_balanceWhitelist fl),
      SetTokenVerifyAddress E (fl_tokenVerifyAddress fl),
      SetContractVerifyAddress E (fl_contractVerifyAddress fl),
      SetTokenVerifyWhitelist (fl_tokenVerifyWhitelist fl),
      SetContractVerifyWhitelist (fl_contractVerifyWhitelist fl)]"

text \<open>The result says whether the program ends, or waits for a signal.\<close>

definition rootRun :: "'e env \<Rightarrow> flags \<Rightarrow> 'e \<Rightarrow> (bool outcome \<times> 'e Indexer) option" where
  "rootRun E fl w =
     bnd (NewIndexer E (root_options E fl)) (\<lambda>err. case err of
       Some _ \<Rightarrow> ret True
     | None \<Rightarrow> Start E (fl_from fl) (fl_to fl)) (default_indexer (fl_cluster fl) w)"

definition on_signal :: "'e env \<Rightarrow> ('e, unit) idx" where
  "on_signal E = Stop E"

text \<open>The goroutine that receives the signals, on the ones that arrive: each one stops the indexer and then closes the
  channel \<open>C\<close> that the main goroutine waits for; the flag says whether it was closed before.\<close>

primrec handleKillSig :: "'e env \<Rightarrow> bool \<Rightarrow> 'sig list \<Rightarrow> ('e, bool) idx" where
  "handleKillSig E isClosed [] = ret isClosed"
| "handleKillSig E isClosed (sig # sigs) =
     sq (on_signal E) (if isClosed then pan CloseOfClosed else handleKillSig E True sigs)"

section \<open>Lemmas\<close>

text \<open>One signal closes the stream and ends the wait; a second one, if it is still handled, panics.\<close>

lemma handleKillSig_once: "handleKillSig E False [sig] s = Some (Ret True, closed E s)"
  and handleKillSig_twice: "handleKillSig E False (sig # sig' # sigs) s = Some (Panic CloseOfClosed, closed E (closed E s))"
  by (simp_all add: on_signal_def sq_Ret[OF Stop_run])

lemma getRunMode_valid: "getRunMode fl = fl_runMode fl \<or> getRunMode fl \<in> {''all'', ''check'', ''onsync''}"
  by (simp add: getRunMode_def)

lemma option_set_run [simp]: "option_set f s = Some (Ret None, f s)"
  by (simp add: option_set_def)

lemma bnd_option_set [simp]: "bnd (option_set f) g s = g None (f s)"
  by (simp add: bnd_def)

lemmas option_defs = SetServerAddr_def SetDBAddr_def SetPrefix_def SetNetworkTypeForCccv_def SetRunMode_def
  SetFix_def SetWhiteListAddresses_def SetTokenVerifyAddress_def SetContractVerifyAddress_def
  SetTokenVerifyWhitelist_def SetContractVerifyWhitelist_def

text \<open>Without verification addresses the options cannot fail.\<close>

lemma root_options_run:
  assumes "fl_tokenVerifyAddress fl = []" and "fl_contractVerifyAddress fl = []"
  shows "apply_options (root_options E fl) s = Some (Ret None, s\<lparr>serverAddr := getServerAddress fl,
    dbAddr := fl_dbURL fl, index_prefix := fl_prefix fl, networkTypeForCccv := fl_cccvNftServerType fl,
    runMode := getRunMode fl, fixMode := fl_fix fl, balanceWhitelist := fl_balanceWhitelist fl,
    tokenVerifyWhitelist := fl_tokenVerifyWhitelist fl, contractVerifyWhitelist := fl_contractVerifyWhitelist fl\<rparr>)"
  using assms by (simp add: root_options_def option_defs)

end
