(* ===== verification/Bulk_Facts.thy ===== *)
theory Bulk_Facts
  imports Bulk
begin

text \<open>
  What the indexer of a bulk channel does with the documents it receives: none is lost, duplicated or
  reordered between the channel and the requests to Elasticsearch.
\<close>

text \<open>A service that takes every bulk request, and an observation of the world that records them in order.\<close>

definition takes_bulks :: "'e env \<Rightarrow> ('e \<Rightarrow> (string \<times> bulk_op list) list) \<Rightarrow> bool" where
  "takes_bulks E taken \<longleftrightarrow>
     (\<forall>i rs w. fst (es_Bulk E i rs w) = None \<and> fst (snd (es_Bulk E i rs w)) = [] \<and>
       taken (snd (snd (es_Bulk E i rs w))) = taken w @ [(i, rs)]) \<and>
     (\<forall>w. taken (snd (clock_Now E w)) = taken w)"

definition create_request :: "doc \<Rightarrow> bulk_op" where
  "create_request d = BulkCreate (doc_GetID d) d"

text \<open>The count is the number of requests collected, and within the bulk size.\<close>

definition bulk_ok :: "int32 \<Rightarrow> BulkState \<Rightarrow> bool" where
  "bulk_ok bsize st \<longleftrightarrow> sint (bi_total st) = int (length (bulk_requests (bi_bulk st))) \<and> sint (bi_total st) \<le> sint bsize"

lemma commitBulk_takes:
  assumes "takes_bulks E taken" and "bi_total st \<noteq> 0"
  shows "\<exists>s' t. commitBulk E isBlock sync st s = Some (Ret \<lparr>bi_bulk = (bi_bulk st)\<lparr>bulk_requests := []\<rparr>, bi_total = 0,
      bi_begin = t, bi_return_flag = True\<rparr>, s') \<and>
    taken (world s') = taken (world s) @ [(bulk_index (bi_bulk st), bulk_requests (bi_bulk st))]"
proof -
  obtain w where b: "es_Bulk E (bulk_index (bi_bulk st)) (bulk_requests (bi_bulk st)) (world s) = (None, [], w)"
    "taken w = taken (world s) @ [(bulk_index (bi_bulk st), bulk_requests (bi_bulk st))]"
    using assms(1) unfolding takes_bulks_def by (metis prod.collapse)
  have n: "taken (snd (clock_Now E v)) = taken v" for v using assms(1) by (simp add: takes_bulks_def)
  have e: "each (\<lambda>_. emit RecvSynDone) xs s1 = Some (Ret (), s1\<lparr>acts := acts s1 @ map (\<lambda>_. RecvSynDone) xs\<rparr>)"
    for xs :: "nat list" and s1 :: "'a Indexer" by (rule each_emit)
  note pre = sq_Ret[OF each_emit] sq_Ret[OF e]
  show ?thesis
    using assms(2) b n by (cases isBlock; cases sync) (simp_all add: commitBulk_def Commit_def now_def bnd_assoc pre sq_assoc)
qed

lemma int32_inc: "0 \<le> sint t \<Longrightarrow> sint t < sint b \<Longrightarrow> sint (t + 1) = sint t + 1" for t b :: int32
  using sint_lt[of b] by (simp add: sint_word_add signed_take_bit_int_eq_self)

lemma bulk_add:
  assumes "bulk_ok bsize st" and "sint (bi_total st) < sint bsize"
  shows "bulk_ok bsize (st\<lparr>bi_total := bi_total st + 1, bi_bulk := Add d (bi_bulk st)\<rparr>)"
  using assms int32_inc[of "bi_total st" bsize] by (simp add: bulk_ok_def Add_def)

text \<open>One document: it is collected, after a commit when the bulk is full.\<close>

lemma bulk_message_add:
  assumes "takes_bulks E taken" and "bulk_ok bsize st" and "0 < sint bsize"
  shows "\<exists>st' s' full. bulk_message E isBlock bsize \<lparr>ChanInfo_Type = ChanType_Add, ChanInfo_Doc = Some d\<rparr> st s = Some (Ret (True, st'), s') \<and>
    taken (world s') = taken (world s) @ map (Pair (bulk_index (bi_bulk st))) full \<and>
    concat full @ bulk_requests (bi_bulk st') = bulk_requests (bi_bulk st) @ [create_request d] \<and>
    (\<forall>c \<in> set full. int (length c) = sint bsize) \<and> bulk_ok bsize st' \<and> bulk_index (bi_bulk st') = bulk_index (bi_bulk st)"
proof (cases "sint (bi_total st) \<ge> sint bsize")
  case True
  then have nz: "bi_total st \<noteq> 0" using assms(3) by auto
  have len: "int (length (bulk_requests (bi_bulk st))) = sint bsize" using True assms(2) by (simp add: bulk_ok_def)
  obtain s1 t where c: "commitBulk E isBlock False st s = Some (Ret \<lparr>bi_bulk = (bi_bulk st)\<lparr>bulk_requests := []\<rparr>, bi_total = 0,
      bi_begin = t, bi_return_flag = True\<rparr>, s1)"
    "taken (world s1) = taken (world s) @ [(bulk_index (bi_bulk st), bulk_requests (bi_bulk st))]"
    using commitBulk_takes[OF assms(1) nz] by blast
  show ?thesis
    using True c len assms(3)
    by (intro exI[of _ "\<lparr>bi_bulk = Add d ((bi_bulk st)\<lparr>bulk_requests := []\<rparr>), bi_total = 1, bi_begin = t, bi_return_flag = True\<rparr>"]
        exI[of _ s1] exI[of _ "[bulk_requests (bi_bulk st)]"])
      (simp add: bulk_message_def bnd_Ret[where m = "commitBulk E isBlock False st", OF c(1)] bulk_ok_def Add_def create_request_def)
next
  case False
  then have "bulk_ok bsize (st\<lparr>bi_total := bi_total st + 1, bi_bulk := Add d (bi_bulk st)\<rparr>)"
    using bulk_add[OF assms(2)] by simp
  then show ?thesis
    using False
    by (intro exI[of _ "st\<lparr>bi_total := bi_total st + 1, bi_bulk := Add d (bi_bulk st)\<rparr>"] exI[of _ s] exI[of _ "[]"])
      (simp add: bulk_message_def Add_def create_request_def)
qed

lemma bulk_loop_adds:
  assumes "takes_bulks E taken" and "0 < sint bsize" and "bulk_ok bsize st"
  shows "\<exists>st' s' full. bulk_loop E isBlock bsize st (map added ds) s = Some (Ret st', s') \<and>
    taken (world s') = taken (world s) @ map (Pair (bulk_index (bi_bulk st))) full \<and>
    concat full @ bulk_requests (bi_bulk st') = bulk_requests (bi_bulk st) @ map create_request ds \<and>
    (\<forall>c \<in> set full. int (length c) = sint bsize) \<and> bulk_ok bsize st' \<and> bulk_index (bi_bulk st') = bulk_index (bi_bulk st)"
  using assms(3)
proof (induction ds arbitrary: st s)
  case Nil
  then show ?case by (intro exI[of _ st] exI[of _ s] exI[of _ "[]"]) simp
next
  case (Cons d ds)
  obtain st1 s1 f1 where 1: "bulk_message E isBlock bsize (added d) st s = Some (Ret (True, st1), s1)"
    "taken (world s1) = taken (world s) @ map (Pair (bulk_index (bi_bulk st))) f1"
    "concat f1 @ bulk_requests (bi_bulk st1) = bulk_requests (bi_bulk st) @ [create_request d]"
    "\<forall>c \<in> set f1. int (length c) = sint bsize" "bulk_ok bsize st1" "bulk_index (bi_bulk st1) = bulk_index (bi_bulk st)"
    using bulk_message_add[OF assms(1) Cons.prems assms(2), of isBlock d s] unfolding added_def by blast
  obtain st2 s2 f2 where 2: "bulk_loop E isBlock bsize st1 (map added ds) s1 = Some (Ret st2, s2)"
    "taken (world s2) = taken (world s1) @ map (Pair (bulk_index (bi_bulk st1))) f2"
    "concat f2 @ bulk_requests (bi_bulk st2) = bulk_requests (bi_bulk st1) @ map create_request ds"
    "\<forall>c \<in> set f2. int (length c) = sint bsize" "bulk_ok bsize st2" "bulk_index (bi_bulk st2) = bulk_index (bi_bulk st1)"
    using Cons.IH[OF 1(5), of s1] by blast
  have "concat (f1 @ f2) @ bulk_requests (bi_bulk st2) = bulk_requests (bi_bulk st) @ map create_request (d # ds)"
    using 1(3) 2(3) by simp
  then show ?case
    using 1 2 by (intro exI[of _ st2] exI[of _ s2] exI[of _ "f1 @ f2"])
      (auto simp: bnd_Ret[where m = "bulk_message E isBlock bsize (added d) st"])
qed

lemma bulk_loop_append: "bulk_loop E isBlock bsize st Is s = Some (Ret st', s') \<Longrightarrow>
    \<forall>I \<in> set Is. ChanInfo_Type I \<noteq> ChanType_StopBulk \<Longrightarrow>
    bulk_loop E isBlock bsize st (Is @ Js) s = bulk_loop E isBlock bsize st' Js s'"
proof (induction Is arbitrary: st s)
  case (Cons I "Is")
  then obtain g st1 s1 where m: "bulk_message E isBlock bsize I st s = Some (Ret (g, st1), s1)"
    and r: "(if g then bulk_loop E isBlock bsize st1 Is else ret st1) s1 = Some (Ret st', s')"
    by (auto elim!: bnd_RetE)
  have "g" using m Cons.prems(2) by (auto simp: bulk_message_def elim!: bnd_RetE split: if_splits)
  then show ?case using Cons r m by (simp add: bnd_Ret[where m = "bulk_message E isBlock bsize I st"])
qed simp

text \<open>A commit at the end leaves nothing behind.\<close>

lemma bulk_loop_commit:
  assumes "takes_bulks E taken" and "bulk_ok bsize st"
  shows "\<exists>st' s'. bulk_loop E isBlock bsize st [control ChanType_Commit] s = Some (Ret st', s') \<and>
    taken (world s') = taken (world s) @ (if bulk_requests (bi_bulk st) = [] then []
      else [(bulk_index (bi_bulk st), bulk_requests (bi_bulk st))]) \<and> bulk_requests (bi_bulk st') = []"
proof (cases "bi_total st = 0")
  case True
  then have e: "bulk_requests (bi_bulk st) = []" using assms(2) by (simp add: bulk_ok_def)
  have "commitBulk E isBlock True st s = Some (Ret (st\<lparr>bi_return_flag := True\<rparr>),
      if isBlock then s else s\<lparr>acts := acts s @ [SendSynDone]\<rparr>)" using True by (simp add: commitBulk_def)
  then show ?thesis using e
    by (auto simp: bulk_message_def control_def bnd_assoc bnd_Ret[where m = "commitBulk E isBlock True st"])
next
  case False
  then have "sint (bi_total st) \<noteq> 0" using signed_word_eqI[of "bi_total st" 0] by auto
  then have e: "bulk_requests (bi_bulk st) \<noteq> []" using assms(2) by (auto simp: bulk_ok_def)
  obtain s1 t where c: "commitBulk E isBlock True st s = Some (Ret \<lparr>bi_bulk = (bi_bulk st)\<lparr>bulk_requests := []\<rparr>, bi_total = 0,
      bi_begin = t, bi_return_flag = True\<rparr>, s1)"
    "taken (world s1) = taken (world s) @ [(bulk_index (bi_bulk st), bulk_requests (bi_bulk st))]"
    using commitBulk_takes[OF assms(1) False] by blast
  then show ?thesis using e
    by (auto simp: bulk_message_def control_def bnd_assoc bnd_Ret[where m = "commitBulk E isBlock True st", OF c(1)])
qed

text \<open>What the indexer of a channel receives up to a commit goes to its index.\<close>

lemma BulkIndexer_conserves:
  assumes "takes_bulks E taken" and "0 < sint bsize"
  shows "\<exists>st s' full. BulkIndexer E i bsize isBlock (map added ds @ [control ChanType_Commit]) s = Some (Ret st, s') \<and>
    taken (world s') = taken (world s) @ map (Pair i) full \<and> concat full = map create_request ds \<and>
    (\<forall>c \<in> set full. c \<noteq> [] \<and> int (length c) \<le> sint bsize) \<and> bulk_requests (bi_bulk st) = []"
proof -
  let ?s = "s\<lparr>world := snd (clock_Now E (world s))\<rparr>"
  let ?st = "\<lparr>bi_bulk = InsertBulk i, bi_total = 0, bi_begin = fst (clock_Now E (world s)), bi_return_flag = False\<rparr>"
  have t0: "taken (world ?s) = taken (world s)" using assms(1) by (simp add: takes_bulks_def)
  have ok: "bulk_ok bsize ?st" using assms(2) by (simp add: bulk_ok_def InsertBulk_def)
  obtain st1 s1 f1 where 1: "bulk_loop E isBlock bsize ?st (map added ds) ?s = Some (Ret st1, s1)"
    "taken (world s1) = taken (world ?s) @ map (Pair i) f1"
    "concat f1 @ bulk_requests (bi_bulk st1) = map create_request ds"
    "\<forall>c \<in> set f1. int (length c) = sint bsize" "bulk_ok bsize st1" "bulk_index (bi_bulk st1) = i"
    using bulk_loop_adds[OF assms ok, of isBlock ds ?s] by (auto simp: InsertBulk_def)
  obtain st2 s2 where 2: "bulk_loop E isBlock bsize st1 [control ChanType_Commit] s1 = Some (Ret st2, s2)"
    "taken (world s2) = taken (world s1) @ (if bulk_requests (bi_bulk st1) = [] then []
      else [(bulk_index (bi_bulk st1), bulk_requests (bi_bulk st1))])" "bulk_requests (bi_bulk st2) = []"
    using bulk_loop_commit[OF assms(1) 1(5)] by blast
  let ?f2 = "if bulk_requests (bi_bulk st1) = [] then [] else [bulk_requests (bi_bulk st1)]"
  have "BulkIndexer E i bsize isBlock (map added ds @ [control ChanType_Commit]) s = Some (Ret st2, s2)"
    using bulk_loop_append[OF 1(1)] 2(1) by (simp add: BulkIndexer_def now_def added_def)
  moreover have "taken (world s2) = taken (world s) @ map (Pair i) (f1 @ ?f2)" using 1 2 t0 by simp
  moreover have "concat (f1 @ ?f2) = map create_request ds" using 1(3) by (cases "bulk_requests (bi_bulk st1) = []") simp_all
  moreover have "\<forall>c \<in> set (f1 @ ?f2). c \<noteq> [] \<and> int (length c) \<le> sint bsize"
    using 1(4,5) assms(2) by (auto simp: bulk_ok_def)
  ultimately show ?thesis using 2(3) by blast
qed

end
