(* ===== verification/Elastic.thy ===== *)
theory Elastic
  imports Db
begin

text \<open>
  Elasticsearch as an abstract database: documents by index and id, the indices that are there, and the aliases they
  carry. The interface \<open>elastic\<close> says of each request that the controller makes what it does to the database and what it
  answers, as far as the documentation settles it; \<open>document_store\<close> follows from it.
\<close>

section \<open>The abstract database\<close>

record database =
  db_docs :: "string \<Rightarrow> string \<Rightarrow> source option"
  db_indices :: "string set"
  db_aliases :: "string \<Rightarrow> string set"

definition put :: "string \<Rightarrow> string \<Rightarrow> source \<Rightarrow> database \<Rightarrow> database" where
  "put i d src D = D\<lparr>db_docs := (db_docs D)(i := (db_docs D i)(d \<mapsto> src)), db_indices := insert i (db_indices D)\<rparr>"

primrec put_new :: "string \<Rightarrow> bulk_op list \<Rightarrow> database \<Rightarrow> database" where
  "put_new i [] D = D"
| "put_new i (op # ops) D = put_new i ops (case op of BulkCreate d x \<Rightarrow>
     if db_docs D i d = None then put i d (doc_source x) D else D)"

definition drop_index :: "string \<Rightarrow> database \<Rightarrow> database" where
  "drop_index i D = D\<lparr>db_docs := (db_docs D)(i := \<lambda>_. None), db_indices := db_indices D - {i},
     db_aliases := \<lambda>a. db_aliases D a - {i}\<rparr>"

primrec apply_aliases :: "alias_op list \<Rightarrow> (string \<Rightarrow> string set) \<Rightarrow> string \<Rightarrow> string set" where
  "apply_aliases [] f = f"
| "apply_aliases (op # ops) f = apply_aliases ops (case op of
     AliasRemove i a \<Rightarrow> f(a := f a - {i}) | AliasAdd i a \<Rightarrow> f(a := insert i (f a)))"

text \<open>Whether a query takes a document: a range over numbers, a range without bounds of any field that is there, a match of a keyword, of a number by its decimal, of the
  id. Of the other cases nothing is said.\<close>

fun hit_by :: "es_query \<Rightarrow> string \<Rightarrow> source \<Rightarrow> bool option" where
  "hit_by NoQuery d src = Some True"
| "hit_by (RangeQuery f lo hi) d src = (case map_of src f of
     None \<Rightarrow> Some False
   | Some (SNum n) \<Rightarrow> Some ((case lo of None \<Rightarrow> True | Some l \<Rightarrow> l \<le> int n) \<and> (case hi of None \<Rightarrow> True | Some u \<Rightarrow> int n \<le> u))
   | Some _ \<Rightarrow> if lo = None \<and> hi = None then Some True else None)"
| "hit_by (MatchQuery f v) d src = (if f = ''_id'' then Some (d = v)
     else case map_of src f of Some (SStr x) \<Rightarrow> Some (x = v)
       | Some (SNum n) \<Rightarrow> (if v = show_nat n then Some True else None) | _ \<Rightarrow> None)"

definition decided :: "string \<Rightarrow> es_query \<Rightarrow> database \<Rightarrow> bool" where
  "decided i q D \<longleftrightarrow> (\<forall>d src. db_docs D i d = Some src \<longrightarrow> hit_by q d src \<noteq> None)"

definition found :: "string \<Rightarrow> es_query \<Rightarrow> database \<Rightarrow> hit set" where
  "found i q D = {(d, src). db_docs D i d = Some src \<and> hit_by q d src = Some True}"

text \<open>A deletion by query takes what is hit, keeps what is not, and brings nothing about.\<close>

definition removes :: "string \<Rightarrow> es_query \<Rightarrow> database \<Rightarrow> database \<Rightarrow> bool" where
  "removes i q D D' \<longleftrightarrow> db_indices D' = db_indices D \<and> db_aliases D' = db_aliases D \<and>
     (\<forall>j d. j \<noteq> i \<or> db_docs D j d = None \<longrightarrow> db_docs D' j d = db_docs D j d) \<and>
     (\<forall>d src. db_docs D i d = Some src \<longrightarrow>
        (hit_by q d src = Some True \<longrightarrow> db_docs D' i d = None) \<and> (hit_by q d src = Some False \<longrightarrow> db_docs D' i d = Some src))"

text \<open>Hits in the order of a number field.\<close>

definition number_of :: "string \<Rightarrow> source \<Rightarrow> int" where
  "number_of f src = (case map_of src f of Some (SNum n) \<Rightarrow> int n | _ \<Rightarrow> 0)"

definition sort_number :: "string \<Rightarrow> bool \<Rightarrow> hit \<Rightarrow> int" where
  "sort_number f asc h = (if asc then number_of f (snd h) else - number_of f (snd h))"

definition numbered :: "string \<Rightarrow> hit set \<Rightarrow> bool" where
  "numbered f H \<longleftrightarrow> (\<forall>(d, src) \<in> H. \<exists>n. map_of src f = Some (SNum n))"

definition listing :: "(string \<times> bool) option \<Rightarrow> hit set \<Rightarrow> hit list \<Rightarrow> bool" where
  "listing srt H hs \<longleftrightarrow> distinct hs \<and> set hs = H \<and>
     (case srt of None \<Rightarrow> True | Some (f, asc) \<Rightarrow> numbered f H \<longrightarrow> sorted (map (sort_number f asc) hs))"

text \<open>Hits with distinct numbers have one listing.\<close>

lemma listing_unique:
  assumes "listing (Some (f, asc)) H hs" and "numbered f H" and "set hs' = H" and "sorted (map (sort_number f asc) hs')"
    and "distinct (map (sort_number f asc) hs')"
  shows "hs = hs'"
proof -
  have h: "distinct hs" "set hs = set hs'" "sorted (map (sort_number f asc) hs)" using assms(1-3) by (simp_all add: listing_def)
  have inj: "inj_on (sort_number f asc) (set hs')" using assms(5) by (simp add: distinct_map)
  then have "distinct (map (sort_number f asc) hs)" using h by (simp add: distinct_map)
  then have "map (sort_number f asc) hs = map (sort_number f asc) hs'"
    using h assms(4,5) by (intro sorted_distinct_set_unique) simp_all
  then show ?thesis using map_inj_on[of "sort_number f asc" hs hs'] inj h(2) by simp
qed

section \<open>The interface\<close>

locale elastic =
  fixes E :: "'w env" and db :: "'w \<Rightarrow> database"
  assumes index_req: "\<exists>w'. es_Index E i d src w = (None, w') \<and> db w' = put i d src (db w)"
    and update_req: "\<exists>w'. es_Update E i d src w = (None, w') \<and>
      db w' = put i d (merge_source (db_docs (db w) i d) src) (db w)"
    and delete_req: "\<exists>n w'. es_DeleteByQuery E i q w = (Inr n, w') \<and> removes i q (db w) (db w')"
    and count_req: "decided i q (db w) \<Longrightarrow> \<exists>w'. es_Count E i q w = (Inr (int (card (found i q (db w)))), w') \<and> db w' = db w"
    and search_keeps: "db (snd (es_Search E i q srt n w)) = db w"
    and search_req: "decided i q (db w) \<Longrightarrow> \<exists>hs. listing (map_option (\<lambda>k. (sort_field k, sort_asc k)) srt) (found i q (db w)) hs \<and>
      fst (es_Search E i q srt n w) = Inr (int (length hs), take (nat n) (case srt of None \<Rightarrow> hs | Some k \<Rightarrow> drop (nat (sort_from k)) hs))"
    and scroll_req: "decided (scroll_index req) (scroll_query req) (db w) \<Longrightarrow> scroll_include req = [] \<Longrightarrow>
      \<exists>ps w'. scroll_pages E req None w ps w' \<and> db w' = db w \<and>
        listing (Some (scroll_sort req, scroll_asc req)) (found (scroll_index req) (scroll_query req) (db w)) (concat ps)"
    and bulk_req: "\<exists>rest w'. es_Bulk E i bs w = (None, rest, w') \<and> db w' = put_new i bs (db w)"
    and create_req: "i \<notin> db_indices (db w) \<Longrightarrow>
      \<exists>w'. es_CreateIndex E i m w = (Inr True, w') \<and> db w' = (db w)\<lparr>db_indices := insert i (db_indices (db w))\<rparr>"
    and drop_req: "db (es_DeleteIndex E i w) = drop_index i (db w)"
    and aliased_req: "\<exists>is w'. es_IndicesByAlias E a w = (Inr is, w') \<and> set is = db_aliases (db w) a \<and> db w' = db w"
    and alias_req: "\<forall>i a. AliasAdd i a \<in> set ops \<longrightarrow> i \<in> db_indices (db w) \<Longrightarrow>
      \<forall>i a. AliasRemove i a \<in> set ops \<longrightarrow> i \<in> db_aliases (db w) a \<Longrightarrow> fst (es_Alias E ops w) = None"
    and alias_ok: "es_Alias E ops w = (None, w') \<Longrightarrow> db w' = (db w)\<lparr>db_aliases := apply_aliases ops (db_aliases (db w))\<rparr>"
    and alias_err: "es_Alias E ops w = (Some e, w') \<Longrightarrow> db w' = db w"
    and sleep_req: "db (clock_Sleep E t w) = db w"
begin

lemma by_id: "decided i (MatchQuery ''_id'' d) D"
  "found i (MatchQuery ''_id'' d) D = (case db_docs D i d of None \<Rightarrow> {} | Some src \<Rightarrow> {(d, src)})"
  by (auto simp: decided_def found_def split: option.split)

end

sublocale elastic \<subseteq> docs: document_store "\<lambda>w. db_docs (db w)" "es_Index E" "es_Update E"
  "\<lambda>i d. es_Search E i (MatchQuery ''_id'' d) None 1"
proof
  fix i d n hits and w w' :: 'w
  assume run: "es_Search E i (MatchQuery ''_id'' d) None 1 w = (Inr (n, hits), w')"
  obtain hs where "listing None (found i (MatchQuery ''_id'' d) (db w)) hs" and "n = int (length hs)" and "hits = take 1 hs"
    using search_req[OF by_id(1)[of i d "db w"], where srt = None and n = 1] by (auto simp: run)
  then show "case db_docs (db w) i d of None \<Rightarrow> n = 0 | Some src \<Rightarrow> n = 1 \<and> hits = [(d, src)]"
    unfolding by_id(2) listing_def
    by (cases "db_docs (db w) i d"; cases hs rule: list.exhaust[case_names Nil Cons]; cases "tl hs") auto
next
  fix i d i' d' src and w :: 'w
  show "db_docs (db (snd (es_Index E i d src w))) i' d' = db_docs (db w) i' d'" if "i' \<noteq> i \<or> d' \<noteq> d"
    using index_req[of i d src w] that by (auto simp: put_def)
  show "db_docs (db (snd (es_Update E i d src w))) i' d' = db_docs (db w) i' d'" if "i' \<noteq> i \<or> d' \<noteq> d"
    using update_req[of i d src w] that by (auto simp: put_def)
next
  fix i d src e and w w' :: 'w
  show "db_docs (db w') i d = Some src" if "es_Index E i d src w = (None, w')"
    using index_req[of i d src w] that by (auto simp: put_def)
  show "db_docs (db w') i d = Some (merge_source (db_docs (db w) i d) src)" if "es_Update E i d src w = (None, w')"
    using update_req[of i d src w] that by (auto simp: put_def)
  show "db_docs (db w') i d = db_docs (db w) i d \<or> db_docs (db w') i d = Some src" if "es_Index E i d src w = (Some e, w')"
    using index_req[of i d src w] that by auto
  show "db_docs (db w') i d = db_docs (db w) i d \<or> db_docs (db w') i d = Some (merge_source (db_docs (db w) i d) src)"
    if "es_Update E i d src w = (Some e, w')"
    using update_req[of i d src w] that by auto
qed (simp add: search_keeps)

end
