(* ===== verification/Memory.thy ===== *)
theory Memory
  imports Command Bulk_Facts Elastic "HOL-Library.AList"
begin

text \<open>
  A node and an Elasticsearch held in memory: one instance of \<open>env\<close>, executable, on which the interface
  \<open>elastic\<close> is interpreted and the properties are run on concrete inputs. It stands for no code of
  the repository; no property but its run on an input depends on it.
\<close>

section \<open>State\<close>

record mem =
  m_docs :: "((string \<times> string) \<times> source) list"      \<comment> \<open>by index and id\<close>
  m_indices :: "string list"
  m_alias :: "(string \<times> string) list"
  m_chain :: "Block list"
  m_receipts :: "(string \<times> Receipt) list"
  m_accounts :: "(string \<times> string \<times> string) list"      \<comment> \<open>balance and stake\<close>
  m_answers :: "(string \<times> string) list"                \<comment> \<open>of contract queries\<close>
  m_stream :: "Block list"
  m_bulk :: "(string \<times> bulk_op list) list"              \<comment> \<open>bulk requests taken so far\<close>
  m_time :: time

definition empty_mem :: mem where
  "empty_mem = \<lparr>m_docs = [], m_indices = [], m_alias = [], m_chain = [], m_receipts = [], m_accounts = [], m_answers = [],
     m_stream = [], m_bulk = [], m_time = 1700000000000000005\<rparr>"

section \<open>Elasticsearch\<close>

definition mem_view :: "mem \<Rightarrow> string \<Rightarrow> string \<Rightarrow> source option" where
  "mem_view w i d = map_of (m_docs w) (i, d)"

definition mem_put :: "string \<Rightarrow> string \<Rightarrow> source \<Rightarrow> mem \<Rightarrow> mem" where
  "mem_put i d src w = w\<lparr>m_docs := ((i, d), src) # filter (\<lambda>x. fst x \<noteq> (i, d)) (m_docs w),
     m_indices := List.insert i (m_indices w)\<rparr>"

definition mem_insert :: "string \<Rightarrow> string \<Rightarrow> source \<Rightarrow> mem \<Rightarrow> go_error option \<times> mem" where
  "mem_insert i d src w = (None, mem_put i d src w)"

definition mem_update :: "string \<Rightarrow> string \<Rightarrow> source \<Rightarrow> mem \<Rightarrow> go_error option \<times> mem" where
  "mem_update i d src w = (None, mem_put i d (merge_source (mem_view w i d) src) w)"

definition mem_matches :: "es_query \<Rightarrow> hit \<Rightarrow> bool" where
  "mem_matches q h \<longleftrightarrow> hit_by q (fst h) (snd h) = Some True"

definition mem_hits :: "string \<Rightarrow> es_query \<Rightarrow> mem \<Rightarrow> hit list" where
  "mem_hits i q w = filter (mem_matches q) (map (\<lambda>((_, d), src). (d, src))
     (filter (\<lambda>x. fst (fst x) = i) (AList.clearjunk (m_docs w))))"

definition by_field :: "string \<Rightarrow> bool \<Rightarrow> hit list \<Rightarrow> hit list" where
  "by_field f asc hs = sort_key (sort_number f asc) hs"

definition mem_search :: "string \<Rightarrow> es_query \<Rightarrow> es_sort option \<Rightarrow> int \<Rightarrow> mem \<Rightarrow> (go_error + int \<times> hit list) \<times> mem" where
  "mem_search i q srt n w =
     (let hs = mem_hits i q w;
          hs' = (case srt of None \<Rightarrow> hs | Some k \<Rightarrow> drop (nat (sort_from k)) (by_field (sort_field k) (sort_asc k) hs))
      in (Inr (int (length hs), take (nat n) hs'), w))"

text \<open>One page with all hits, then \<open>io.EOF\<close>.\<close>

definition mem_scroll :: "scroll_request \<Rightarrow> string option \<Rightarrow> mem \<Rightarrow> (go_error + string \<times> hit list) \<times> mem" where
  "mem_scroll req sid w =
     (let hs = by_field (scroll_sort req) (scroll_asc req) (mem_hits (scroll_index req) (scroll_query req) w) in
      if sid \<noteq> None \<or> hs = [] then (Inl EOF, w) else (Inr (''scroll'', hs), w))"

definition mem_hit :: "string \<Rightarrow> es_query \<Rightarrow> mem \<Rightarrow> string \<Rightarrow> bool" where
  "mem_hit i q w d = (case mem_view w i d of None \<Rightarrow> False
     | Some src \<Rightarrow> mem_matches q (d, src))"

definition mem_delete :: "string \<Rightarrow> es_query \<Rightarrow> mem \<Rightarrow> (go_error + int) \<times> mem" where
  "mem_delete i q w =
     (Inr (int (length (filter (\<lambda>((i', d), _). i' = i \<and> mem_hit i q w d) (m_docs w)))),
      w\<lparr>m_docs := filter (\<lambda>((i', d), _). i' \<noteq> i \<or> \<not> mem_hit i q w d) (m_docs w)\<rparr>)"

primrec mem_create :: "string \<Rightarrow> bulk_op list \<Rightarrow> mem \<Rightarrow> mem" where
  "mem_create i [] w = w"
| "mem_create i (b # bs) w = mem_create i bs (case b of BulkCreate d x \<Rightarrow>
     if mem_view w i d = None then mem_put i d (doc_source x) w else w)"

primrec mem_aliases :: "alias_op list \<Rightarrow> mem \<Rightarrow> mem" where
  "mem_aliases [] w = w"
| "mem_aliases (a # as) w = mem_aliases as (case a of
     AliasAdd i name \<Rightarrow> w\<lparr>m_alias := m_alias w @ [(name, i)]\<rparr>
   | AliasRemove i name \<Rightarrow> w\<lparr>m_alias := filter (\<lambda>p. p \<noteq> (name, i)) (m_alias w)\<rparr>)"

section \<open>The node\<close>

definition read_hash :: "string \<Rightarrow> nat" where
  "read_hash q = foldr (\<lambda>c n. of_char c + 256 * n) q 0"

definition mem_block :: "string \<Rightarrow> mem \<Rightarrow> (go_error + Block) \<times> mem" where
  "mem_block q w = (let n = read_hash q in
     (if n < length (m_chain w) then Inr (m_chain w ! n) else Inl (Err ''block not found''), w))"

definition mem_env :: "mem env" where
  "mem_env =
     \<lparr>uni_IsUpper = (\<lambda>_. False), uni_IsLower = (\<lambda>_. False), uni_IsNumber = (\<lambda>_. False), uni_ToLower = (\<lambda>c. c),
      base58_Encode = (\<lambda>s. s), base58check_Encode = (\<lambda>v d. v @ d), base58check_Decode = Some,
      libp2p_PeerId = Some, proto_Size = (\<lambda>b. 100),
      rpc_GetChainInfo = (\<lambda>w. (Inr \<lparr>ChainInfo_Id = Some \<lparr>ChainId_Magic = ''dev.chain'', ChainId_Public = True,
        ChainId_Mainnet = False, ChainId_Consensus = ''dpos'', ChainId_Version = 3\<rparr>\<rparr>, w)),
      rpc_Blockchain = (\<lambda>w. (if m_chain w = [] then Inl (Err ''no chain'') else Inr (of_nat (length (m_chain w) - 1)), w)),
      rpc_GetBlock = mem_block,
      rpc_GetReceipt = (\<lambda>h w. (case map_of (m_receipts w) (bytes_of h) of None \<Rightarrow> Inl (Err ''no receipt'') | Some r \<Rightarrow> Inr r, w)),
      rpc_GetState = (\<lambda>a w. (case map_of (m_accounts w) (bytes_of a) of None \<Rightarrow> Inl (Err ''no state'') | Some (b, _) \<Rightarrow> Inr (Some b), w)),
      rpc_GetStaking = (\<lambda>a w. (case map_of (m_accounts w) (bytes_of a) of None \<Rightarrow> Inl (Err ''no stake'') | Some (_, s) \<Rightarrow> Inr (Some s), w)),
      rpc_QueryContract = (\<lambda>a q w. (case map_of (m_answers w) q of None \<Rightarrow> Inl (Err ''no such function'') | Some r \<Rightarrow> Inr (Some r), w)),
      rpc_ListBlockStream = (\<lambda>w. (Inr (Some 0), w)),
      stream_Recv = (\<lambda>h w. case m_stream w of [] \<Rightarrow> (Inl EOF, w) | b # bs \<Rightarrow> (Inr b, w\<lparr>m_stream := bs\<rparr>)),
      stream_CloseSend = (\<lambda>h w. w),
      rpc_Dial = (\<lambda>a w. (True, w)),
      es_Exists = (\<lambda>i d w. (mem_view w i d \<noteq> None, w)),
      es_Update = mem_update, es_Index = mem_insert, es_DeleteByQuery = mem_delete,
      es_Count = (\<lambda>i q w. (Inr (int (length (mem_hits i q w))), w)),
      es_Search = mem_search, es_Scroll = mem_scroll,
      es_Bulk = (\<lambda>i bs w. (None, [], (mem_create i bs w)\<lparr>m_bulk := m_bulk w @ [(i, bs)]\<rparr>)),
      es_IndicesByAlias = (\<lambda>a w. (Inr (map snd (filter (\<lambda>p. fst p = a) (m_alias w))), w)),
      es_Alias = (\<lambda>ops w. (None, mem_aliases ops w)),
      es_CreateIndex = (\<lambda>i m w. if i \<in> set (m_indices w) then (Inl (ElasticError 400), w)
        else (Inr True, w\<lparr>m_indices := i # m_indices w\<rparr>)),
      es_DeleteIndex = (\<lambda>i w. w\<lparr>m_docs := filter (\<lambda>x. fst (fst x) \<noteq> i) (m_docs w),
        m_indices := removeAll i (m_indices w), m_alias := filter (\<lambda>x. snd x \<noteq> i) (m_alias w)\<rparr>),
      es_ClusterHealth = (\<lambda>w. (None, w)), es_NewClient = (\<lambda>u w. (None, w)),
      http_Get = (\<lambda>u w. (Inl (Err ''offline''), w)),
      clock_Now = (\<lambda>w. (m_time w, w)), clock_Sleep = (\<lambda>d w. w\<lparr>m_time := m_time w + d\<rparr>)\<rparr>"

section \<open>The interface\<close>

lemma mem_view_put: "mem_view (mem_put i d src w) i' d' = (if i' = i \<and> d' = d then Some src else mem_view w i' d')"
proof -
  have "map_of (filter (\<lambda>x. fst x \<noteq> k) l) k' = (if k' = k then None else map_of l k')"
    for k k' :: "string \<times> string" and l :: "((string \<times> string) \<times> source) list"
    by (induction l) auto
  then show ?thesis by (simp add: mem_view_def mem_put_def)
qed

lemma mem_hits_set: "set (mem_hits i q w) = {(d, src). mem_view w i d = Some src \<and> mem_matches q (d, src)}"
proof -
  have c: "((j, d), src) \<in> set (AList.clearjunk (m_docs w)) \<longleftrightarrow> mem_view w j d = Some src" for j d src
    unfolding mem_view_def by (metis distinct_clearjunk map_of_clearjunk map_of_eq_Some_iff)
  show ?thesis unfolding mem_hits_def by (force simp: c split: prod.splits)
qed

lemma mem_hits_distinct: "distinct (map fst (mem_hits i q w))"
proof -
  have "distinct (map (\<lambda>x. snd (fst x)) (filter (\<lambda>x. fst (fst x) = i) l))" if "distinct (map fst l)"
    for l :: "((string \<times> string) \<times> source) list"
  proof -
    have "inj_on (\<lambda>x. snd (fst x)) (set (filter (\<lambda>x. fst (fst x) = i) l))"
      by (rule inj_onI) (use that in \<open>auto simp: distinct_map inj_on_def prod_eq_iff\<close>)
    with that show ?thesis by (simp add: distinct_map)
  qed
  then have "distinct (map fst (map (\<lambda>((_, d), src). (d, src)) (filter (\<lambda>x. fst (fst x) = i) (AList.clearjunk (m_docs w)))))"
    by (simp add: comp_def case_prod_beta)
  then show ?thesis unfolding mem_hits_def by (rule distinct_map_filter)
qed

lemma mem_hits_id: "mem_hits i (MatchQuery ''_id'' d) w = (case mem_view w i d of None \<Rightarrow> [] | Some src \<Rightarrow> [(d, src)])"
proof -
  have "set (mem_hits i (MatchQuery ''_id'' d) w) = (case mem_view w i d of None \<Rightarrow> {} | Some src \<Rightarrow> {(d, src)})"
    by (auto simp: mem_hits_set mem_matches_def split: option.splits)
  moreover have "distinct (mem_hits i (MatchQuery ''_id'' d) w)" using mem_hits_distinct distinct_map by blast
  ultimately show ?thesis
    by (cases "mem_view w i d"; cases "mem_hits i (MatchQuery ''_id'' d) w") (auto simp: subset_singleton_iff)
qed

lemma mem_view_frame [simp]: "mem_view (w\<lparr>m_indices := x\<rparr>) = mem_view w" "mem_view (w\<lparr>m_alias := y\<rparr>) = mem_view w"
  "mem_view (w\<lparr>m_bulk := z\<rparr>) = mem_view w" "mem_view (w\<lparr>m_time := t\<rparr>) = mem_view w"
  by (simp_all add: mem_view_def fun_eq_iff)

definition mem_db :: "mem \<Rightarrow> database" where
  "mem_db w = \<lparr>db_docs = mem_view w, db_indices = set (m_indices w), db_aliases = \<lambda>a. snd ` set (filter (\<lambda>p. fst p = a) (m_alias w))\<rparr>"

lemma mem_db_simps [simp]:
  "db_docs (mem_db w) = mem_view w" "db_indices (mem_db w) = set (m_indices w)"
  "db_aliases (mem_db w) a = snd ` set (filter (\<lambda>p. fst p = a) (m_alias w))"
  by (simp_all add: mem_db_def)

lemma mem_put_db: "mem_db (mem_put i d src w) = put i d src (mem_db w)"
  by (simp add: mem_db_def put_def fun_eq_iff mem_view_put) (simp add: mem_put_def)

lemma mem_create_db: "mem_db (mem_create i ops w) = put_new i ops (mem_db w)"
  by (induction ops arbitrary: w) (auto simp: mem_put_db split: bulk_op.split)

lemma mem_aliases_db: "mem_db (mem_aliases ops w) = (mem_db w)\<lparr>db_aliases := apply_aliases ops (db_aliases (mem_db w))\<rparr>"
proof (induction ops arbitrary: w)
  case (Cons op ops)
  let ?w = "case op of AliasAdd i name \<Rightarrow> w\<lparr>m_alias := m_alias w @ [(name, i)]\<rparr>
    | AliasRemove i name \<Rightarrow> w\<lparr>m_alias := filter (\<lambda>p. p \<noteq> (name, i)) (m_alias w)\<rparr>"
  have "mem_db ?w = (mem_db w)\<lparr>db_aliases := apply_aliases [op] (db_aliases (mem_db w))\<rparr>"
    by (cases op) (auto simp: mem_db_def mem_view_def fun_eq_iff image_iff)
  with Cons[of ?w] show ?case by (simp del: mem_db_simps)
qed (simp add: mem_db_def)

lemma mem_drop_db: "mem_db (es_DeleteIndex mem_env i w) = drop_index i (mem_db w)"
proof -
  have "map_of (filter (\<lambda>x. fst (fst x) \<noteq> i) l) (j, d) = (if j = i then None else map_of l (j, d))"
    for j d :: string and l :: "((string \<times> string) \<times> source) list" by (induction l) auto
  then show ?thesis by (auto simp: mem_db_def drop_index_def mem_env_def mem_view_def fun_eq_iff)
qed

lemma mem_deleted: "mem_view (snd (mem_delete i q w)) j d = (if j = i \<and> mem_hit i q w d then None else mem_view w j d)"
proof -
  have "map_of (filter (\<lambda>((i', d), _). i' \<noteq> i \<or> \<not> P d) l) (j, d) = (if j = i \<and> P d then None else map_of l (j, d))"
    for P and l :: "((string \<times> string) \<times> source) list" by (induction l) auto
  then show ?thesis by (simp add: mem_delete_def mem_view_def)
qed

lemma mem_db_delete: "db_indices (mem_db (snd (mem_delete i q w))) = db_indices (mem_db w)"
  "db_aliases (mem_db (snd (mem_delete i q w))) = db_aliases (mem_db w)"
  by (simp_all add: mem_delete_def fun_eq_iff)

text \<open>What a decided query finds.\<close>

lemma mem_found: "decided i q (mem_db w) \<Longrightarrow> set (mem_hits i q w) = found i q (mem_db w) \<and> distinct (mem_hits i q w) \<and>
    length (mem_hits i q w) = card (found i q (mem_db w))"
proof -
  assume "decided i q (mem_db w)"
  then have "set (mem_hits i q w) = found i q (mem_db w)"
    by (fastforce simp: mem_hits_set found_def decided_def mem_matches_def split: option.splits)
  moreover have "distinct (mem_hits i q w)" using mem_hits_distinct distinct_map by blast
  ultimately show ?thesis using distinct_card by metis
qed

lemma listing_by_field: "distinct hs \<Longrightarrow> listing (Some (f, asc)) (set hs) (by_field f asc hs)"
  by (simp add: listing_def by_field_def)

interpretation mem: elastic mem_env mem_db
proof
  fix i q srt n and w :: mem assume d: "decided i q (mem_db w)"
  note f = mem_found[OF d]
  show "\<exists>w'. es_Count mem_env i q w = (Inr (int (card (found i q (mem_db w)))), w') \<and> mem_db w' = mem_db w"
    using f by (simp add: mem_env_def)
  show "\<exists>hs. listing (map_option (\<lambda>k. (sort_field k, sort_asc k)) srt) (found i q (mem_db w)) hs \<and>
      fst (es_Search mem_env i q srt n w) = Inr (int (length hs), take (nat n) (case srt of None \<Rightarrow> hs | Some k \<Rightarrow> drop (nat (sort_from k)) hs))"
  proof (cases srt)
    case None
    then show ?thesis using f by (auto simp: mem_env_def mem_search_def listing_def Let_def)
  next
    case (Some k)
    with f listing_by_field[of "mem_hits i q w" "sort_field k" "sort_asc k"] show ?thesis
      by (intro exI[of _ "by_field (sort_field k) (sort_asc k) (mem_hits i q w)"])
        (simp add: mem_env_def mem_search_def Let_def by_field_def)
  qed
next
  fix req :: scroll_request and w :: mem assume d: "decided (scroll_index req) (scroll_query req) (mem_db w)"
  let ?hs = "by_field (scroll_sort req) (scroll_asc req) (mem_hits (scroll_index req) (scroll_query req) w)"
  have "scroll_pages mem_env req None w (if ?hs = [] then [] else [?hs]) w"
    by (cases "?hs = []") (auto intro!: scroll_pages.page[where sid' = "''scroll''"] scroll_pages.last simp: mem_env_def mem_scroll_def)
  moreover have "concat (if ?hs = [] then [] else [?hs]) = ?hs" by simp
  ultimately show "\<exists>ps w'. scroll_pages mem_env req None w ps w' \<and> mem_db w' = mem_db w \<and>
      listing (Some (scroll_sort req, scroll_asc req)) (found (scroll_index req) (scroll_query req) (mem_db w)) (concat ps)"
    using mem_found[OF d] listing_by_field[of "mem_hits (scroll_index req) (scroll_query req) w"] by metis
next
  fix i d src and w :: mem
  show "\<exists>w'. es_Index mem_env i d src w = (None, w') \<and> mem_db w' = put i d src (mem_db w)"
    by (simp add: mem_env_def mem_insert_def mem_put_db)
  show "\<exists>w'. es_Update mem_env i d src w = (None, w') \<and> mem_db w' = put i d (merge_source (db_docs (mem_db w) i d) src) (mem_db w)"
    by (simp add: mem_env_def mem_update_def mem_put_db)
next
  fix i q and w :: mem
  have "removes i q (mem_db w) (mem_db (snd (mem_delete i q w)))"
    using mem_db_delete[of i q w] by (auto simp: removes_def mem_deleted mem_hit_def mem_matches_def)
  then show "\<exists>n w'. es_DeleteByQuery mem_env i q w = (Inr n, w') \<and> removes i q (mem_db w) (mem_db w')"
    by (simp add: mem_env_def mem_delete_def)
next
  fix i bs and w :: mem
  have "mem_db (v\<lparr>m_bulk := b\<rparr>) = mem_db v" for v b by (simp add: mem_db_def)
  then show "\<exists>rest w'. es_Bulk mem_env i bs w = (None, rest, w') \<and> mem_db w' = put_new i bs (mem_db w)"
    by (simp add: mem_env_def mem_create_db)
next
  fix ops and w w' :: mem
  show "es_Alias mem_env ops w = (None, w') \<Longrightarrow> mem_db w' = (mem_db w)\<lparr>db_aliases := apply_aliases ops (db_aliases (mem_db w))\<rparr>"
    using mem_aliases_db[of ops w] by (auto simp: mem_env_def simp del: mem_db_simps)
qed (simp_all add: mem_drop_db, simp_all add: mem_env_def mem_search_def Let_def mem_db_def)

lemma mem_store: "es_store mem_env mem_view"
  using mem.docs.document_store_axioms by (simp add: es_store_def)

text \<open>The key of a block is read back.\<close>

lemma read_digits: "read_hash (map (\<lambda>i. char_of (m div 256 ^ i)) [0..<k]) = m mod 256 ^ k"
proof (induction k arbitrary: m)
  case 0
  show ?case by (simp add: read_hash_def)
next
  case (Suc k)
  have "[0..<Suc k] = 0 # map Suc [0..<k]" by (simp add: upt_conv_Cons map_Suc_upt del: upt_Suc)
  then have "read_hash (map (\<lambda>i. char_of (m div 256 ^ i)) [0..<Suc k]) =
      m mod 256 + 256 * read_hash (map (\<lambda>i. char_of (m div 256 div 256 ^ i)) [0..<k])"
    by (simp add: read_hash_def comp_def of_char_of div_mult2_eq)
  also have "\<dots> = m mod 256 ^ Suc k" unfolding Suc.IH by (simp add: mod_mult2_eq)
  finally show ?case .
qed

lemma read_PutUint64: "read_hash (PutUint64 v) = unat v"
  using unsigned_less[of v] by (simp add: PutUint64_def read_digits del: upt_Suc)

section \<open>Sample inputs\<close>

definition sample_body :: TxBody where
  "sample_body = \<lparr>TxBody_Nonce = 1, TxBody_Account = Some ''alice'', TxBody_Recipient = Some ''bob'',
     TxBody_Amount = Some ''7'', TxBody_Payload = None, TxBody_GasLimit = 0, TxBody_GasPrice = None,
     TxBody_Type = TxType_TRANSFER, TxBody_ChainIdHash = None, TxBody_Sign = None\<rparr>"

definition sample_tx :: Tx where
  "sample_tx = \<lparr>Tx_Hash = Some ''tx1'', Tx_Body = Some sample_body\<rparr>"

definition deploy_body :: TxBody where
  "deploy_body = sample_body\<lparr>TxBody_Recipient := None, TxBody_Payload := Some ''code'', TxBody_Type := TxType_DEPLOY\<rparr>"

definition deploy_tx :: Tx where
  "deploy_tx = \<lparr>Tx_Hash = Some ''tx2'', Tx_Body = Some deploy_body\<rparr>"

definition sample_header :: "uint64 \<Rightarrow> BlockHeader" where
  "sample_header n = \<lparr>BlockHeader_ChainID = None, BlockHeader_PrevBlockHash = Some ''prev'',
     BlockHeader_BlockNo = n, BlockHeader_Timestamp = 1, BlockHeader_BlocksRootHash = None,
     BlockHeader_TxsRootHash = None, BlockHeader_ReceiptsRootHash = None, BlockHeader_Confirms = 0,
     BlockHeader_PubKey = Some ''key'', BlockHeader_CoinbaseAccount = None, BlockHeader_Sign = None,
     BlockHeader_Consensus = None\<rparr>"

definition sample_block :: "uint64 \<Rightarrow> Tx list \<Rightarrow> Block" where
  "sample_block n txs = \<lparr>Block_Hash = Some ''block'', Block_Header = Some (sample_header n),
     Block_Body = Some \<lparr>BlockBody_Txs = txs\<rparr>\<rparr>"

definition sample_event :: "string \<Rightarrow> string \<Rightarrow> Event" where
  "sample_event name args = \<lparr>Event_ContractAddress = Some ''token'', Event_EventName = name, Event_JsonArgs = args,
     Event_EventIdx = 0, Event_TxHash = None, Event_BlockHash = None, Event_BlockNo = 0, Event_TxIndex = 0\<rparr>"

definition block_doc :: "string \<Rightarrow> uint64 \<Rightarrow> EsBlock" where
  "block_doc h n = \<lparr>Doc_Id = h, EsBlock_Timestamp = 1, EsBlock_BlockNo = n, EsBlock_PreviousBlock = [],
     EsBlock_TxCount = 0, EsBlock_Size = 100, EsBlock_Coinbase = [], EsBlock_BlockProducer = [],
     EsBlock_RewardAccount = [], EsBlock_RewardAmount = []\<rparr>"

definition sample_nft :: "uint64 \<Rightarrow> EsNFT" where
  "sample_nft b = \<lparr>Doc_Id = ''token-1'', EsNFT_TokenAddress = ''token'', EsNFT_TokenId = ''1'', EsNFT_Account = ''bob'',
     EsNFT_BlockNo = b, EsNFT_Timestamp = 1, EsNFT_TokenUri = [], EsNFT_ImageUrl = []\<rparr>"

lemmas sample_defs = sample_body_def sample_tx_def deploy_body_def deploy_tx_def sample_header_def sample_block_def
  sample_event_def block_doc_def

text \<open>A started indexer over a world.\<close>

definition sample_indexer :: "mem \<Rightarrow> mem Indexer" where
  "sample_indexer w = (default_indexer False w)\<lparr>indexNamePrefix := ''p_'', minerNum := 2, grpcNum := 1\<rparr>"

lemma sample_simps [simp]:
  "minerNum (sample_indexer w) = 2" "grpcNum (sample_indexer w) = 1" "serverAddr (sample_indexer w) = []"
  "index_name (sample_indexer w) t = ''p_'' @ t" "world (sample_indexer w) = w" "acts (sample_indexer w) = []"
  "lastHeight (sample_indexer w) = 0" "accToken (sample_indexer w) = []" "stream (sample_indexer w) = None"
  "indexNamePrefix (sample_indexer w) = ''p_''"
  by (simp_all add: sample_indexer_def default_indexer_def index_name_def)

section \<open>Scrolling in memory\<close>

lemma mem_scroll_delivers:
  assumes "scrollService s0 = (req, None)" and "scroll_result s0 = None"
    and "by_field (scroll_sort req) (scroll_asc req) (mem_hits (scroll_index req) (scroll_query req) w) = hits"
    and "map (decode_hit decode) hits = map Some ds"
  shows "\<exists>s'. delivers (Next mem_env decode) retry s0 w ds s' w"
proof (cases "hits = []")
  case True
  then have "scroll_pages mem_env req None w [] w"
    using assms(3) by (intro scroll_pages.last) (simp add: mem_env_def mem_scroll_def)
  then show ?thesis by (rule scroll_pages_delivered[OF _ assms(1)]) (use assms True in auto)
next
  case False
  have "scroll_pages mem_env req None w [hits] w"
    using assms(3) False
    by (intro scroll_pages.page[where sid' = "''scroll''"] scroll_pages.last) (simp_all add: mem_env_def mem_scroll_def)
  then show ?thesis by (rule scroll_pages_delivered[OF _ assms(1)]) (use assms in auto)
qed

lemma dials_mem [simp]: "dials mem_env addr n w = w"
  by (induction n) (simp_all add: mem_env_def)

lemma mem_Dial [simp]: "rpc_Dial mem_env addr w = (True, w)"
  by (simp add: mem_env_def)

lemma accepting_mem: "accepting mem_env"
  by (simp add: accepting_def mem_env_def)

text \<open>A world in which the blocks of these heights are indexed.\<close>

definition indexed_world :: "uint64 list \<Rightarrow> mem" where
  "indexed_world hs = empty_mem\<lparr>m_docs :=
     map (\<lambda>h. ((''p_block'', show_nat (unat h)), EsBlock_source (block_doc (show_nat (unat h)) h))) hs\<rparr>"

lemma check_delivers:
  assumes "hs = [4, 2] \<or> hs = [4, 1]" and w: "m_docs w = m_docs (indexed_world hs)"
  shows "\<exists>s'. delivers (Next mem_env EsBlock_decode) retry (Scroll (check_params ''p_block'' 1 5)) w
    (map (\<lambda>h. block_doc (show_nat (unat h)) h) hs) s' w"
proof -
  let ?hit = "\<lambda>h :: uint64. (show_nat (unat h), EsBlock_source (block_doc (show_nat (unat h)) h))"
  have no: "sort_number ''no'' False (d', EsBlock_source (block_doc d h)) = - int (unat h)"
    "mem_matches (RangeQuery ''no'' (Some 1) (Some 5)) (d', EsBlock_source (block_doc d h)) \<longleftrightarrow> 1 \<le> int (unat h) \<and> int (unat h) \<le> 5" for d d' h
    by (auto simp: sort_number_def number_of_def mem_matches_def EsBlock_source_def block_doc_def)
  have "by_field ''no'' False (mem_hits ''p_block'' (RangeQuery ''no'' (Some 1) (Some 5)) w) = map ?hit hs"
    using assms(1) by (auto simp: by_field_def mem_hits_def w indexed_world_def no)
  note hits = this
  have srv: "Scroll (check_params ''p_block'' 1 5) = \<lparr>scrollService = (\<lparr>scroll_index = ''p_block'',
      scroll_query = RangeQuery ''no'' (Some 1) (Some 5), scroll_size = 10000, scroll_sort = ''no'',
      scroll_asc = False, scroll_include = [''no'']\<rparr>, None), scroll_result = None, scroll_current = 0,
      scroll_currentLength = 0\<rparr>"
    by (simp add: Scroll_def check_params_def zeroQueryParams_def scroll_range_def)
  show ?thesis
    unfolding srv
  proof (rule mem_scroll_delivers[where hits = "map ?hit hs", OF EsScrollInstance.select_convs(1)])
    show "map (decode_hit EsBlock_decode) (map ?hit hs) = map Some (map (\<lambda>h. block_doc (show_nat (unat h)) h) hs)"
      by (simp add: decode_hit_def EsBlock_roundtrip SetID_def block_doc_def)
  qed (simp_all add: hits)
qed

lemma mem_takes_bulks: "takes_bulks mem_env m_bulk"
  by (simp add: takes_bulks_def mem_env_def)

section \<open>Starting in memory\<close>

text \<open>All aliases exist, the node does not tell its height, and its stream has one block; in the second variant it gives no chain info either.\<close>

definition aliased_env :: "mem env" where
  "aliased_env = mem_env\<lparr>es_IndicesByAlias := \<lambda>a w. (Inr [''old_'' @ drop 2 a], w),
     rpc_Blockchain := \<lambda>w. (Inl (Err ''unavailable''), w),
     rpc_ListBlockStream := \<lambda>w. (Inr (Some 0), w\<lparr>m_stream := [sample_block 3 []]\<rparr>)\<rparr>"

text \<open>A database that holds the chain info of another chain.\<close>

definition foreign_info :: EsChainInfo where
  "foreign_info = \<lparr>Doc_Id = ''aergo.io'', EsChainInfo_Public = True, EsChainInfo_Mainnet = True,
     EsChainInfo_Consensus = ''dpos'', EsChainInfo_Version = 3\<rparr>"

definition foreign_env :: "mem env" where
  "foreign_env = aliased_env\<lparr>es_Search := \<lambda>i q srt n w. (Inr (1, [(''aergo.io'', EsChainInfo_source foreign_info)]), w)\<rparr>"

definition fresh_indexer :: "mem Indexer" where
  "fresh_indexer = (default_indexer False empty_mem)\<lparr>index_prefix := ''p'', runMode := ''onsync''\<rparr>"

lemma aliased_create:
  "E = aliased_env \<or> E = foreign_env \<Longrightarrow> aliasNamePrefix s = ''p_'' \<Longrightarrow>
    CreateIndexIfNotExists E t s = Some (Ret None, s\<lparr>indexNamePrefix := ''old_''\<rparr>)"
  using TrimSuffix_append[of "''old_''" t]
  by (auto simp: CreateIndexIfNotExists_def GetExistingIndexPrefix_def aliased_env_def foreign_env_def)

lemma aliased_chain_info:
  "E = aliased_env \<or> E = foreign_env \<Longrightarrow> aliasNamePrefix s = ''p_'' \<Longrightarrow>
    create_chain_info E s = Some (Ret (), s\<lparr>indexNamePrefix := ''old_''\<rparr>)"
  by (subst create_chain_info.simps)
    (simp add: bnd_Ret[where m = "CreateIndexIfNotExists E ''chain_info''", OF aliased_create])

lemma same_prefix: "indexNamePrefix s = p \<Longrightarrow> s\<lparr>indexNamePrefix := p\<rparr> = s"
  by (cases s) simp

lemma aliased_others:
  "aliasNamePrefix s = ''p_'' \<Longrightarrow> indexNamePrefix s = ''old_'' \<Longrightarrow>
    each (\<lambda>t. bnd (CreateIndexIfNotExists aliased_env t) (\<lambda>_. ret ())) ts s = Some (Ret (), s)"
proof (induction ts)
  case (Cons t ts)
  have c: "bnd (CreateIndexIfNotExists aliased_env t) (\<lambda>_. ret ()) s = Some (Ret (), s)"
    using Cons.prems by (simp add: bnd_Ret[where m = "CreateIndexIfNotExists aliased_env t", OF aliased_create] same_prefix)
  from Cons.IH[OF Cons.prems] show ?case unfolding each.simps sq_Ret[where m = "bnd (CreateIndexIfNotExists aliased_env t) (\<lambda>_. ret ())", OF c] .
qed simp

lemma fresh_simps [simp]:
  "index_prefix fresh_indexer = ''p''" "runMode fresh_indexer = ''onsync''" "world fresh_indexer = empty_mem"
  "acts fresh_indexer = []" "networkTypeForCccv fresh_indexer = []" "fixMode fresh_indexer = False"
  by (simp_all add: fresh_indexer_def default_indexer_def)

text \<open>What is in the store after the indices were set up: the chain info only.\<close>

definition set_up :: "mem \<Rightarrow> bool" where
  "set_up w \<longleftrightarrow> (\<forall>x \<in> set (m_docs w). fst (fst x) = ''old_chain_info'') \<and> m_stream w = []"

lemma fresh_InitIndex:
  "\<exists>w. InitIndex aliased_env fresh_indexer =
    Some (Ret None, fresh_indexer\<lparr>aliasNamePrefix := ''p_'', indexNamePrefix := ''old_'', world := w\<rparr>) \<and> set_up w"
proof -
  let ?s = "\<lambda>w. fresh_indexer\<lparr>aliasNamePrefix := ''p_'', indexNamePrefix := ''old_'', world := w\<rparr>"
  have "\<exists>d src. ValidChainInfo aliased_env (?s empty_mem) = Some (Ret None, ?s (mem_put ''old_chain_info'' d src empty_mem))"
    by (simp add: ValidChainInfo_def GetChainInfo_def aliased_env_def mem_env_def SelectOne_def zeroQueryParams_def
        mem_search_def mem_hits_def empty_mem_def by_field_def ConvChainInfo_def Insert_def mem_insert_def index_name_def,
        rule exI, rule exI, rule refl)
  then obtain w d src where v: "ValidChainInfo aliased_env (?s empty_mem) = Some (Ret None, ?s w)"
    "w = mem_put ''old_chain_info'' d src empty_mem" by metis
  have e: "fresh_indexer\<lparr>aliasNamePrefix := ''p_'', world := empty_mem, indexNamePrefix := ''old_''\<rparr> = ?s empty_mem" by simp
  have c: "clock_Now aliased_env empty_mem = (m_time empty_mem, empty_mem)" by (simp add: aliased_env_def mem_env_def)
  have "set_up w" by (simp add: set_up_def v(2) mem_put_def empty_mem_def)
  then show ?thesis
    by (intro exI[of _ w]) (simp add: InitIndex_def now_def c e sq_Ret[where m = "create_chain_info aliased_env", OF aliased_chain_info]
        bnd_Ret[where m = "ValidChainInfo aliased_env", OF v(1)] sq_Ret[OF aliased_others])
qed

lemma set_up_hits: "set_up w \<Longrightarrow> i \<noteq> ''old_chain_info'' \<Longrightarrow> mem_hits i (RangeQuery f lo hi) w = []"
proof -
  assume "set_up w" and "i \<noteq> ''old_chain_info''"
  then have "mem_view w i d = None" for d unfolding mem_view_def set_up_def by (force simp: map_of_eq_None_iff)
  then show ?thesis using mem_hits_set[of i "RangeQuery f lo hi" w] by auto
qed

lemma scroll_nothing:
  assumes "set_up (world s)" and "index_name s t \<noteq> ''old_chain_info''" and "f \<noteq> []"
  shows "scroll_index_of aliased_env t f decode fn acc s = Some (Ret acc, s)"
proof -
  have "Next aliased_env decode (Scroll (scroll_params (index_name s t) f)) (world s) =
      (Inl EOF, Scroll (scroll_params (index_name s t) f), world s)"
    using assms by (simp add: Next_def scroll_load_def Scroll_def scroll_params_def zeroQueryParams_def scroll_range_def
        aliased_env_def mem_env_def mem_scroll_def set_up_hits by_field_def)
  then show ?thesis
    by (simp add: scroll_index_of_def) (subst scroll_each.simps, simp add: next_doc_def)
qed

lemma fresh_Start: "\<exists>s'. Start aliased_env 0 0 fresh_indexer = Some (Ret False, s') \<and> set_up (world s')"
proof -
  obtain w where i: "InitIndex aliased_env fresh_indexer =
      Some (Ret None, fresh_indexer\<lparr>aliasNamePrefix := ''p_'', indexNamePrefix := ''old_'', world := w\<rparr>)" and w: "set_up w"
    using fresh_InitIndex by blast
  let ?s = "fresh_indexer\<lparr>aliasNamePrefix := ''p_'', indexNamePrefix := ''old_'', world := w, lastHeight := - 1\<rparr>"
  have n: "set_up (world ?s)" "index_name ?s t = ''old_'' @ t" for t using w by (simp_all add: index_name_def)
  have r: "registerVariables aliased_env ?s = Some (Ret (), ?s)"
    unfolding registerVariables_def ScrollToken_def ScrollContract_def ScrollBalance_def
    by (rule trans[OF sq_Ret], rule scroll_nothing, rule n, simp add: n, simp,
        rule trans[OF sq_Ret], rule scroll_nothing, rule n, simp add: n, simp,
        rule scroll_nothing, rule n, simp add: n, simp)
  have b: "rpc_Blockchain aliased_env w = (Inl (Err ''unavailable''), w)" by (simp add: aliased_env_def)
  have c: "initCccvNft aliased_env s0 = Some (Ret (), s0)" if "networkTypeForCccv s0 = []" for s0
    using that by (simp add: initCccvNft_def bnd_def)
  let ?t = "fresh_indexer\<lparr>aliasNamePrefix := ''p_'', indexNamePrefix := ''old_'', world := w\<rparr>"
  have g: "GetBestBlock aliased_env ?t = Some (Ret 0, ?t)"
    by (simp add: GetBestBlock_def client_GetBestBlock_def b)
  have o: "OnSync aliased_env ?s = Some (Ret (), ?s\<lparr>acts := acts ?s @ [GoStartStream]\<rparr>)"
    by (simp add: OnSync_def sq_Ret[where m = "registerVariables aliased_env", OF r])
  have "Start aliased_env 0 0 fresh_indexer = Some (Ret False, ?s\<lparr>acts := acts ?s @ [GoStartStream]\<rparr>)"
    unfolding Start_def bnd_Ret[where m = "InitIndex aliased_env", OF i]
    by (simp add: sq_Ret[where m = "OnSync aliased_env", OF o] sq_Ret[where m = "initCccvNft aliased_env", OF c] bnd_Ret[where m = "GetBestBlock aliased_env", OF g])
  then show ?thesis using w by auto
qed

end
