(* ===== verification/Data_Properties.thy ===== *)
theory Data_Properties
  imports Memory
begin

text \<open>
  The properties of reading and converting chain data: categories, tokens, events, accounts, names, ids,
  amounts, documents and their mappings, and the queries to the node.
\<close>

section \<open>Transactions\<close>

text \<open>Exactly the transactions without recipient and with a payload, of no special type, are deployments.\<close>

lemma category_deploy:
  assumes "Tx_Body tx = Some b"
  shows "(\<exists>n. DetectTxCategory L tx = Ret (TxDeploy, n)) \<longleftrightarrow>
    bytes_of (TxBody_Recipient b) = [] \<and> bytes_of (TxBody_Payload b) \<noteq> [] \<and>
    TxBody_Type b \<notin> {TxType_REDEPLOY, TxType_MULTICALL}"
  by (rule governance_pairs[of L tx])
    (use special_not_plain plain_not_deploy[OF assms] in
      \<open>auto simp: DetectTxCategory_body[OF assms] Let_def split: if_splits\<close>)

text \<open>C24: a transaction is classified as a transfer exactly when it carries no payload, is not addressed to a
  governance contract, and is of the type transfer or moves an amount.\<close>

theorem category_transfer:
  assumes "Tx_Body tx = Some b"
  shows "(\<exists>n. DetectTxCategory L tx = Ret (TxTransfer, n)) \<longleftrightarrow>
    bytes_of (TxBody_Payload b) = [] \<and>
    bytes_of (TxBody_Recipient b) \<notin> {''aergo.enterprise'', ''aergo.name'', ''aergo.system''} \<and>
    (TxBody_Type b = TxType_TRANSFER \<or>
     TxBody_Type b = TxType_NORMAL \<and> bytes_of (TxBody_Amount b) \<notin> {[], ''0''})"
proof -
  have n: "TxType_REDEPLOY \<noteq> TxType_TRANSFER" "TxType_MULTICALL \<noteq> TxType_TRANSFER"
    "TxType_REDEPLOY \<noteq> TxType_NORMAL" "TxType_MULTICALL \<noteq> TxType_NORMAL" by (simp_all add: TxType_defs)
  define Q where "Q \<longleftrightarrow> TxBody_Type b = TxType_TRANSFER \<or>
     TxBody_Type b = TxType_NORMAL \<and> bytes_of (TxBody_Amount b) \<notin> {[], ''0''}"
  have q: "Q \<Longrightarrow> TxBody_Type b \<notin> {TxType_REDEPLOY, TxType_MULTICALL}" using n by (auto simp: Q_def)
  have p: "(\<exists>n. plain_category tx = Ret (TxTransfer, n)) = (bytes_of (TxBody_Payload b) = [] \<and> Q)"
    using plain_transfer[OF assms] by (simp only: Q_def)
  obtain e en m mn y yn where "enterprise_category L tx = (e, en)" "name_category L tx = (m, mn)"
    "system_category L tx = (y, yn)" "e \<noteq> TxTransfer" "m \<noteq> TxTransfer" "y \<noteq> TxTransfer"
    by (rule governance_pairs[of L tx]) auto
  then have "(\<exists>n. DetectTxCategory L tx = Ret (TxTransfer, n)) \<longleftrightarrow>
    bytes_of (TxBody_Payload b) = [] \<and>
    bytes_of (TxBody_Recipient b) \<notin> {''aergo.enterprise'', ''aergo.name'', ''aergo.system''} \<and> Q"
    using special_not_plain p q by (auto simp: DetectTxCategory_body[OF assms] Let_def split: if_splits)
  then show ?thesis by (simp only: Q_def)
qed

theorem category_transfer_witness:
  "(\<exists>n. DetectTxCategory mem_env sample_tx = Ret (TxTransfer, n)) \<longleftrightarrow>
    bytes_of (TxBody_Payload sample_body) = [] \<and>
    bytes_of (TxBody_Recipient sample_body) \<notin> {''aergo.enterprise'', ''aergo.name'', ''aergo.system''} \<and>
    (TxBody_Type sample_body = TxType_TRANSFER \<or>
     TxBody_Type sample_body = TxType_NORMAL \<and> bytes_of (TxBody_Amount sample_body) \<notin> {[], ''0''})"
  by (rule category_transfer) (simp add: sample_tx_def)

text \<open>Classifying fails exactly for a transaction without a body, on which it panics.\<close>

lemma category_panics: "(\<exists>p. DetectTxCategory L tx = Panic p) \<longleftrightarrow> Tx_Body tx = None"
proof (cases "Tx_Body tx")
  case None
  then show ?thesis by (simp add: DetectTxCategory_nil)
next
  case (Some b)
  then show ?thesis using DetectTxCategory_Ret[OF Some, of L] by auto
qed

text \<open>C25: a payload that is taken for a token of the second kind of detection names the five functions of a token,
  and its transaction, when it has no recipient, is classified as a deployment.\<close>

theorem token_creation:
  assumes "MaybeTokenCreation tx = Ret t" and "t \<noteq> TokenNone" and "bytes_of (GetRecipient (GetBody tx)) = []"
  shows "(\<exists>n. DetectTxCategory L tx = Ret (TxDeploy, n)) \<and>
    (\<forall>k \<in> {''name'', ''balanceOf'', ''transfer'', ''symbol'', ''totalSupply''}. Contains (bytes_of (GetPayload (GetBody tx))) k) \<and>
    (t = TokenARC1 \<and> Contains (bytes_of (GetPayload (GetBody tx))) ''decimals'' \<or>
     t = TokenARC2 \<and> Contains (bytes_of (GetPayload (GetBody tx))) ''ownerOf'')"
proof -
  from assms(1,2) obtain b where b: "Tx_Body tx = Some b"
    by (cases "Tx_Body tx") (auto simp: MaybeTokenCreation_def GetBody_def GetType_def TxType_defs)
  have ty: "TxBody_Type b = TxType_DEPLOY" "bytes_of (TxBody_Payload b) \<noteq> []"
    using assms(1,2) b by (auto simp: MaybeTokenCreation_def GetBody_def Let_def split: if_splits)
  then have "\<exists>n. DetectTxCategory L tx = Ret (TxDeploy, n)"
    using assms(3) b by (simp add: DetectTxCategory_body[OF b] GetBody_def TxType_defs)
  then show ?thesis
    using assms(1,2) b ty by (auto simp: MaybeTokenCreation_def GetBody_def Let_def token_keywords_def split: if_splits)
qed

definition token_tx :: Tx where
  "token_tx = deploy_tx\<lparr>Tx_Body := Some (deploy_body\<lparr>TxBody_Payload :=
     Some ''name balanceOf transfer symbol totalSupply decimals''\<rparr>)\<rparr>"

theorem token_creation_witness: "\<exists>n. DetectTxCategory mem_env token_tx = Ret (TxDeploy, n)"
proof -
  have "list_all (Contains ''name balanceOf transfer symbol totalSupply decimals'') (''decimals'' # token_keywords)"
    by code_simp
  then have "MaybeTokenCreation token_tx = Ret TokenARC1"
    by (simp add: MaybeTokenCreation_def token_tx_def deploy_tx_def deploy_body_def GetBody_def)
  then show ?thesis
    using token_creation[of token_tx TokenARC1 mem_env]
    by (simp add: token_tx_def deploy_tx_def deploy_body_def sample_body_def GetBody_def token_defs)
qed

section \<open>Names and accounts\<close>

text \<open>C31: what is shown for an account is read back as the same bytes.\<close>

theorem account_roundtrip:
  assumes "base58check_codec L"
    and "IsAlias L b \<or> IsInternalName b \<or> 16 < length (EncodeAddress L (Some b))"
  shows "DecodeAccount L (EncodeAccount L (Some b)) = Ret (Some b)"
proof (cases "IsAlias L b \<or> IsInternalName b")
  case True
  then show ?thesis using DecodeAccount_name by (metis EncodeAccount_alias EncodeAccount_internal)
next
  case False
  then show ?thesis using assms DecodeAccount_EncodeAddress by (simp add: EncodeAccount_address)
qed

theorem account_roundtrip_witness:
  "DecodeAccount mem_env (EncodeAccount mem_env (Some ''0123456789'')) = Ret (Some ''0123456789'')"
  by (rule account_roundtrip)
    (simp_all add: base58check_codec_def mem_env_def EncodeAddress_def version_hex_def hex_EncodeToString_def)

text \<open>Reading a name transaction panics exactly when its payload parses but has too few arguments: two are
  needed to update a name, one for anything else.\<close>

lemma name_panics:
  assumes "Tx_Body tx = Some b"
  shows "(\<exists>p. ConvName L tx n = Panic p) \<longleftrightarrow>
    (\<exists>pl. UnmarshalPayloadWithArgs tx = Inr pl \<and>
      length (Payload_Args pl) < (if Payload_Name pl = ''v1updateName'' then 2 else 1))"
  using assms by (rule ConvName_panic_iff)

section \<open>Ids\<close>

text \<open>C33: two events have the same document id only if they are at the same place of the chain.\<close>

theorem event_id_injective:
  "Doc_Id (ConvEvent L e b t i) = Doc_Id (ConvEvent L' e' b' t' i') \<longleftrightarrow>
    EsBlock_BlockNo b = EsBlock_BlockNo b' \<and> EsTx_TxIdx t = EsTx_TxIdx t' \<and> Event_EventIdx e = Event_EventIdx e'"
  by (rule ConvEvent_id)

section \<open>Amounts\<close>

text \<open>C29: the float by which an amount in aer is sorted is the amount in aergo up to a relative error of \<open>2^-23\<close>.\<close>

theorem amount_float_error:
  assumes "0 < a" and "bigIntToFloat a 18 = Fin32 s m e"
  shows "\<bar>real m * 2 powi e - real a / 10 ^ 18\<bar> \<le> 2 powi (- 23) * (real a / 10 ^ 18)"
  using assms by (rule bigIntToFloat_error)

theorem amount_float_error_witness:
  "\<bar>real (2 ^ 23) * 2 powi (- 23) - real (10 ^ 18) / 10 ^ 18\<bar> \<le> 2 powi (- 23) * (real (10 ^ 18) / 10 ^ 18)"
proof -
  have "bigIntToFloat 1000000000000000000 18 = Fin32 False (2 ^ 23) (- 23)"
    by (simp add: bigIntToFloat_def round_bits_def log2_ratio_def scale_num_def scale_den_def round_half_even_def
        f32_of_ratio_def)
  then show ?thesis using amount_float_error[of "10 ^ 18" False "2 ^ 23" "- 23"] by simp
qed

section \<open>Token events\<close>

text \<open>C27: a transfer is read exactly from a JSON array that, after one leading null, has two strings and an
  amount or id; an account that contains the null address is a mint or a burn.\<close>

theorem transfer_event: "UnmarshalEventTransfer (Some e) = Inr (c, f, t, a) \<longleftrightarrow>
    Event_EventName e = EventTransfer \<and> c = Event_ContractAddress e \<and>
    (\<exists>args0 f0 t0 v rest. Unmarshal_slice (Event_JsonArgs e) = Inr args0 \<and>
       skip_null args0 = GString f0 # GString t0 # v # rest \<and> ParseAmountOrId v = Inr a \<and>
       f = (if Contains f0 null_account then ''MINT'' else f0) \<and>
       t = (if Contains t0 null_account then ''BURN'' else t0))"
  by (rule UnmarshalEventTransfer_iff)

lemma slice_member:
  assumes "Unmarshal_slice s = Inr args" and "v \<in> set args"
  obtains j where "v = to_gval j"
proof -
  from assms obtain j where j: "Unmarshal_any s = Inr (to_gval j)"
    by (auto simp: Unmarshal_slice_def Unmarshal_any_def split: sum.splits option.splits if_splits)
  with assms show thesis using that by (cases j) (auto simp: Unmarshal_slice_def)
qed

text \<open>An amount that the JSON text gives as a number is refused in every token event: only strings and
  bignum objects are amounts.\<close>

lemma amount_of_event:
  assumes "UnmarshalEventMint (Some e) = Inr (c, f, t, a) \<or> UnmarshalEventBurn (Some e) = Inr (c, f, t, a) \<or>
    UnmarshalEventTransfer (Some e) = Inr (c, f, t, a)"
  shows "\<exists>args0 v. Unmarshal_slice (Event_JsonArgs e) = Inr args0 \<and> v \<in> set args0 \<and>
    (v = GString a \<or> (\<exists>ms n. v = GMap ms \<and> ConvertBignumJson ms = Some n \<and> a = big_String n))"
proof -
  have sub: "set (skip_null xs) \<subseteq> set xs" for xs by (auto simp: skip_null_def split: list.splits gval.splits)
  from assms obtain args0 v where u: "Unmarshal_slice (Event_JsonArgs e) = Inr args0" "v \<in> set (skip_null args0)"
    "ParseAmountOrId v = Inr a"
    by (auto simp: UnmarshalEventMint_iff UnmarshalEventBurn_iff UnmarshalEventTransfer_iff) force+
  then have v: "v \<in> set args0" using sub by blast
  then obtain j where "v = to_gval j" using slice_member[OF u(1)] by blast
  then show ?thesis using u v ParseAmountOrId_json[of j a] by (cases j) (auto simp: map_prod_def)
qed

text \<open>A mint and a burn are read exactly from an account and an amount; what they hold on the other side
  is fixed.\<close>

theorem mint_burn_event:
  "(UnmarshalEventMint (Some e) = Inr (c, f, t, a) \<longleftrightarrow>
    Event_EventName e = EventMint \<and> c = Event_ContractAddress e \<and> f = ''MINT'' \<and>
    (\<exists>args0 v rest. Unmarshal_slice (Event_JsonArgs e) = Inr args0 \<and>
       skip_null args0 = GString t # v # rest \<and> ParseAmountOrId v = Inr a)) \<and>
   (UnmarshalEventBurn (Some e) = Inr (c, f, t, a) \<longleftrightarrow>
    Event_EventName e = EventBurn \<and> c = Event_ContractAddress e \<and> t = ''BURN'' \<and>
    (\<exists>args0 v rest. Unmarshal_slice (Event_JsonArgs e) = Inr args0 \<and>
       skip_null args0 = GString f # v # rest \<and> ParseAmountOrId v = Inr a))"
  by (rule conjI[OF UnmarshalEventMint_iff UnmarshalEventBurn_iff])

section \<open>Documents\<close>


text \<open>What an insert that succeeds has written, a successful read by id returns.\<close>

theorem insert_then_select:
  assumes "es_store E view" and "Insert E (DToken k) i w = (None, w1)"
    and "SelectOne E (id_params i (GetID k)) EsToken_decode w1 = (Inr r, w2)"
  shows "r = Some k"
proof -
  have "document_store view (es_Index E) (es_Update E) (\<lambda>i d. es_Search E i (MatchQuery ''_id'' d) None 1)"
    using assms(1) by (simp add: es_store_def)
  then have "view w1 i (GetID k) = Some (EsToken_source k)"
    using assms(2) by (auto simp: Insert_def intro: document_store.insert_ok)
  then show ?thesis
    using SelectOne_store(2)[OF assms(1,3) refl] by (auto simp: EsToken.decode_source Doc_Id_lens(2,3))
qed

definition sample_token :: EsToken where
  "sample_token = cccv_token ''token'' ''tx1'' 3"

theorem insert_then_select_witness:
  "\<exists>w1 w2 r. Insert mem_env (DToken sample_token) ''p_token'' empty_mem = (None, w1) \<and>
    SelectOne mem_env (id_params ''p_token'' (GetID sample_token)) EsToken_decode w1 = (Inr r, w2) \<and> r = Some sample_token"
proof -
  let ?i = "Insert mem_env (DToken sample_token) ''p_token'' empty_mem"
  have i: "?i = (None, snd ?i)" by (simp add: Insert_def mem_env_def mem_insert_def)
  have "mem_view (snd ?i) ''p_token'' (GetID sample_token) = Some (EsToken_source sample_token)"
    by (simp add: Insert_def mem_env_def mem_insert_def mem_view_put)
  then obtain r where s: "SelectOne mem_env (id_params ''p_token'' (GetID sample_token)) EsToken_decode (snd ?i) = (Inr r, snd ?i)"
    by (simp add: SelectOne_def id_params_def zeroQueryParams_def match_query_def mem_env_def mem_search_def
        mem_hits_id EsToken.decode_source)
  show ?thesis using i s insert_then_select[OF mem_store i s] by blast
qed


text \<open>The mappings of a cluster and of a single node have the same fields.\<close>

theorem mapping_modes: "map_option properties (EsMappings True d) = map_option properties (EsMappings False d)"
  by (rule modes_agree)

lemma fits_merge:
  assumes "fits fs src" and "\<And>k t v. (k, t) \<in> set fs \<Longrightarrow> map_of new k = Some v \<Longrightarrow> sval_fits t v"
  shows "fits fs (merge_source (Some src) new)"
  using assms by (fastforce simp: fits_def list_all_iff map_of_merge_source split: option.splits)

lemma get_merge:
  "map_of new k = None \<Longrightarrow> get_str (merge_source (Some src) new) k = get_str src k"
  "map_of new k = None \<Longrightarrow> get_uint (merge_source (Some src) new) k = get_uint src k"
  "map_of new k = Some (SStr x) \<Longrightarrow> get_str (merge_source (Some src) new) k = x"
  "map_of new k = Some (SFloat f) \<Longrightarrow> get_float (merge_source (Some src) new) k = f"
  by (simp_all add: get_defs map_of_merge_source)

text \<open>The update of a supply leaves a token that can be read, with the supply changed and its name, block number
  and verification kept.\<close>

lemma supply_update:
  assumes "EsToken_decode src = Some k"
  shows "\<exists>k'. EsToken_decode (merge_source (Some src) (EsTokenUpSupply_source u)) = Some k' \<and>
    EsToken_Supply k' = EsTokenUpSupply_Supply u \<and> EsToken_SupplyFloat k' = EsTokenUpSupply_SupplyFloat u \<and>
    EsToken_Name k' = EsToken_Name k \<and> EsToken_BlockNo k' = EsToken_BlockNo k \<and>
    EsToken_VerifiedStatus k' = EsToken_VerifiedStatus k"
proof -
  let ?n = "EsTokenUpSupply_source u"
  have f: "fits EsToken_fields src" using assms by (auto simp: EsToken_decode_def split: if_splits)
  have "fits EsToken_fields (merge_source (Some src) ?n)"
  proof (rule fits_merge[OF f])
    fix key t v assume "(key, t) \<in> set EsToken_fields" and "map_of ?n key = Some v"
    then show "sval_fits t v" by (auto simp: EsToken_fields_def EsTokenUpSupply_source_def split: if_splits)
  qed
  then obtain k' where k': "EsToken_decode (merge_source (Some src) ?n) = Some k'" by (simp add: EsToken_decode_def)
  have "EsToken_Supply x = get_str s ''supply'' \<and> EsToken_SupplyFloat x = get_float s ''supply_float'' \<and>
      EsToken_Name x = get_str s ''name'' \<and> EsToken_BlockNo x = get_uint s ''blockno'' \<and>
      EsToken_VerifiedStatus x = get_str s ''verified_status''"
    if "EsToken_decode s = Some x" for s x using that by (auto simp: EsToken_decode_def split: if_splits)
  note this[OF k'] this[OF assms]
  then show ?thesis using k' by (simp add: get_merge EsTokenUpSupply_source_def)
qed

section \<open>Queries to the node\<close>

text \<open>The request of a contract query is read by the node as the function and the arguments given.\<close>

lemma query_request:
  assumes "ascii name" and "list_all ascii args"
  shows "json_parse (queryinfo_json name args) = Some (JObj
    ((if args = [] then [] else [(''Args'', JArr (map JStr args))]) @ [(''Name'', JStr name)]))"
  using assms by (rule queryinfo_parse)

text \<open>C28: the balance of an account is the sum of what is unstaked and staked, in decimal, as long as it is below
  \<open>2^127\<close>; the address stays tracked exactly when at least 10000 aer are staked.\<close>

theorem balance_sum:
  assumes "rpc_GetState E a w = (Inr u, w1)" and "rpc_GetStaking E a w1 = (Inr s, w2)"
    and "big_SetBytes (bytes_of u) + big_SetBytes (bytes_of s) < 2 ^ 127"
  shows "\<exists>f g. BalanceOf E a w = ((show_int (int (big_SetBytes (bytes_of u) + big_SetBytes (bytes_of s))), f,
      show_int (int (big_SetBytes (bytes_of s))), g), w2) \<and>
    f32_gt0 f = (0 < big_SetBytes (bytes_of u) + big_SetBytes (bytes_of s)) \<and>
    f32_ge g 10000 = (10000 \<le> big_SetBytes (bytes_of s))"
  using assms by (rule BalanceOf_sum)

theorem balance_sum_witness:
  "\<exists>f g. BalanceOf mem_env (Some ''alice'') (empty_mem\<lparr>m_accounts := [(''alice'', [CHR 0x02], [CHR 0x03])]\<rparr>) =
    ((''5'', f, ''3'', g), empty_mem\<lparr>m_accounts := [(''alice'', [CHR 0x02], [CHR 0x03])]\<rparr>)"
proof -
  let ?w = "empty_mem\<lparr>m_accounts := [(''alice'', [CHR 0x02], [CHR 0x03])]\<rparr>"
  have b: "big_SetBytes [CHR 0x02] = 2" "big_SetBytes [CHR 0x03] = 3" by (simp_all add: big_SetBytes_def)
  have d: "show_int 5 = ''5''" "show_int 3 = ''3''" by (simp_all add: show_int_numeral show_nat_rec digit_chars)
  have s: "rpc_GetState mem_env (Some ''alice'') ?w = (Inr (Some [CHR 0x02]), ?w)"
    and t: "rpc_GetStaking mem_env (Some ''alice'') ?w = (Inr (Some [CHR 0x03]), ?w)" by (simp_all add: mem_env_def)
  obtain f g where "BalanceOf mem_env (Some ''alice'') ?w = ((show_int (int (2 + 3)), f, show_int (int 3), g), ?w)"
    using balance_sum[OF s t] unfolding bytes_of_simps b by auto
  then show ?thesis using d by simp
qed

text \<open>An amount from \<open>2^128\<close> on does not fit the float: it is stored as the text 0.\<close>

lemma amount_overflow:
  assumes "2 ^ 128 \<le> n"
  shows "with_float (show_int (int n)) = (''0'', zero32)"
  using assms by (rule with_float_overflow)

end
