(* ===== verification/Run_Properties.thy ===== *)
theory Run_Properties
  imports Memory
begin

text \<open>
  The properties of the running indexer: the check of the index, mining, the caches and stored documents,
  following the chain, the bulk channels, and starting.
\<close>

section \<open>Checking the index\<close>

lemma run_acts: "x = Some (r, s\<lparr>acts := acts s @ l, world := w\<rparr>) \<Longrightarrow> P l \<Longrightarrow>
    \<exists>s' l. x = Some (r, s') \<and> acts s' = acts s @ l \<and> P l"
  by auto

lemma sample_delivers:
  assumes "hs = [4, 2] \<or> hs = [4, 1]"
  obtains sc where "delivers (Next mem_env EsBlock_decode) (clock_Sleep mem_env Second)
      (Scroll (check_params (index_name (sample_indexer (indexed_world hs)) ''block'') 1 5))
      (dials mem_env (serverAddr (sample_indexer (indexed_world hs))) (grpcNum (sample_indexer (indexed_world hs)))
        (world (sample_indexer (indexed_world hs))))
      (map (\<lambda>h. block_doc (show_nat (unat h)) h) hs) sc (indexed_world hs)"
  using check_delivers[OF assms refl] that by auto



text \<open>C26: when the lower bound is indexed, the heights between it and the next indexed block above it are never
  handed out: that gap stays.\<close>

theorem check_leaves_lowest_gap:
  assumes "accepting E" and "0 < minerNum s" and "startFrom \<le> stopAt" and "stopAt \<noteq> - 1"
    and "delivers (Next E EsBlock_decode) (clock_Sleep E Second)
      (Scroll (check_params (index_name s ''block'') startFrom stopAt))
      (dials E (serverAddr s) (grpcNum s) (world s)) ds scroll' w'"
    and "map EsBlock_BlockNo ds = cs @ [startFrom]" and "sorted_wrt (\<ge>) cs"
    and "\<forall>b \<in> set cs. startFrom < b \<and> b \<le> stopAt"
  shows "\<exists>s' l. checkIndex E startFrom stopAt s = Some (Ret (), s') \<and> acts s' = acts s @ l \<and>
    bulk_heights l = rev (filter (\<lambda>h. h \<notin> unat ` set cs) [unat (last ((stopAt + 1) # cs))..<Suc (unat stopAt)])"
proof -
  note M = ranges_gap[OF assms(7,8,3,4), of "[]"]
  obtain w1 where c: "checkIndex E startFrom stopAt s = Some (Ret (), s\<lparr>acts := acts s @ opening_acts s
      @ handed_ranges (minerNum s) (ranges startFrom stopAt (cs @ [startFrom])) @ closing (minerNum s), world := w1\<rparr>)"
    using checkIndex_run[OF assms(1,2,5)] assms(6) by auto
  show ?thesis
    by (rule run_acts[OF c]) (simp add: handed_ranges_heights[OF M(2)] M(1) del: upt_Suc last.simps)
qed

theorem check_leaves_lowest_gap_witness:
  "\<exists>s' l. checkIndex mem_env 1 5 (sample_indexer (indexed_world [4, 1])) = Some (Ret (), s') \<and>
    acts s' = acts (sample_indexer (indexed_world [4, 1])) @ l \<and> bulk_heights l = [5]"
proof -
  let ?s = "sample_indexer (indexed_world [4, 1])"
  obtain sc where d: "delivers (Next mem_env EsBlock_decode) (clock_Sleep mem_env Second)
      (Scroll (check_params (index_name ?s ''block'') 1 5)) (dials mem_env (serverAddr ?s) (grpcNum ?s) (world ?s))
      (map (\<lambda>h. block_doc (show_nat (unat h)) h) [4, 1]) sc (indexed_world [4, 1])"
    using sample_delivers[of "[4, 1]"] by blast
  have l: "[4..<6] = [4, 5 :: nat]" by (simp add: upt_rec)
  show ?thesis
    using check_leaves_lowest_gap[OF accepting_mem _ _ _ d, where cs = "[4]"] by (simp add: block_doc_def l del: upt_Suc)
qed

text \<open>A range is handed out downwards, each height once and to the miner of its number, but the lowest to the
  first miner.\<close>

lemma range_handed_out:
  assumes "0 < minerNum s" and "lo \<le> hi"
  shows "\<exists>l. InsertBlocksInRange lo hi s = Some (Ret (), s\<lparr>acts := acts s @ l\<rparr>) \<and>
    bulk_heights l = rev [unat lo..<Suc (unat hi)] \<and>
    (\<forall>a \<in> set l. \<exists>h. lo \<le> h \<and> h \<le> hi \<and>
      (a = SendR (unat h mod minerNum s) (bulk_block h) \<or> a = SendR 0 (bulk_block h) \<and> h = lo))"
  using InsertBlocksInRange_run[OF assms(1)] handed_range[OF assms(2)] handed_routes[OF _ assms(2)]
  by (intro exI[of _ "handed (minerNum s) lo hi"]) (metis (no_types, lifting))

section \<open>Mining\<close>

text \<open>C5: mining a transaction in bulk mode, whatever it meets on its way, a panic included, sends exactly one
  transaction document, and as the last thing it does.\<close>

theorem transaction_document:
  assumes "Tx_Body tx = Some body" and "BlockInfo_Type info = BlockType_Bulk"
  shows "\<exists>r s' d l. MinerTx E i info b tx s = Some (r, s') \<and>
    ConvTx E i tx (receipt_of E tx (world s)) b = Ret d \<and>
    acts s' = acts s @ l @ [SendB ChTx (added (DTx d))] \<and> sends ChTx l = [] \<and> sends ChBlock l = []"
  using MinerTx_bulk[OF assms, of E i b s] by metis

theorem transaction_document_witness:
  "\<exists>r s' d l. MinerTx mem_env 0 (bulk_block 3) (block_doc ''b3'' 3) deploy_tx (sample_indexer empty_mem) = Some (r, s') \<and>
    ConvTx mem_env 0 deploy_tx (receipt_of mem_env deploy_tx empty_mem) (block_doc ''b3'' 3) = Ret d \<and>
    acts s' = l @ [SendB ChTx (added (DTx d))] \<and> sends ChTx l = [] \<and> sends ChBlock l = []"
  using transaction_document[of deploy_tx deploy_body "bulk_block 3" mem_env 0 "block_doc ''b3'' 3" "sample_indexer empty_mem"]
  by (simp add: deploy_tx_def bulk_block_def)

text \<open>A deployment whose receipt the node does not give panics.\<close>

lemma missing_receipt_panics:
  assumes "Tx_Body tx = Some body" and "DetectTxCategory E tx = Ret (TxDeploy, n)" and "receipt_of E tx (world s) = None"
  shows "\<exists>s'. MinerTx E i info b tx s = Some (Panic NilDeref, s')"
  using assms by (rule MinerTx_no_receipt)

text \<open>Mining a transaction always returns, with a value or a panic.\<close>

lemma transaction_returns: "\<exists>r s'. MinerTx E i info b tx s = Some (r, s')"
  using endsD[OF ends_MinerTx] .

text \<open>C6: a block mined in bulk mode is the one of the height asked for from the node; it sends one document for each
  of its transactions, in order and numbered from 0, and its own document as the very last.\<close>

theorem block_documents:
  assumes "BlockInfo_Type info = BlockType_Bulk" and "mine_block E info s = Some (Ret (), s')"
  shows "\<exists>block s1 Body p blockDoc ds l.
    get_block_retry E (PutUint64 (BlockInfo_Height info)) s = Some (Ret block, s1) \<and>
    Block_Body block = Some Body \<and> ConvBlock E block p = Ret blockDoc \<and>
    acts s' = acts s @ l @ [SendB ChBlock (added (DBlock blockDoc))] \<and>
    sends ChTx l = map DTx ds \<and> sends ChBlock l = [] \<and>
    map Doc_Id ds = map (base58 E \<circ> Tx_Hash) (BlockBody_Txs Body) \<and>
    map EsTx_TxIdx ds = map of_nat [0..<length (BlockBody_Txs Body)] \<and>
    (\<forall>d \<in> set ds. EsTx_BlockNo d = EsBlock_BlockNo blockDoc)"
proof -
  obtain block s1 Body k p blockDoc s2 where b: "get_block_retry E (PutUint64 (BlockInfo_Height info)) s = Some (Ret block, s1)"
    and "getPeerId E k s1 = Some (Ret p, s2)" and b': "Block_Body block = Some Body" "ConvBlock E block p = Ret blockDoc"
    and i: "index_block E info blockDoc (BlockBody_Txs Body) s2 = Some (Ret (), s')" and a: "acts s2 = acts s"
    by (rule mine_block_steps[OF assms(2)])
  from i obtain s3 where "each_from 0 (\<lambda>i tx. MinerTx E (of_nat i) info blockDoc tx) (BlockBody_Txs Body) s2 = Some (Ret (), s3)"
    by (auto simp: index_block_def elim: sq_RetE)
  note index_block_bulk[OF mine_txs_bodies[OF this] assms(1) i]
  then show ?thesis using b b' a by auto
qed

lemma sample_mined:
  "\<exists>s'. mine_block mem_env (bulk_block 0) (sample_indexer (empty_mem\<lparr>m_chain := [sample_block 0 [sample_tx]]\<rparr>)) = Some (Ret (), s')"
proof -
  let ?w = "empty_mem\<lparr>m_chain := [sample_block 0 [sample_tx]]\<rparr>"
  let ?s = "sample_indexer ?w"
  have "GetBlock mem_env (PutUint64 0) ?w = (Inr (sample_block 0 [sample_tx]), ?w)"
    by (simp add: GetBlock_def mem_env_def mem_block_def read_PutUint64 empty_mem_def)
  then have g: "get_block_retry mem_env (PutUint64 0) ?s = Some (Ret (sample_block 0 [sample_tx]), ?s)"
    by (subst get_block_retry.simps) simp
  have b: "Tx_Body sample_tx = Some sample_body" by (simp add: sample_tx_def)
  have c: "EsTx_Category d = TxTransfer" if "ConvTx mem_env i sample_tx r bd = Ret d" for i r bd d
  proof -
    have "\<exists>n. DetectTxCategory mem_env sample_tx = Ret (TxTransfer, n)"
      by (simp add: DetectTxCategory_body[OF b] plain_transfer[OF b] sample_body_def TxType_defs)
    then show ?thesis using ConvTx_Ret[OF b, of mem_env i r bd] that by (metis outcome.inject(1) prod.inject)
  qed
  have t: "\<exists>s2. MinerTx mem_env i (bulk_block 0) bd sample_tx s1 = Some (Ret (), s2)" for i bd and s1 :: "mem Indexer"
  proof -
    obtain d where d: "ConvTx mem_env i sample_tx (receipt_of mem_env sample_tx (world s1)) bd = Ret d"
      using ConvTx_Ret[OF b] by metis
    show ?thesis
      using c[OF d] unfolding MinerTx_unfold[OF d]
      by (simp add: deferred_def tx_body_def tx_contracts_def category_defs GetBody_def GetType_def b sample_body_def TxType_defs
          storeBalance_def addTx_def bulk_block_def)
  qed
  obtain bd s3 where bd: "ConvBlock mem_env (sample_block 0 [sample_tx]) ''key'' = Ret bd"
    by (simp add: ConvBlock_def sample_block_def)
  have p: "getPeerId mem_env (Some ''key'') ?s = Some (Ret ''key'', ?s\<lparr>peerId := [(''key'', ''key'')]\<rparr>)"
    by (simp add: getPeerId_def sample_indexer_def default_indexer_def MakePeerId_def mem_env_def Let_def)
  obtain s4 where "MinerTx mem_env 0 (bulk_block 0) bd sample_tx (?s\<lparr>peerId := [(''key'', ''key'')]\<rparr>) = Some (Ret (), s4)"
    using t by blast
  note m = sq_Ret[where m = "MinerTx mem_env 0 (bulk_block 0) bd sample_tx", OF this]
  have "index_block mem_env (bulk_block 0) bd [sample_tx] (?s\<lparr>peerId := [(''key'', ''key'')]\<rparr>) =
      Some (Ret (), s4\<lparr>acts := acts s4 @ [SendB ChBlock (added (DBlock bd))]\<rparr>)"
    by (simp add: index_block_def sq_assoc m) (simp add: bulk_block_def addBlock_def send_add_def)
  moreover have h: "BlockInfo_Height (bulk_block 0) = 0" "Block_Header (sample_block 0 [sample_tx]) = Some (sample_header 0)"
    "BlockHeader_PubKey (sample_header 0) = Some ''key''" "Block_Body (sample_block 0 [sample_tx]) = Some \<lparr>BlockBody_Txs = [sample_tx]\<rparr>"
    by (simp_all add: bulk_block_def sample_block_def sample_header_def)
  have "mine_block mem_env (bulk_block 0) ?s = index_block mem_env (bulk_block 0) bd [sample_tx] (?s\<lparr>peerId := [(''key'', ''key'')]\<rparr>)"
    by (simp add: mine_block_def h bnd_Ret[where m = "get_block_retry mem_env (PutUint64 0)", OF g]
        bnd_Ret[where m = "getPeerId mem_env (Some ''key'')", OF p] bd)
  ultimately show ?thesis by simp
qed

theorem block_documents_witness:
  "\<exists>s' block s1 Body p blockDoc ds l.
    mine_block mem_env (bulk_block 0) (sample_indexer (empty_mem\<lparr>m_chain := [sample_block 0 [sample_tx]]\<rparr>)) = Some (Ret (), s') \<and>
    get_block_retry mem_env (PutUint64 0) (sample_indexer (empty_mem\<lparr>m_chain := [sample_block 0 [sample_tx]]\<rparr>)) = Some (Ret block, s1) \<and>
    Block_Body block = Some Body \<and> ConvBlock mem_env block p = Ret blockDoc \<and>
    acts s' = l @ [SendB ChBlock (added (DBlock blockDoc))] \<and> sends ChTx l = map DTx ds"
proof -
  let ?s = "sample_indexer (empty_mem\<lparr>m_chain := [sample_block 0 [sample_tx]]\<rparr>)"
  obtain s' where r: "mine_block mem_env (bulk_block 0) ?s = Some (Ret (), s')" using sample_mined by blast
  have "BlockInfo_Type (bulk_block 0) = BlockType_Bulk" "BlockInfo_Height (bulk_block 0) = 0" by (simp_all add: bulk_block_def)
  with r block_documents[OF this(1) r] show ?thesis by simp blast
qed



text \<open>The block number of a stored NFT never goes back, whichever block writes it, and no other NFT is touched.\<close>

lemma nft_newest:
  assumes "es_store E view" and "addNFT E n s = Some (r, s')"
    and "view (world s) (index_name s ''nft'') d = Some src"
  shows "\<exists>src'. view (world s') (index_name s ''nft'') d = Some src' \<and> stored_blockno src \<le> stored_blockno src'"
  using addNFT_blockno[OF assms refl] .

text \<open>C22: the block number of a stored balance never goes back, whichever block writes a balance, as long as the stored
  balance of its address can be read.\<close>

theorem balance_newest:
  assumes "es_store E view" and "addAccountBalance E b s = Some (r, s')"
    and "view (world s) (index_name s ''account_balance'') d = Some src"
    and "\<exists>x. fst (SelectOne E (id_params (index_name s ''account_balance'') (Doc_Id b)) EsAccountBalance_decode (world s)) = Inr x"
  shows "\<exists>src'. view (world s') (index_name s ''account_balance'') d = Some src' \<and> stored_blockno src \<le> stored_blockno src'"
  using addAccountBalance_blockno[OF assms(1-3) refl assms(4)] .

definition sample_balance :: "uint64 \<Rightarrow> EsAccountBalance" where
  "sample_balance n = ConvAccountBalance n ''alice'' 1 ''5'' one32 ''3'' one32"

lemma addAccountBalance_returns: "\<exists>w. addAccountBalance E b s = Some (Ret (), s\<lparr>world := w\<rparr>)"
  by (auto simp: addAccountBalance_def getAccountBalance_def bnd_assoc Let_def whn_def split: sum.splits option.splits)

theorem balance_newest_witness:
  "\<exists>s' src'. addAccountBalance mem_env (sample_balance 3)
      (sample_indexer (mem_put ''p_account_balance'' ''alice'' (EsAccountBalance_source (sample_balance 7)) empty_mem)) = Some (Ret (), s') \<and>
    mem_view (world s') ''p_account_balance'' ''alice'' = Some src' \<and> 7 \<le> stored_blockno src'"
proof -
  let ?s = "sample_indexer (mem_put ''p_account_balance'' ''alice'' (EsAccountBalance_source (sample_balance 7)) empty_mem)"
  obtain w where r: "addAccountBalance mem_env (sample_balance 3) ?s = Some (Ret (), ?s\<lparr>world := w\<rparr>)"
    using addAccountBalance_returns[of mem_env "sample_balance 3" ?s] by (elim exE)
  have v: "mem_view (world ?s) (index_name ?s ''account_balance'') ''alice'' = Some (EsAccountBalance_source (sample_balance 7))"
    by (simp add: mem_view_put)
  have x: "\<exists>x. fst (SelectOne mem_env (id_params (index_name ?s ''account_balance'') (Doc_Id (sample_balance 3)))
      EsAccountBalance_decode (world ?s)) = Inr x"
    by (simp add: SelectOne_def id_params_def zeroQueryParams_def match_query_def mem_env_def mem_search_def
        mem_hits_id mem_view_put sample_balance_def ConvAccountBalance_def EsAccountBalance_roundtrip)
  have "stored_blockno (EsAccountBalance_source (sample_balance 7)) = 7"
    by (simp add: stored_blockno_def get_uint_def EsAccountBalance_source_def sample_balance_def ConvAccountBalance_def)
  then show ?thesis using r balance_newest[OF mem_store r v x] by auto
qed

section \<open>Bulk indexing\<close>

text \<open>C7: what the indexer of a channel receives up to a commit goes to its index completely, in order and without
  repetition, in bulks that are not empty and not larger than the bulk size.\<close>

theorem bulk_conserves:
  assumes "takes_bulks E taken" and "0 < sint bsize"
  shows "\<exists>st s' full. BulkIndexer E i bsize isBlock (map added ds @ [control ChanType_Commit]) s = Some (Ret st, s') \<and>
    taken (world s') = taken (world s) @ map (Pair i) full \<and> concat full = map create_request ds \<and>
    (\<forall>c \<in> set full. c \<noteq> [] \<and> int (length c) \<le> sint bsize) \<and> bulk_requests (bi_bulk st) = []"
  using assms by (rule BulkIndexer_conserves)

theorem bulk_conserves_witness:
  "\<exists>st s' full. BulkIndexer mem_env ''p_block'' 2 False (map added [DBlock (block_doc ''a'' 1), DBlock (block_doc ''b'' 2),
      DBlock (block_doc ''c'' 3)] @ [control ChanType_Commit]) (sample_indexer empty_mem) = Some (Ret st, s') \<and>
    concat full = map create_request [DBlock (block_doc ''a'' 1), DBlock (block_doc ''b'' 2), DBlock (block_doc ''c'' 3)]"
  using bulk_conserves[OF mem_takes_bulks, of 2] by (simp del: map_append list.map) blast

text \<open>An indexer that is not the one of blocks answers a commit request of the block indexer with exactly one
  signal, before anything else, whether it has documents or not and whether its commit succeeds or not.\<close>

lemma commit_answers_once:
  "\<exists>st' s' l. commitBulk E False True st s = Some (Ret st', s') \<and> acts s' = acts s @ SendSynDone # l \<and> syn_dones l = 0"
proof -
  obtain st' s' l l' where "commitBulk E False True st s = Some (Ret st', s')" "acts s' = acts s @ l"
    "l = SendSynDone # l'" "syn_dones l' = 0"
    using commitBulk_other[of E st s] by blast
  then show ?thesis by blast
qed

section \<open>Following the chain\<close>


definition ticking_env :: "mem env" where
  "ticking_env = mem_env\<lparr>clock_Now := \<lambda>w. (5, w)\<rparr>"


text \<open>C36: a block more than a thousand below closes the stream, and the loop that reads the stream then panics.\<close>

theorem big_rewind_panics:
  assumes "stream s = Some q" and "stream_Recv E q (world s) = (Inr b, w)"
    and "Block_Header b = Some h" and "BlockHeader_BlockNo h < lastHeight s"
    and "lastHeight s - (BlockHeader_BlockNo h + 1) > 1000"
  shows "\<exists>s'. recv_loop E s = Some (Panic NilInterfaceCall, s') \<and> lastHeight s' = BlockHeader_BlockNo h"
  using assms by (rule recv_loop_big_rewind)

theorem big_rewind_panics_witness:
  "\<exists>s'. recv_loop mem_env ((sample_indexer (empty_mem\<lparr>m_stream := [sample_block 3 []]\<rparr>))\<lparr>lastHeight := 5000, stream := Some 0\<rparr>)
    = Some (Panic NilInterfaceCall, s') \<and> lastHeight s' = 3"
proof -
  let ?s = "(sample_indexer (empty_mem\<lparr>m_stream := [sample_block 3 []]\<rparr>))\<lparr>lastHeight := 5000, stream := Some 0\<rparr>"
  have "stream_Recv mem_env 0 (world ?s) = (Inr (sample_block 3 []), empty_mem)" by (simp add: mem_env_def empty_mem_def)
  from big_rewind_panics[OF _ this, of "sample_header 3"] show ?thesis by (simp add: sample_block_def sample_header_def)
qed

section \<open>More on mining\<close>

text \<open>The world after the node was asked for a block some number of times, with a pause after each failure.\<close>

primrec asked :: "'e env \<Rightarrow> string \<Rightarrow> nat \<Rightarrow> 'e \<Rightarrow> 'e" where
  "asked E q 0 w = w"
| "asked E q (Suc n) w = asked E q n (clock_Sleep E (100 * 10 ^ 6) (snd (GetBlock E q w)))"

text \<open>C35: the miner gets its block as soon as the node gives it, however often it failed before.\<close>

theorem block_fetched:
  assumes "\<forall>k < n. \<exists>e. fst (GetBlock E q (asked E q k (world s))) = Inl e"
    and "fst (GetBlock E q (asked E q n (world s))) = Inr b"
  shows "\<exists>w. get_block_retry E q s = Some (Ret b, s\<lparr>world := w\<rparr>)"
  using assms
proof (induction n arbitrary: s)
  case 0
  then have "fst (GetBlock E q (world s)) = Inr b" by simp
  then have "get_block_retry E q s = Some (Ret b, s\<lparr>world := snd (GetBlock E q (world s))\<rparr>)"
    by (subst get_block_retry.simps) simp
  then show ?case by (rule exI)
next
  case (Suc n)
  let ?s = "s\<lparr>world := clock_Sleep E (100 * 10 ^ 6) (snd (GetBlock E q (world s)))\<rparr>"
  from Suc.prems(1) have "\<exists>e. fst (GetBlock E q (asked E q 0 (world s))) = Inl e" by blast
  then obtain e where "fst (GetBlock E q (world s)) = Inl e" by auto
  then have "get_block_retry E q s = get_block_retry E q ?s" by (subst get_block_retry.simps) (simp add: sq_Ret[OF Sleep_run])
  moreover have "\<exists>w. get_block_retry E q ?s = Some (Ret b, ?s\<lparr>world := w\<rparr>)"
  proof (rule Suc.IH)
    show "\<forall>k < n. \<exists>e. fst (GetBlock E q (asked E q k (world ?s))) = Inl e"
    proof (intro allI impI)
      fix k assume "k < n"
      then have "Suc k < Suc n" by simp
      with Suc.prems(1) have "\<exists>e. fst (GetBlock E q (asked E q (Suc k) (world s))) = Inl e" by blast
      then show "\<exists>e. fst (GetBlock E q (asked E q k (world ?s))) = Inl e" by simp
    qed
    show "fst (GetBlock E q (asked E q n (world ?s))) = Inr b" using Suc.prems(2) by simp
  qed
  ultimately show ?case by simp
qed

definition late_env :: "mem env" where
  "late_env = mem_env\<lparr>rpc_GetBlock := \<lambda>q w. (if m_time w < 1700000000100000000 then Inl (Err ''not yet'') else Inr (sample_block 7 []), w)\<rparr>"

theorem block_fetched_witness:
  "\<exists>w. get_block_retry late_env ''x'' (sample_indexer empty_mem) = Some (Ret (sample_block 7 []), (sample_indexer empty_mem)\<lparr>world := w\<rparr>)"
proof (rule block_fetched[where n = 1])
  show "\<forall>k < 1. \<exists>e. fst (GetBlock late_env ''x'' (asked late_env ''x'' k (world (sample_indexer empty_mem)))) = Inl e"
    by (simp add: GetBlock_def late_env_def empty_mem_def)
  show "fst (GetBlock late_env ''x'' (asked late_env ''x'' 1 (world (sample_indexer empty_mem)))) = Inr (sample_block 7 [])"
    by (simp add: GetBlock_def late_env_def mem_env_def empty_mem_def)
qed

text \<open>Mining a block of the stream sends nothing to the bulk channels and starts nothing: everything it adds
  is written to Elasticsearch at once.\<close>

lemma stream_block_silent:
  assumes "BlockInfo_Type info = BlockType_Sync" and "mine_block E info s = Some (r, s')"
  shows "acts s' = acts s"
  using preservesD[OF silent.inv_mine_block[OF assms(1)] assms(2) refl] .

lemma add_balance_of_bulk:
  "\<exists>s1 l. add_balance_of E BlockType_Bulk c ty tt account s = Some (Ret (), s1) \<and> acts s1 = acts s @ l \<and>
    sends ChTokenTransfer l = [] \<and>
    set (accToken s1) = insert (account @ ''-'' @ EsTokenTransfer_TokenAddress tt) (set (accToken s))"
  by (cases "fst (QueryBalanceOf E c account (isCccvNft s c) (world s))")
    (auto simp: add_balance_of_def ask_def bnd_assoc addAccountTokens_bulk ConvAccountTokens_def)

lemma add_nft_world: "\<exists>w. add_nft E c ty tt i s = Some (Ret (), s\<lparr>world := w\<rparr>)"
proof (cases "ty = TokenARC2")
  case True
  obtain u v where q: "fst (QueryNFTMetadata E c i (world s)) = (u, v)" by fastforce
  obtain w where "addNFT E (ConvNFT tt u v) (s\<lparr>world := snd (QueryNFTMetadata E c i (world s))\<rparr>) = Some (Ret (), s\<lparr>world := w\<rparr>)"
    using addNFT_returns[of E "ConvNFT tt u v" "s\<lparr>world := snd (QueryNFTMetadata E c i (world s))\<rparr>"] by auto
  with True q show ?thesis by (intro exI[of _ w]) (simp add: add_nft_def)
next
  case False
  then show ?thesis by (auto simp: add_nft_def intro: exI[of _ "world s"])
qed


definition sample_etx :: EsTx where
  "sample_etx = \<lparr>Doc_Id = ''tx1'', EsTx_BlockNo = 3, EsTx_BlockId = ''b3'', EsTx_Timestamp = 1, EsTx_TxIdx = 0,
     EsTx_Payload = [], EsTx_Account = ''alice'', EsTx_Recipient = ''token'', EsTx_Amount = ''0'',
     EsTx_AmountFloat = zero32, EsTx_Type = 5, EsTx_Category = TxCall, EsTx_Method = ''transfer'',
     EsTx_Status = [], EsTx_Result = [], EsTx_Contract = [], EsTx_Nonce = 1, EsTx_FeeDelegation = False,
     EsTx_GasPrice = [], EsTx_GasLimit = 0, EsTx_GasUsed = 0, EsTx_FeeUsed = []\<rparr>"


end
