(* ===== verification/Refinement.thy ===== *)
theory Refinement
  imports Memory "HOL-Library.Multiset"
begin

text \<open>
  The index of NFTs against an abstract specification: a map from ids to documents in which the document of the
  newest block wins. On a store that does not fail, \<open>addNFT\<close> refines the abstract update, so the
  order in which the miners write does not matter.
\<close>

section \<open>The specification\<close>

definition newest :: "EsNFT \<Rightarrow> (string \<rightharpoonup> EsNFT) \<Rightarrow> (string \<rightharpoonup> EsNFT)" where
  "newest n m = (case m (Doc_Id n) of
     Some x \<Rightarrow> if EsNFT_BlockNo x < EsNFT_BlockNo n then m(Doc_Id n \<mapsto> n) else m
   | None \<Rightarrow> m(Doc_Id n \<mapsto> n))"

lemma newest_other: "d \<noteq> Doc_Id n \<Longrightarrow> newest n m d = m d"
  by (auto simp: newest_def split: option.splits)

lemma newest_same: "newest n m (Doc_Id n) = (case m (Doc_Id n) of
    Some x \<Rightarrow> Some (if EsNFT_BlockNo x < EsNFT_BlockNo n then n else x) | None \<Rightarrow> Some n)"
  by (auto simp: newest_def split: option.splits)

lemma newest_commute:
  assumes "Doc_Id a = Doc_Id b \<Longrightarrow> EsNFT_BlockNo a = EsNFT_BlockNo b \<Longrightarrow> a = b"
  shows "newest a (newest b m) = newest b (newest a m)"
proof (cases "Doc_Id a = Doc_Id b")
  case False
  then show ?thesis by (auto simp: newest_def fun_upd_twist split: option.splits)
next
  case True
  note same = True newest_same[of a] newest_same[of b]
  show ?thesis
  proof
    fix d show "newest a (newest b m) d = newest b (newest a m) d"
    proof (cases "d = Doc_Id a")
      case False
      then show ?thesis using True by (simp add: newest_other)
    next
      case d: True
      have "EsNFT_BlockNo a = EsNFT_BlockNo b \<Longrightarrow> a = b" using assms True by blast
      then show ?thesis
        unfolding d using same(2,3)[unfolded True] True by (auto split: option.splits)
    qed
  qed
qed

section \<open>The stored index\<close>

text \<open>A store that answers every request, as long as it is asked.\<close>

definition reliable :: "'e env \<Rightarrow> bool" where
  "reliable E \<longleftrightarrow> (\<forall>i d src w. fst (es_Index E i d src w) = None \<and> fst (es_Update E i d src w) = None \<and>
     (\<exists>r. fst (es_Search E i (MatchQuery ''_id'' d) None 1 w) = Inr r))"

text \<open>The documents of an index that can be read, by their ids.\<close>

definition stored :: "(source \<Rightarrow> 'd BaseEsType_scheme option) \<Rightarrow> ('e \<Rightarrow> string \<Rightarrow> string \<Rightarrow> source option) \<Rightarrow> string \<Rightarrow> 'e
    \<Rightarrow> (string \<rightharpoonup> 'd BaseEsType_scheme)" where
  "stored decode view i w d = (case view w i d of None \<Rightarrow> None | Some src \<Rightarrow> map_option (SetID d) (decode src))"

definition readable :: "(source \<Rightarrow> 'd option) \<Rightarrow> ('e \<Rightarrow> string \<Rightarrow> string \<Rightarrow> source option) \<Rightarrow> string \<Rightarrow> 'e \<Rightarrow> bool" where
  "readable decode view i w \<longleftrightarrow> (\<forall>d src. view w i d = Some src \<longrightarrow> decode src \<noteq> None)"

abbreviation stored_nfts :: "('e \<Rightarrow> string \<Rightarrow> string \<Rightarrow> source option) \<Rightarrow> string \<Rightarrow> 'e \<Rightarrow> (string \<rightharpoonup> EsNFT)" where
  "stored_nfts \<equiv> stored EsNFT_decode"

abbreviation nfts_readable :: "('e \<Rightarrow> string \<Rightarrow> string \<Rightarrow> source option) \<Rightarrow> string \<Rightarrow> 'e \<Rightarrow> bool" where
  "nfts_readable \<equiv> readable EsNFT_decode"

lemma SelectOne_readable:
  assumes st: "es_store E view" and rel: "reliable E" and rd: "readable decode view i w"
  obtains w' where "SelectOne E (id_params i d) decode w = (Inr (stored decode view i w d), w')" "view w' = view w"
proof -
  obtain q w' where q: "SelectOne E (id_params i d) decode w = (q, w')" by fastforce
  note sel = SelectOne_store[OF st q]
  obtain n hits w1 where se: "es_Search E i (MatchQuery ''_id'' d) None 1 w = (Inr (n, hits), w1)"
    using rel unfolding reliable_def by (metis prod.collapse)
  from st have ds: "document_store view (es_Index E) (es_Update E) (\<lambda>i d. es_Search E i (MatchQuery ''_id'' d) None 1)"
    by (simp add: es_store_def)
  have ok: "case view w i d of None \<Rightarrow> n = 0 | Some src \<Rightarrow> n = 1 \<and> hits = [(d, src)]"
    using document_store.search_ok[OF ds] se by simp
  have "\<exists>x. q = Inr x"
  proof (cases "view w i d")
    case None
    with q se ok show ?thesis by (auto simp: SelectOne_def id_params_def zeroQueryParams_def match_query_def)
  next
    case (Some src)
    moreover from this rd obtain y where "decode src = Some y" unfolding readable_def by blast
    ultimately show ?thesis
      using q se ok by (auto simp: SelectOne_def id_params_def zeroQueryParams_def match_query_def)
  qed
  then obtain x where x: "q = Inr x" by blast
  have "x = stored decode view i w d" using sel(2)[OF x] by (auto simp: stored_def split: option.splits)
  then show thesis using that q x sel(1) by blast
qed

text \<open>Documents that are written as a whole: their source, alone or over an older one, is read as the document, and
  writing it sets it in the map.\<close>

locale whole_documents =
  fixes decode :: "source \<Rightarrow> 'd BaseEsType_scheme option"
    and document :: "'d BaseEsType_scheme \<Rightarrow> doc"
  assumes decode_merge: "decode (merge_source old (doc_source (document n))) = Some (SetID [] n)"
    and document_id: "doc_GetID (document n) = Doc_Id n"
begin

lemma stored_write:
  assumes "view w' i (Doc_Id n) = Some (merge_source old (doc_source (document n)))" and "\<And>d. d \<noteq> Doc_Id n \<Longrightarrow> view w' i d = view w i d"
  shows "stored decode view i w' = (stored decode view i w)(Doc_Id n \<mapsto> n)"
    and "readable decode view i w \<Longrightarrow> readable decode view i w'"
proof -
  show "stored decode view i w' = (stored decode view i w)(Doc_Id n \<mapsto> n)"
    using assms by (auto simp: stored_def fun_eq_iff decode_merge SetID_def)
  assume "readable decode view i w"
  then show "readable decode view i w'"
    unfolding readable_def using assms decode_merge by (metis option.distinct(1) option.inject)
qed

lemma stored_insert:
  assumes st: "es_store E view" and rel: "reliable E" and w': "w' = snd (Insert E (document n) i w)"
  shows "stored decode view i w' = (stored decode view i w)(Doc_Id n \<mapsto> n)"
    and "readable decode view i w \<Longrightarrow> readable decode view i w'"
proof -
  have "es_Index E i (Doc_Id n) (doc_source (document n)) w = (None, w')"
    using rel w' by (simp add: Insert_world document_id reliable_def prod_eq_iff)
  with st have 1: "view w' i (Doc_Id n) = Some (merge_source None (doc_source (document n)))"
    using document_store.insert_ok[OF st[unfolded es_store_def]] by (simp add: merge_source_def)
  have 2: "view w' i d = view w i d" if "d \<noteq> Doc_Id n" for d
    using es_store_index_frame[OF st] that w' by (simp add: Insert_world document_id)
  show "stored decode view i w' = (stored decode view i w)(Doc_Id n \<mapsto> n)" using 1 2 by (rule stored_write(1))
  show "readable decode view i w'" if "readable decode view i w" using 1 2 that by (rule stored_write(2))
qed

lemma stored_update:
  assumes st: "es_store E view" and rel: "reliable E" and w': "w' = snd (Update E (document n) i (Doc_Id n) w)"
  shows "stored decode view i w' = (stored decode view i w)(Doc_Id n \<mapsto> n)"
    and "readable decode view i w \<Longrightarrow> readable decode view i w'"
proof -
  have "es_Update E i (Doc_Id n) (doc_source (document n)) w = (None, w')"
    using rel w' by (simp add: Update_world reliable_def prod_eq_iff)
  with st have 1: "view w' i (Doc_Id n) = Some (merge_source (view w i (Doc_Id n)) (doc_source (document n)))"
    using document_store.update_ok[OF st[unfolded es_store_def]] by simp
  have 2: "view w' i d = view w i d" if "d \<noteq> Doc_Id n" for d
    using es_store_update_frame[OF st] that w' by (simp add: Update_world)
  show "stored decode view i w' = (stored decode view i w)(Doc_Id n \<mapsto> n)" using 1 2 by (rule stored_write(1))
  show "readable decode view i w'" if "readable decode view i w" using 1 2 that by (rule stored_write(2))
qed

end

interpretation nfts: whole_documents EsNFT_decode DNFT
  by unfold_locales (simp_all add: EsNFT_decode_def EsNFT_source_def EsNFT_fields_def fits_def get_defs SetID_def map_of_merge_source GetID_def)

section \<open>Refinement\<close>

lemma stored_view: "view w' = view w \<Longrightarrow> stored decode view i w' = stored decode view i w"
  and readable_view: "view w' = view w \<Longrightarrow> readable decode view i w' = readable decode view i w"
  by (simp_all add: stored_def readable_def fun_eq_iff)

lemma addNFT_refines:
  assumes st: "es_store E view" and rel: "reliable E" and rd: "nfts_readable view (index_name s ''nft'') (world s)"
  obtains w where "addNFT E n s = Some (Ret (), s\<lparr>world := w\<rparr>)" "nfts_readable view (index_name s ''nft'') w"
    "stored_nfts view (index_name s ''nft'') w = newest n (stored_nfts view (index_name s ''nft'') (world s))"
proof -
  let ?i = "index_name s ''nft''"
  let ?m = "stored_nfts view ?i (world s)"
  obtain w1 where q: "SelectOne E (id_params ?i (Doc_Id n)) EsNFT_decode (world s) = (Inr (?m (Doc_Id n)), w1)"
    and v: "view w1 = view (world s)" using SelectOne_readable[OF st rel rd] by blast
  have rd1: "nfts_readable view ?i w1" using rd readable_view[of view, OF v] by blast
  note m1 = stored_view[of view, OF v, where i = ?i and decode = EsNFT_decode]
  consider "?m (Doc_Id n) = None" | x where "?m (Doc_Id n) = Some x" "EsNFT_BlockNo x < EsNFT_BlockNo n"
    | x where "?m (Doc_Id n) = Some x" "\<not> EsNFT_BlockNo x < EsNFT_BlockNo n" by (cases "?m (Doc_Id n)") auto
  then show thesis
  proof cases
    case 1
    with q have "addNFT E n s = Some (Ret (), s\<lparr>world := snd (Insert E (DNFT n) ?i w1)\<rparr>)" by (simp add: addNFT_def getNFT_def)
    then show thesis by (rule that) (use nfts.stored_insert[OF st rel refl, where n = n] rd1 m1 1 in \<open>auto simp: newest_def\<close>)
  next
    case 2
    with q have "addNFT E n s = Some (Ret (), s\<lparr>world := snd (Update E (DNFT n) ?i (Doc_Id n) w1)\<rparr>)"
      by (simp add: addNFT_def getNFT_def GetID_def)
    then show thesis by (rule that) (use nfts.stored_update[OF st rel refl, where n = n] rd1 m1 2 in \<open>auto simp: newest_def\<close>)
  next
    case 3
    with q have "addNFT E n s = Some (Ret (), s\<lparr>world := w1\<rparr>)" by (simp add: addNFT_def getNFT_def)
    then show thesis by (rule that) (use rd1 m1 3 in \<open>auto simp: newest_def\<close>)
  qed
qed

lemma addNFTs_refine:
  assumes st: "es_store E view" and rel: "reliable E" and "nfts_readable view (index_name s ''nft'') (world s)"
  shows "\<exists>w. each (addNFT E) ns s = Some (Ret (), s\<lparr>world := w\<rparr>) \<and>
    stored_nfts view (index_name s ''nft'') w = fold newest ns (stored_nfts view (index_name s ''nft'') (world s))"
  using assms(3)
proof (induction ns arbitrary: s)
  case Nil
  then show ?case by (auto intro: exI[of _ "world s"])
next
  case (Cons n ns)
  obtain w where r: "addNFT E n s = Some (Ret (), s\<lparr>world := w\<rparr>)" "nfts_readable view (index_name s ''nft'') w"
    "stored_nfts view (index_name s ''nft'') w = newest n (stored_nfts view (index_name s ''nft'') (world s))"
    using addNFT_refines[OF st rel Cons.prems] by blast
  from Cons.IH[of "s\<lparr>world := w\<rparr>"] r show ?case by (auto simp: sq_Ret[where m = "addNFT E n", OF r(1)])
qed

section \<open>Properties\<close>


lemma reliable_mem: "reliable mem_env"
  by (simp add: reliable_def mem_env_def mem_insert_def mem_update_def mem_search_def Let_def)

lemma readable_empty: "nfts_readable mem_view i empty_mem"
  by (simp add: readable_def empty_mem_def mem_view_def)




end
