(* ===== verification/Aliases.thy ===== *)
theory Aliases
  imports Memory
begin

text \<open>
  Pointing an alias to a new index (\<open>UpdateAlias\<close> in \<open>indexer/db/elasticsearch.go\<close>) and finding the prefix of the
  index it points to (\<open>GetExistingIndexPrefix\<close>), on the aliases of Elasticsearch as an interface.
\<close>

text \<open>The indices that carry an alias: they are told on request, changed by the operations of a request that succeeds, and
  lost by an index that is deleted.\<close>

locale alias_store =
  fixes carries :: "'w \<Rightarrow> string \<Rightarrow> string set"
    and ask :: "string \<Rightarrow> 'w \<Rightarrow> (go_error + string list) \<times> 'w"
    and alter :: "alias_op list \<Rightarrow> 'w \<Rightarrow> go_error option \<times> 'w"
    and drop_index :: "string \<Rightarrow> 'w \<Rightarrow> 'w"
  assumes ask_told: "ask a w = (Inr is, w') \<Longrightarrow> set is = carries w a"
    and ask_keeps: "carries (snd (ask a w)) = carries w"
    and alter_ok: "alter ops w = (None, w') \<Longrightarrow> carries w' = apply_aliases ops (carries w)"
    and alter_err: "alter ops w = (Some e, w') \<Longrightarrow> carries w' = carries w"
    and drop_loses: "carries (drop_index i w) a = carries w a - {i}"
begin

lemma drops_lose: "carries (fold drop_index is w) a = carries w a - set is"
  by (induction "is" arbitrary: w) (auto simp: drop_loses)

lemma removed_and_added:
  "apply_aliases (map (\<lambda>i. AliasRemove i a) is @ [AliasAdd j a]) f a = insert j (f a - set is)"
proof (induction "is" arbitrary: f)
  case (Cons i "is")
  have "insert j (f a - {i} - set is) = insert j (f a - set (i # is))" by auto
  with Cons show ?case by simp
qed simp

lemma moved:
  assumes "ask a w = (Inr is, w1)" and "alter (map (\<lambda>i. AliasRemove i a) is @ [AliasAdd j a]) w1 = (err, w2)" and "j \<notin> carries w a"
  shows "carries (fold drop_index is w2) a = (if err = None then {j} else {})"
proof -
  have 1: "carries w1 = carries w" "set is = carries w a" using ask_keeps[of a w] ask_told[OF assms(1)] assms(1) by simp_all
  show ?thesis
  proof (cases err)
    case None
    then have "carries w2 a = {j}"
      using alter_ok[of _ w1 w2] assms(2) 1 by (simp add: removed_and_added)
    then show ?thesis using None 1(2) assms(3) by (auto simp: drops_lose)
  next
    case (Some e)
    then show ?thesis using alter_err[of _ w1 e w2] assms(2) 1 by (simp add: drops_lose)
  qed
qed

end

sublocale elastic \<subseteq> aliased: alias_store "\<lambda>w. db_aliases (db w)" "es_IndicesByAlias E" "es_Alias E" "es_DeleteIndex E"
proof
  fix a "is" and w w' :: 'w
  show "set is = db_aliases (db w) a" if "es_IndicesByAlias E a w = (Inr is, w')"
    using aliased_req[of a w] that by auto
  show "db_aliases (db (snd (es_IndicesByAlias E a w))) = db_aliases (db w)" using aliased_req[of a w] by auto
qed (auto simp: drop_req drop_index_def dest: alias_ok alias_err)

text \<open>C39: an alias that is updated points to the new index alone, and the prefix of that index is read back from it; but when
  the request fails, the old indices are deleted all the same, and the alias points to nothing.\<close>

theorem alias_update:
  assumes st: "alias_store carries (es_IndicesByAlias E) (es_Alias E) (es_DeleteIndex E)" and new: "p @ t \<notin> carries w a"
    and told: "fst (es_IndicesByAlias E a w) = Inr is" and run: "UpdateAlias E a (p @ t) w = (err, w')"
  shows "(err = None \<longrightarrow> carries w' a = {p @ t} \<and>
      (\<forall>x w''. GetExistingIndexPrefix E a t w' = (Inr x, w'') \<longrightarrow> x = (True, p))) \<and>
    (err \<noteq> None \<longrightarrow> carries w' a = {} \<and> (\<forall>x w''. GetExistingIndexPrefix E a t w' = (Inr x, w'') \<longrightarrow> x = (False, [])))"
proof -
  have fold: "DeleteIndices E is w = fold (es_DeleteIndex E) is w" for "is" w by (induction "is" arbitrary: w) simp_all
  obtain w1 where a: "es_IndicesByAlias E a w = (Inr is, w1)" using told by (metis prod.collapse)
  obtain w2 where b: "es_Alias E (map (\<lambda>i. AliasRemove i a) is @ [AliasAdd (p @ t) a]) w1 = (err, w2)"
    and w': "w' = fold (es_DeleteIndex E) is w2"
    using run a by (auto simp: UpdateAlias_def fold split: prod.splits)
  have c: "carries w' a = (if err = None then {p @ t} else {})"
    unfolding w' by (rule alias_store.moved[OF st a b new])
  have "x = (if carries w' a = {} then (False, []) else (True, p))"
    if get: "GetExistingIndexPrefix E a t w' = (Inr x, w'')" and "carries w' a \<subseteq> {p @ t}" for x w''
  proof -
    obtain js w3 where q: "es_IndicesByAlias E a w' = (Inr js, w3)"
      using get by (auto simp: GetExistingIndexPrefix_def split: prod.splits sum.splits)
    then have "set js = carries w' a" by (rule alias_store.ask_told[OF st])
    then show ?thesis
      using get q that(2) by (cases js) (auto simp: GetExistingIndexPrefix_def TrimSuffix_append)
  qed
  with c show ?thesis by auto
qed

definition aliased_mem :: mem where
  "aliased_mem = empty_mem\<lparr>m_alias := [(''chain_block'', ''old_block'')]\<rparr>"

theorem alias_update_witness:
  "\<exists>w'. UpdateAlias mem_env ''chain_block'' (''new_'' @ ''block'') aliased_mem = (None, w') \<and>
    db_aliases (mem_db w') ''chain_block'' = {''new_block''} \<and>
    fst (GetExistingIndexPrefix mem_env ''chain_block'' ''block'' w') = Inr (True, ''new_'')"
proof -
  have q: "es_IndicesByAlias mem_env a w = (Inr (map snd (filter (\<lambda>p. fst p = a) (m_alias w))), w)"
    and al: "es_Alias mem_env ops w = (None, mem_aliases ops w)" for a w ops
    by (simp_all add: mem_env_def)
  have told: "fst (es_IndicesByAlias mem_env ''chain_block'' aliased_mem) = Inr [''old_block'']"
    by (simp add: q aliased_mem_def)
  have new: "''new_'' @ ''block'' \<notin> db_aliases (mem_db aliased_mem) ''chain_block''" by (simp add: aliased_mem_def)
  obtain w' where u: "UpdateAlias mem_env ''chain_block'' (''new_'' @ ''block'') aliased_mem = (None, w')"
    by (simp add: UpdateAlias_def q al Let_def)
  obtain x where x: "GetExistingIndexPrefix mem_env ''chain_block'' ''block'' w' = (Inr x, w')"
    by (cases "map snd (filter (\<lambda>p. fst p = ''chain_block'') (m_alias w'))") (simp_all add: GetExistingIndexPrefix_def q)
  have "db_aliases (mem_db w') ''chain_block'' = {''new_block''} \<and> x = (True, ''new_'')"
    using alias_update[OF mem.aliased.alias_store_axioms new told u] x by simp
  with u x show ?thesis by simp
qed

end
