(* ===== verification/Pipeline.thy ===== *)
theory Pipeline
  imports Memory "HOL-Library.Multiset"
begin

text \<open>
  The parts of a check in composition: the heights that \<open>checkIndex\<close> hands out, the miners that receive them, and
  the indexer of the channel of blocks, in any order in which the documents of the miners arrive.
\<close>

section \<open>What a miner receives\<close>

definition received :: "nat \<Rightarrow> action list \<Rightarrow> BlockInfo list" where
  "received i l = List.map_filter (\<lambda>a. case a of SendR j info \<Rightarrow> if j = i then Some info else None | _ \<Rightarrow> None) l"

lemma received_append [simp]: "received i (k @ l) = received i k @ received i l"
  and received_nil [simp]: "received i [] = []"
  by (simp_all add: received_def List.map_filter_def)

lemma received_Cons: "received i (a # l) = (case a of SendR j info \<Rightarrow> if j = i then [info] else [] | _ \<Rightarrow> []) @ received i l"
  by (simp add: received_def List.map_filter_def split: action.split)

abbreviation is_bulk :: "BlockInfo \<Rightarrow> bool" where
  "is_bulk info \<equiv> BlockInfo_Type info = BlockType_Bulk"

abbreviation height_of :: "BlockInfo \<Rightarrow> nat" where
  "height_of info \<equiv> unat (BlockInfo_Height info)"

text \<open>The heights handed out, split by miner.\<close>

lemma received_heights:
  assumes "\<forall>a \<in> set l. case a of SendR j info \<Rightarrow> j < n | _ \<Rightarrow> True"
  shows "mset (bulk_heights l) = (\<Sum>i<n. mset (map height_of (filter is_bulk (received i l))))"
  using assms
proof (induction l)
  case Nil
  then show ?case by (simp add: bulk_heights_def List.map_filter_def)
next
  case (Cons a l)
  let ?f = "\<lambda>i. mset (map height_of (filter is_bulk (received i l)))"
  have IH: "mset (bulk_heights l) = (\<Sum>i<n. ?f i)" using Cons by simp
  have b: "bulk_heights (a # l) = bulk_heights [a] @ bulk_heights l" by (metis append_Cons append_Nil bulk_heights_append)
  show ?case
  proof (cases "\<exists>j info. a = SendR j info \<and> is_bulk info")
    case True
    then obtain j info where a: "a = SendR j info" "is_bulk info" "j < n" using Cons.prems by auto
    have "(\<Sum>i<n. mset (map height_of (filter is_bulk (received i (a # l))))) =
        (\<Sum>i<n. (if i = j then {#height_of info#} else {#}) + ?f i)"
      using a by (intro sum.cong) (auto simp: received_Cons)
    also have "\<dots> = {#height_of info#} + (\<Sum>i<n. ?f i)" using a(3) by (simp add: sum.distrib)
    finally show ?thesis using a b IH by (simp add: bulk_heights_def List.map_filter_def)
  next
    case False
    then have "bulk_heights [a] = []" "filter is_bulk (received i (a # l)) = filter is_bulk (received i l)" for i
      by (auto simp: bulk_heights_def List.map_filter_def received_Cons split: action.split)
    then show ?thesis using b IH by simp
  qed
qed

text \<open>The check sends to a miner the heights of its number and then tells it to stop.\<close>

lemma received_opening [simp]: "received i (opening_acts s) = []"
proof -
  have "received i (concat (map (\<lambda>k. [MakeR k, GoMiner k (f k)]) ks)) = []" for f ks
    by (induction ks) (simp_all add: received_def List.map_filter_def)
  then show ?thesis by (simp add: opening_acts_def bulk_channels_def) (simp add: received_def List.map_filter_def)
qed

lemma received_closing: "i < n \<Longrightarrow> received i (closing n) = [stop_miner]"
proof -
  have "received i (concat (map (\<lambda>k. [SendR k stop_miner, CloseR k]) [0..<n])) = (if i < n then [stop_miner] else [])" for n
    by (induction n) (auto simp: received_def List.map_filter_def)
  then show "i < n \<Longrightarrow> received i (closing n) = [stop_miner]"
    by (simp add: closing_def bulk_channels_def) (simp add: received_def List.map_filter_def)
qed

lemma handed_bulk: "0 < n \<Longrightarrow> \<forall>a \<in> set (handed_ranges n rs). \<exists>j h. a = SendR j (bulk_block h) \<and> j < n"
  by (auto simp: handed_ranges_def handed_def)

lemma received_handed:
  assumes "0 < n"
  shows "filter is_bulk (received i (handed_ranges n rs)) = received i (handed_ranges n rs)"
proof -
  have "\<forall>a \<in> set l. \<exists>j h. a = SendR j (bulk_block h) \<and> j < n \<Longrightarrow> filter is_bulk (received i l) = received i l" for l
    by (induction l) (auto simp: received_Cons bulk_block_def)
  then show ?thesis using handed_bulk[OF assms] by blast
qed

section \<open>What a miner sends\<close>

text \<open>A node that answers with the block of the height asked for.\<close>

definition tells_heights :: "'e env \<Rightarrow> bool" where
  "tells_heights E \<longleftrightarrow> (\<forall>h w b w'. GetBlock E (PutUint64 h) w = (Inr b, w') \<longrightarrow> block_height b = h)"

definition doc_height :: "doc \<Rightarrow> nat" where
  "doc_height d = (case d of DBlock b \<Rightarrow> unat (EsBlock_BlockNo b) | _ \<Rightarrow> 0)"

lemma get_block_retry_given:
  assumes "get_block_retry E q s = Some (Ret b, s1)"
  shows "\<exists>w w'. GetBlock E q w = (Inr b, w')"
proof -
  have "fst (Ret b, s1) = Ret b \<longrightarrow> (\<exists>w w'. GetBlock E q w = (Inr b, w'))"
  proof (rule get_block_retry.raw_induct[where P = "\<lambda>E q s y. fst y = Ret b \<longrightarrow> (\<exists>w w'. GetBlock E q w = (Inr b, w'))",
        OF _ assms])
    fix f and E :: "'a env" and q s y
    assume IH: "\<And>E q s y. f E q s = Some y \<Longrightarrow> fst y = Ret b \<longrightarrow> (\<exists>w w'. GetBlock E q w = (Inr b, w'))"
      and run: "bnd (ext (GetBlock E q)) (\<lambda>r s. case r of
          Inl _ \<Rightarrow> sq (Sleep E (100 * 10 ^ 6)) (\<lambda>s'. f E q s') s | Inr block \<Rightarrow> ret block s) s = Some y"
    obtain r w1 where g: "GetBlock E q (world s) = (r, w1)" by fastforce
    show "fst y = Ret b \<longrightarrow> (\<exists>w w'. GetBlock E q w = (Inr b, w'))"
    proof (cases r)
      case (Inl e)
      with run g have "f E q (s\<lparr>world := clock_Sleep E (100 * 10 ^ 6) w1\<rparr>) = Some y" by (simp add: sq_Ret[OF Sleep_run])
      then show ?thesis by (rule IH)
    next
      case (Inr block)
      with run g show ?thesis by fastforce
    qed
  qed
  then show ?thesis by simp
qed

lemma mine_block_height:
  assumes tells: "tells_heights E" and bulk: "is_bulk info" and run: "mine_block E info s = Some (Ret (), s')"
  shows "\<exists>l. acts s' = acts s @ l \<and> map doc_height (sends ChBlock l) = [height_of info]"
proof -
  obtain block s1 Body k p blockDoc s2 where b: "get_block_retry E (PutUint64 (BlockInfo_Height info)) s = Some (Ret block, s1)"
    and "getPeerId E k s1 = Some (Ret p, s2)" and bd: "Block_Body block = Some Body" and c: "ConvBlock E block p = Ret blockDoc"
    and i: "index_block E info blockDoc (BlockBody_Txs Body) s2 = Some (Ret (), s')" and a: "acts s2 = acts s"
    by (rule mine_block_steps[OF run])
  have "block_height block = BlockInfo_Height info"
    using get_block_retry_given[OF b] tells by (auto simp: tells_heights_def)
  then have h: "EsBlock_BlockNo blockDoc = BlockInfo_Height info"
    using c by (auto simp: ConvBlock_def block_height_def obnd_def split: option.splits outcome.splits)
  obtain s3 where t: "each_from 0 (\<lambda>i tx. MinerTx E (of_nat i) info blockDoc tx) (BlockBody_Txs Body) s2 = Some (Ret (), s3)"
    using i by (auto simp: index_block_def elim: sq_RetE)
  obtain l where "acts s' = acts s2 @ l @ [SendB ChBlock (added (DBlock blockDoc))]" "sends ChBlock l = []"
    using index_block_bulk[OF mine_txs_bodies[OF t] bulk i] by blast
  then show ?thesis using a h by (intro exI[of _ "l @ [SendB ChBlock (added (DBlock blockDoc))]"]) (simp add: doc_height_def)
qed

lemma Miner_heights:
  assumes tells: "tells_heights E" and "\<forall>info \<in> set infos. is_bulk info"
    and "Miner E (infos @ [stop_miner]) s = Some (Ret (), s')"
  shows "\<exists>l. acts s' = acts s @ l \<and> map doc_height (sends ChBlock l) = map height_of infos"
  using assms(2,3)
proof (induction infos arbitrary: s)
  case Nil
  then show ?case by (auto simp: stop_miner_def)
next
  case (Cons info infos)
  then have "is_bulk info" by simp
  with Cons.prems(2) have "sq (mine_block E info) (Miner E (infos @ [stop_miner])) s = Some (Ret (), s')" by simp
  then obtain x s1 where "mine_block E info s = Some (Ret x, s1)" and m: "Miner E (infos @ [stop_miner]) s1 = Some (Ret (), s')"
    by (rule sq_RetE)
  then have r: "mine_block E info s = Some (Ret (), s1)" by simp
  from mine_block_height[OF tells \<open>is_bulk info\<close> r]
  obtain l1 where 1: "acts s1 = acts s @ l1" "map doc_height (sends ChBlock l1) = [height_of info]" by (elim exE conjE)
  have "\<forall>info \<in> set infos. is_bulk info" using Cons.prems(1) by simp
  from Cons.IH[OF this m]
  obtain l2 where "acts s' = acts s1 @ l2" "map doc_height (sends ChBlock l2) = map height_of infos" by (elim exE conjE)
  with 1 show ?case by (intro exI[of _ "l1 @ l2"]) simp
qed

section \<open>The composition\<close>

lemma image_mset_sum: "image_mset g (\<Sum>i<n. f i) = (\<Sum>i<n. image_mset g (f i))" for n :: nat
  by (induction n) simp_all

text \<open>What the miners of a check send to the channel of blocks, together.\<close>

lemma miners_send_missing:
  assumes n: "0 < n" and tells: "tells_heights E"
    and l: "l = opening_acts s @ handed_ranges n rs @ closing n"
    and mine: "\<forall>i < n. acts (m i) = [] \<and> Miner E (received i l) (m i) = Some (Ret (), m' i)"
  shows "(\<Sum>i<n. mset (map doc_height (sends ChBlock (acts (m' i))))) = mset (bulk_heights (handed_ranges n rs))"
proof -
  let ?r = "\<lambda>i. received i (handed_ranges n rs)"
  have "map doc_height (sends ChBlock (acts (m' i))) = map height_of (?r i)" if i: "i < n" for i
  proof -
    have "received i l = ?r i @ [stop_miner]" using l received_closing[OF i] by simp
    with mine i have r: "Miner E (?r i @ [stop_miner]) (m i) = Some (Ret (), m' i)" and a: "acts (m i) = []" by auto
    have "filter is_bulk (?r i) = ?r i" by (rule received_handed[OF n])
    then have b: "\<forall>info \<in> set (?r i). is_bulk info" by (simp add: filter_id_conv)
    from Miner_heights[OF tells b r] a show ?thesis by auto
  qed
  then have "(\<Sum>i<n. mset (map doc_height (sends ChBlock (acts (m' i))))) = (\<Sum>i<n. mset (map height_of (filter is_bulk (?r i))))"
    using received_handed[OF n] by (intro sum.cong) auto
  also have "\<dots> = mset (bulk_heights (handed_ranges n rs))"
    by (rule received_heights[symmetric]) (use handed_bulk[OF n, of rs] in \<open>fastforce split: action.split\<close>)
  finally show ?thesis .
qed

lemma checkIndex_acts:
  assumes "accepting E" and "0 < minerNum s"
    and "delivers (Next E EsBlock_decode) (clock_Sleep E Second)
      (Scroll (check_params (index_name s ''block'') startFrom stopAt))
      (dials E (serverAddr s) (grpcNum s) (world s)) stored scroll' w'"
    and "checkIndex E startFrom stopAt s = Some (Ret (), s')" and "acts s' = acts s @ l"
  shows "l = opening_acts s @ handed_ranges (minerNum s) (ranges startFrom stopAt (map EsBlock_BlockNo stored)) @ closing (minerNum s)"
  using checkIndex_run[OF assms(1-3)] assms(4,5) by auto

text \<open>What a miner of a check receives: blocks in bulk mode, and then that it stops.\<close>

lemma received_check:
  assumes "l = opening_acts s @ handed_ranges n rs @ closing n" and "i < n"
  shows "received i l = received i (handed_ranges n rs) @ [stop_miner]"
    and "\<forall>info \<in> set (received i (handed_ranges n rs)). is_bulk info"
proof -
  show "received i l = received i (handed_ranges n rs) @ [stop_miner]" using assms received_closing by simp
  have "filter is_bulk (received i (handed_ranges n rs)) = received i (handed_ranges n rs)"
    by (rule received_handed) (use assms(2) in simp)
  then show "\<forall>info \<in> set (received i (handed_ranges n rs)). is_bulk info" by (simp add: filter_id_conv)
qed

text \<open>Together the miners send the documents of the missing heights.\<close>

lemma check_sends_missing:
  assumes "accepting E" and "0 < minerNum s" and "startFrom \<le> stopAt" and "stopAt \<noteq> - 1"
    and "delivers (Next E EsBlock_decode) (clock_Sleep E Second)
      (Scroll (check_params (index_name s ''block'') startFrom stopAt))
      (dials E (serverAddr s) (grpcNum s) (world s)) stored scroll' w'"
    and "sorted_wrt (\<ge>) (map EsBlock_BlockNo stored)"
    and "\<forall>b \<in> set (map EsBlock_BlockNo stored). startFrom < b \<and> b \<le> stopAt"
    and "checkIndex E startFrom stopAt s = Some (Ret (), s')" and "acts s' = acts s @ l"
    and "tells_heights E"
    and "\<forall>i < minerNum s. acts (m i) = [] \<and> Miner E (received i l) (m i) = Some (Ret (), m' i)"
  shows "(\<Sum>i < minerNum s. mset (map doc_height (sends ChBlock (acts (m' i))))) =
    mset (filter (\<lambda>h. h \<notin> unat ` set (map EsBlock_BlockNo stored)) [unat startFrom..<Suc (unat stopAt)])"
proof -
  note M = ranges_missing[OF assms(6,7,3,4)]
  let ?h = "handed_ranges (minerNum s) (ranges startFrom stopAt (map EsBlock_BlockNo stored))"
  have l: "l = opening_acts s @ ?h @ closing (minerNum s)" by (rule checkIndex_acts[OF assms(1,2,5,8,9)])
  have "(\<Sum>i < minerNum s. mset (map doc_height (sends ChBlock (acts (m' i))))) = mset (bulk_heights ?h)"
    by (rule miners_send_missing[OF assms(2,10) l assms(11)])
  then show ?thesis by (simp add: handed_ranges_heights[OF M(2)] M(1) del: upt_Suc)
qed

text \<open>A node that has a block without transactions at every height.\<close>

definition node_env :: "mem env" where
  "node_env = mem_env\<lparr>rpc_GetBlock := \<lambda>q w. (Inr (sample_block (of_nat (read_hash q)) []), w)\<rparr>"

lemma node_scroll: "scroll_load node_env s w = scroll_load mem_env s w"
  by (simp add: scroll_load_def node_env_def)

lemma node_mem [simp]:
  "Next node_env = Next mem_env" "dials node_env = dials mem_env" "clock_Sleep node_env = clock_Sleep mem_env"
proof -
  show "Next node_env = Next mem_env" by (intro ext) (simp add: Next_def node_scroll)
  have "dials node_env a n w = dials mem_env a n w" for a n w by (induction n arbitrary: w) (simp_all add: node_env_def)
  then show "dials node_env = dials mem_env" by (simp add: fun_eq_iff)
  show "clock_Sleep node_env = clock_Sleep mem_env" by (simp add: node_env_def)
qed

lemma node_GetBlock: "GetBlock node_env (PutUint64 h) w = (Inr (sample_block h []), w)"
  by (simp add: GetBlock_def node_env_def read_PutUint64)

lemma node_tells: "tells_heights node_env"
  by (simp add: tells_heights_def node_GetBlock block_height_def sample_block_def sample_header_def)

lemma node_mines:
  assumes "is_bulk info"
  shows "\<exists>s'. mine_block node_env info s = Some (Ret (), s')"
proof -
  let ?b = "sample_block (BlockInfo_Height info) []"
  have g: "get_block_retry node_env (PutUint64 (BlockInfo_Height info)) s = Some (Ret ?b, s)"
    by (subst get_block_retry.simps) (simp add: node_GetBlock)
  have b: "Block_Header ?b = Some (sample_header (BlockInfo_Height info))" "Block_Body ?b = Some \<lparr>BlockBody_Txs = []\<rparr>"
    by (simp_all add: sample_block_def)
  obtain p s1 where p: "getPeerId node_env (BlockHeader_PubKey (sample_header (BlockInfo_Height info))) s = Some (Ret p, s1)"
    by (cases "map_of (peerId s) (bytes_of (BlockHeader_PubKey (sample_header (BlockInfo_Height info))))")
      (simp_all add: getPeerId_def Let_def)
  obtain bd where bd: "ConvBlock node_env ?b p = Ret bd" by (simp add: ConvBlock_def b)
  have "\<exists>s'. index_block node_env info bd [] s1 = Some (Ret (), s')" using assms by (simp add: index_block_def addBlock_def sq_Ret[OF send_add_run])
  then show ?thesis
    by (simp add: mine_block_def bnd_Ret[where m = "get_block_retry node_env (PutUint64 (BlockInfo_Height info))", OF g] b
        bnd_Ret[where m = "getPeerId node_env (BlockHeader_PubKey (sample_header (BlockInfo_Height info)))", OF p] bd)
qed

lemma node_Miner:
  "\<forall>info \<in> set infos. is_bulk info \<Longrightarrow> \<exists>s'. Miner node_env (infos @ [stop_miner]) s = Some (Ret (), s')"
proof (induction infos arbitrary: s)
  case Nil
  then show ?case by (simp add: stop_miner_def)
next
  case (Cons info infos)
  then have b: "is_bulk info" by simp
  from node_mines[OF this, of s] obtain s1 where "mine_block node_env info s = Some (Ret (), s1)" by (elim exE)
  then show ?case using Cons b by (simp add: sq_Ret[where m = "mine_block node_env info"])
qed

text \<open>The check of the heights 1 to 5 on an index that holds 2 and 4, with two miners.\<close>

lemma sample_check:
  obtains sc s' l m' where "accepting node_env" "0 < minerNum (sample_indexer (indexed_world [4, 2]))"
    "(1 :: uint64) \<le> 5" "(5 :: uint64) \<noteq> - 1"
    "delivers (Next node_env EsBlock_decode) (clock_Sleep node_env Second)
      (Scroll (check_params (index_name (sample_indexer (indexed_world [4, 2])) ''block'') 1 5))
      (dials node_env (serverAddr (sample_indexer (indexed_world [4, 2]))) (grpcNum (sample_indexer (indexed_world [4, 2])))
        (world (sample_indexer (indexed_world [4, 2])))) (map (\<lambda>h. block_doc (show_nat (unat h)) h) [4, 2 :: uint64])
      sc (indexed_world [4, 2])"
    "sorted_wrt (\<ge>) (map EsBlock_BlockNo (map (\<lambda>h. block_doc (show_nat (unat h)) h) [4, 2 :: uint64]))"
    "\<forall>b \<in> set (map EsBlock_BlockNo (map (\<lambda>h. block_doc (show_nat (unat h)) h) [4, 2 :: uint64])). 1 < b \<and> b \<le> 5"
    "checkIndex node_env 1 5 (sample_indexer (indexed_world [4, 2])) = Some (Ret (), s')"
    "acts s' = acts (sample_indexer (indexed_world [4, 2])) @ l" "tells_heights node_env"
    "\<forall>i < minerNum (sample_indexer (indexed_world [4, 2])). acts (sample_indexer (indexed_world [4, 2])) = [] \<and>
      Miner node_env (received i l) (sample_indexer (indexed_world [4, 2])) = Some (Ret (), m' i)"
proof -
  let ?s = "sample_indexer (indexed_world [4, 2])"
  let ?stored = "map (\<lambda>h. block_doc (show_nat (unat h)) h) [4, 2 :: uint64]"
  have acc: "accepting node_env" by (simp add: accepting_def node_env_def mem_env_def)
  obtain sc where d: "delivers (Next node_env EsBlock_decode) (clock_Sleep node_env Second)
      (Scroll (check_params (index_name ?s ''block'') 1 5)) (dials node_env (serverAddr ?s) (grpcNum ?s) (world ?s))
      ?stored sc (indexed_world [4, 2])"
    using check_delivers[OF disjI1[OF refl] refl] by auto
  have pos: "0 < minerNum ?s" by simp
  from checkIndex_run[OF acc pos d] obtain w1 l where
    c: "checkIndex node_env 1 5 ?s = Some (Ret (), ?s\<lparr>acts := acts ?s @ l, world := w1\<rparr>)" by blast
  have a: "acts (?s\<lparr>acts := acts ?s @ l, world := w1\<rparr>) = acts ?s @ l" by simp
  note l = checkIndex_acts[OF acc pos d c a]
  have "\<forall>i \<in> {..<minerNum ?s}. \<exists>m1. Miner node_env (received i l) ?s = Some (Ret (), m1)"
  proof
    fix i assume "i \<in> {..<minerNum ?s}"
    then have i: "i < minerNum ?s" by simp
    show "\<exists>m1. Miner node_env (received i l) ?s = Some (Ret (), m1)"
      using node_Miner[OF received_check(2)[OF l i], of ?s] unfolding received_check(1)[OF l i] .
  qed
  from bchoice[OF this]
  obtain m' where "\<forall>i \<in> {..<minerNum ?s}. Miner node_env (received i l) ?s = Some (Ret (), m' i)" by (elim exE)
  then have m: "\<forall>i < minerNum ?s. acts ?s = [] \<and> Miner node_env (received i l) ?s = Some (Ret (), m' i)" by simp
  have "sorted_wrt (\<ge>) (map EsBlock_BlockNo ?stored)" "\<forall>b \<in> set (map EsBlock_BlockNo ?stored). 1 < b \<and> b \<le> 5"
    "(1 :: uint64) \<le> 5" "(5 :: uint64) \<noteq> - 1" by (simp_all add: block_doc_def)
  from that[OF acc pos this(3,4) d this(1,2) c a node_tells m] show thesis .
qed

lemma sample_missing: "mset (filter (\<lambda>h. h \<notin> unat ` set (map EsBlock_BlockNo
    (map (\<lambda>h. block_doc (show_nat (unat h)) h) [4, 2 :: uint64]))) [unat (1 :: uint64)..<Suc (unat (5 :: uint64))]) = {#1, 3, 5#}"
proof -
  have "[Suc 0..<6] = [1, 2, 3, 4, 5]" by (simp add: upt_rec)
  then show ?thesis by (simp add: block_doc_def del: upt_Suc)
qed

end
