(* ===== verification/Storage.thy ===== *)
theory Storage
  imports Pipeline Refinement
begin

text \<open>
  What the stream leaves in the database: on a store that does not fail, and on which reading changes no document,
  the miner of the stream stores every block it is told of and all its transactions, and nothing it does later loses
  them. With the loop over the stream this says that following the chain indexes every height.
\<close>

section \<open>Reading changes no document\<close>

definition reads :: "('e \<Rightarrow> string \<Rightarrow> string \<Rightarrow> source option) \<Rightarrow> ('e \<Rightarrow> 'a \<times> 'e) \<Rightarrow> bool" where
  "reads view f \<longleftrightarrow> (\<forall>w. view (snd (f w)) = view w)"

definition reads_keep :: "'e env \<Rightarrow> ('e \<Rightarrow> string \<Rightarrow> string \<Rightarrow> source option) \<Rightarrow> bool" where
  "reads_keep E view \<longleftrightarrow>
     (\<forall>a q. reads view (rpc_QueryContract E a q)) \<and> (\<forall>a. reads view (rpc_GetState E a)) \<and>
     (\<forall>a. reads view (rpc_GetStaking E a)) \<and> (\<forall>h. reads view (rpc_GetReceipt E h)) \<and>
     (\<forall>q. reads view (rpc_GetBlock E q)) \<and> (\<forall>u. reads view (http_Get E u)) \<and>
     (\<forall>i q srt n. reads view (es_Search E i q srt n)) \<and> (\<forall>i q. reads view (es_Count E i q)) \<and>
     (\<forall>req sid. reads view (es_Scroll E req sid)) \<and> reads view (clock_Now E) \<and>
     (\<forall>d w. view (clock_Sleep E d w) = view w) \<and> (\<forall>q w. view (stream_CloseSend E q w) = view w)"

text \<open>A document of an index is stored and its source satisfies a predicate.\<close>

definition holds :: "('e \<Rightarrow> string \<Rightarrow> string \<Rightarrow> source option) \<Rightarrow> string \<Rightarrow> string \<Rightarrow> (source \<Rightarrow> bool) \<Rightarrow> 'e Indexer \<Rightarrow> bool" where
  "holds view t d P s \<longleftrightarrow> (\<exists>src. view (world s) (index_name s t) d = Some src \<and> P src)"

lemma holds_mono: "holds view t d P s \<Longrightarrow> (\<And>src. P src \<Longrightarrow> Q src) \<Longrightarrow> holds view t d Q s"
  by (auto simp: holds_def)

lemma index_name_simps [simp]:
  "index_name (s\<lparr>world := w\<rparr>) t = index_name s t" "index_name (s\<lparr>acts := a\<rparr>) t = index_name s t"
  "index_name (s\<lparr>addrsBalance := b\<rparr>) t = index_name s t" "index_name (s\<lparr>peerId := p\<rparr>) t = index_name s t"
  "index_name (s\<lparr>accToken := k\<rparr>) t = index_name s t"
  by (simp_all add: index_name_def)

lemma index_name_eq [simp]: "index_name s t = index_name s t' \<longleftrightarrow> t = t'"
  by (simp add: index_name_def)

lemma holds_harmless: "reads view f \<Longrightarrow> harmless (holds view t d P) f"
  by (simp add: harmless_def passes_def holds_def reads_def)

text \<open>Writing another document keeps it; writing it anew keeps it when what is written satisfies the predicate.\<close>

lemma holds_insert:
  assumes st: "es_store E view" and same: "t' = t \<Longrightarrow> doc_GetID x = d \<Longrightarrow> P (doc_source x)"
  shows "preserves (holds view t d P) (insert_into E t' x)"
proof (rule preservesI)
  fix s r s' assume "insert_into E t' x s = Some (r, s')" and h: "holds view t d P s"
  then have s': "s' = s\<lparr>world := snd (es_Index E (index_name s t') (doc_GetID x) (doc_source x) (world s))\<rparr>"
    by (simp add: Insert_world)
  show "holds view t d P s'"
  proof (cases "t' = t \<and> doc_GetID x = d")
    case True
    then show ?thesis
      using h same es_store_index[OF st, of "index_name s t" d "doc_source x" "world s"] by (auto simp: holds_def s')
  next
    case False
    then have "index_name s t \<noteq> index_name s t' \<or> d \<noteq> doc_GetID x" by auto
    from es_store_index_frame[OF st this] show ?thesis using h by (simp add: holds_def s')
  qed
qed

lemma holds_update:
  assumes st: "es_store E view" and other: "t' \<noteq> t"
  shows "preserves (holds view t d P) (update_in E t' x)"
proof (rule preservesI)
  fix s r s' assume "update_in E t' x s = Some (r, s')" and h: "holds view t d P s"
  then have s': "s' = s\<lparr>world := snd (es_Update E (index_name s t') (doc_GetID x) (doc_source x) (world s))\<rparr>"
    by (simp add: Update_world)
  have "index_name s t \<noteq> index_name s t' \<or> d \<noteq> doc_GetID x" using other by auto
  from es_store_update_frame[OF st this] show "holds view t d P s'" using h by (simp add: holds_def s')
qed

text \<open>The documents of blocks and transactions survive mining.\<close>

lemma holds_mining:
  assumes st: "es_store E view" and rk: "reads_keep E view" and t: "t = ''block'' \<or> t = ''tx''"
  shows "mining E (holds view t d P) T"
proof
  fix t' x assume "t' \<in> side_types"
  then have "t' \<noteq> t" using t by (auto simp: side_types_def)
  then show "preserves (holds view t d P) (insert_into E t' x)" "preserves (holds view t d P) (update_in E t' x)"
    by (auto intro!: holds_insert[OF st] holds_update[OF st])
qed (use rk in \<open>simp_all add: reads_keep_def holds_harmless\<close>, simp_all add: holds_def)

section \<open>What is stored\<close>

text \<open>A write that succeeds is there.\<close>

lemma insert_holds:
  assumes st: "es_store E view" and rel: "reliable E" and run: "insert_into E t x s = Some (r, s')"
  shows "holds view t (doc_GetID x) (\<lambda>src. src = doc_source x) s'"
proof -
  have "es_Index E (index_name s t) (doc_GetID x) (doc_source x) (world s) = (None, world s')"
    using rel run by (auto simp: Insert_world reliable_def prod_eq_iff)
  from document_store.insert_ok[OF st[unfolded es_store_def] this] show ?thesis using run by (auto simp: holds_def)
qed

definition stored_tx :: "'e env \<Rightarrow> ('e \<Rightarrow> string \<Rightarrow> string \<Rightarrow> source option) \<Rightarrow> Tx \<Rightarrow> uint64 \<Rightarrow> 'e Indexer \<Rightarrow> bool" where
  "stored_tx E view tx h = holds view ''tx'' (base58 E (Tx_Hash tx))
     (\<lambda>src. \<exists>d. Doc_Id d = base58 E (Tx_Hash tx) \<and> EsTx_BlockNo d = h \<and> src = EsTx_source d)"

definition stored_block :: "'e env \<Rightarrow> ('e \<Rightarrow> string \<Rightarrow> string \<Rightarrow> source option) \<Rightarrow> Block \<Rightarrow> 'e Indexer \<Rightarrow> bool" where
  "stored_block E view block = holds view ''block'' (base58 E (Block_Hash block))
     (\<lambda>src. \<exists>b. EsBlock_BlockNo b = block_height block \<and> src = EsBlock_source b)"

text \<open>The block that the node gave at a height is stored; with \<open>txs\<close>, all its transactions are too.\<close>

definition indexed :: "'e env \<Rightarrow> ('e \<Rightarrow> string \<Rightarrow> string \<Rightarrow> source option) \<Rightarrow> bool \<Rightarrow> uint64 \<Rightarrow> 'e Indexer \<Rightarrow> bool" where
  "indexed E view txs h s \<longleftrightarrow> (\<exists>block Body w w'. GetBlock E (PutUint64 h) w = (Inr block, w') \<and> Block_Body block = Some Body \<and>
     stored_block E view block s \<and> (txs \<longrightarrow> (\<forall>tx \<in> set (BlockBody_Txs Body). stored_tx E view tx (block_height block) s)))"

text \<open>The id of a block determines its height.\<close>

definition one_height :: "'e env \<Rightarrow> bool" where
  "one_height E \<longleftrightarrow> (\<forall>q q' w w' b b' w1 w1'. GetBlock E q w = (Inr b, w1) \<longrightarrow> GetBlock E q' w' = (Inr b', w1') \<longrightarrow>
     base58 E (Block_Hash b) = base58 E (Block_Hash b') \<longrightarrow> block_height b = block_height b')"

text \<open>The hash of a transaction determines the height of its block: no reorganisation moves it.\<close>

definition settled_txs :: "'e env \<Rightarrow> bool" where
  "settled_txs E \<longleftrightarrow> (\<forall>q q' w w' b b' w1 w1' B B' tx tx'. GetBlock E q w = (Inr b, w1) \<longrightarrow> GetBlock E q' w' = (Inr b', w1') \<longrightarrow>
     Block_Body b = Some B \<longrightarrow> Block_Body b' = Some B' \<longrightarrow> tx \<in> set (BlockBody_Txs B) \<longrightarrow> tx' \<in> set (BlockBody_Txs B') \<longrightarrow>
     base58 E (Tx_Hash tx) = base58 E (Tx_Hash tx') \<longrightarrow> block_height b = block_height b')"

section \<open>The miner of the stream\<close>

text \<open>Mining a transaction keeps what is stored, and in the end its own document is stored.\<close>

lemma sync_addTx: "BlockInfo_Type info = BlockType_Sync \<Longrightarrow> addTx E (BlockInfo_Type info) d = insert_into E ''tx'' (DTx d)"
  and sync_addBlock: "BlockInfo_Type info = BlockType_Sync \<Longrightarrow> addBlock E (BlockInfo_Type info) b = insert_into E ''block'' (DBlock b)"
  by (simp_all add: addTx_def addBlock_def)

lemma preserves_bnd_lft: "(\<And>v. x = Ret v \<Longrightarrow> preserves I (f v)) \<Longrightarrow> preserves I (bnd (lft x) f)"
  by (cases x) (auto intro: preservesI)

lemma MinerTx_keeps:
  assumes st: "es_store E view" and rk: "reads_keep E view" and sync: "BlockInfo_Type info = BlockType_Sync"
    and t: "t = ''block'' \<or> t = ''tx''"
    and P: "\<And>x. t = ''tx'' \<Longrightarrow> base58 E (Tx_Hash tx) = d \<Longrightarrow> Doc_Id x = d \<Longrightarrow> EsTx_BlockNo x = EsBlock_BlockNo b \<Longrightarrow> P (EsTx_source x)"
  shows "preserves (holds view t d P) (MinerTx E i info b tx)"
proof -
  note m = holds_mining[OF st rk t, where T = BlockType_Sync]
  have new: "preserves (holds view t d P) (insert_into E ''tx'' (DTx x))" if c: "ConvTx E i tx r b = Ret x" for r x
  proof (rule holds_insert[OF st])
    obtain body where "Tx_Body tx = Some body" using c by (cases "Tx_Body tx") (simp_all add: ConvTx_nil)
    then have "Doc_Id x = base58 E (Tx_Hash tx)" "EsTx_BlockNo x = EsBlock_BlockNo b" using c
      by (auto simp: ConvTx_def GetBody_def Let_def obnd_def split: outcome.splits)
    then show "''tx'' = t \<Longrightarrow> doc_GetID (DTx x) = d \<Longrightarrow> P (doc_source (DTx x))" using P by (simp add: GetID_def)
  qed
  show ?thesis
    unfolding MinerTx_def Let_def sync_addTx[OF sync]
    by (intro preserves_bnd[OF _ preserves_bnd_lft] preserves_deferred new mining.inv_requests[OF m] mining.inv_basic[OF m]
        mining.inv_tx_body[OF m] sync)
qed

lemma MinerTx_stores:
  assumes st: "es_store E view" and rel: "reliable E" and sync: "BlockInfo_Type info = BlockType_Sync"
    and run: "MinerTx E i info b tx s = Some (Ret x, s')"
  shows "stored_tx E view tx (EsBlock_BlockNo b) s'"
proof -
  obtain body where body: "Tx_Body tx = Some body" using MinerTx_body[OF run] by blast
  obtain d where d: "ConvTx E i tx (receipt_of E tx (world s)) b = Ret d" "Doc_Id d = base58 E (Tx_Hash tx)"
    "EsTx_BlockNo d = EsBlock_BlockNo b" using ConvTx_Ret[OF body] by metis
  have "deferred (insert_into E ''tx'' (DTx d)) (tx_body E i info b tx (receipt_of E tx (world s)) d)
      (s\<lparr>world := snd (GetReceipt E (GetTxHash tx) (world s))\<rparr>) = Some (Ret x, s')"
    using run unfolding MinerTx_unfold[OF d(1)] sync_addTx[OF sync] .
  then obtain s1 where "insert_into E ''tx'' (DTx d) s1 = Some (Ret (), s')"
    by (auto simp: deferred_def split: option.splits)
  from insert_holds[OF st rel this] show ?thesis
    unfolding stored_tx_def using d(2,3) by (auto simp: GetID_def elim: holds_mono)
qed

lemma mine_txs_stored:
  assumes st: "es_store E view" and rel: "reliable E" and rk: "reads_keep E view" and sync: "BlockInfo_Type info = BlockType_Sync"
    and run: "each_from k (\<lambda>i tx. MinerTx E (of_nat i) info b tx) txs s = Some (Ret (), s')"
  shows "\<forall>tx \<in> set txs. stored_tx E view tx (EsBlock_BlockNo b) s'"
  using run
proof (induction txs arbitrary: k s)
  case (Cons tx txs)
  obtain x s1 where t: "MinerTx E (of_nat k) info b tx s = Some (Ret x, s1)"
    and r: "each_from (Suc k) (\<lambda>i tx. MinerTx E (of_nat i) info b tx) txs s1 = Some (Ret (), s')"
    using Cons.prems by (auto elim: sq_RetE)
  have "preserves (stored_tx E view tx (EsBlock_BlockNo b)) (each_from (Suc k) (\<lambda>i tx. MinerTx E (of_nat i) info b tx) txs)"
    unfolding stored_tx_def by (intro preserves_each_from MinerTx_keeps[OF st rk sync]) auto
  from preservesD[OF this r MinerTx_stores[OF st rel sync t]] Cons.IH[OF r] show ?case by simp
qed simp

text \<open>A block that is mined to its end is indexed.\<close>

lemma mine_block_indexed:
  assumes st: "es_store E view" and rel: "reliable E" and rk: "reads_keep E view" and sync: "BlockInfo_Type info = BlockType_Sync"
    and run: "mine_block E info s = Some (Ret (), s')"
  shows "indexed E view txs (BlockInfo_Height info) s'"
proof -
  obtain block s1 Body k p blockDoc s2 where b: "get_block_retry E (PutUint64 (BlockInfo_Height info)) s = Some (Ret block, s1)"
    and "getPeerId E k s1 = Some (Ret p, s2)" and bd: "Block_Body block = Some Body" and c: "ConvBlock E block p = Ret blockDoc"
    and i: "index_block E info blockDoc (BlockBody_Txs Body) s2 = Some (Ret (), s')" and "acts s2 = acts s"
    by (rule mine_block_steps[OF run])
  let ?tail = "whn (BlockInfo_Type info = BlockType_Sync \<and> BlockInfo_Height info mod 300 = 0) (refreshVariables E info blockDoc)"
  obtain s3 s4 where t: "each_from 0 (\<lambda>i tx. MinerTx E (of_nat i) info blockDoc tx) (BlockBody_Txs Body) s2 = Some (Ret (), s3)"
    and a: "insert_into E ''block'' (DBlock blockDoc) s3 = Some (Ret (), s4)" and r: "?tail s4 = Some (Ret (), s')"
    using i unfolding index_block_def sync_addBlock[OF sync] by (auto elim!: sq_RetE simp del: insert_into_run)
  have keep: "preserves (holds view t d P) ?tail" if "t = ''block'' \<or> t = ''tx''" for t d P
    by (intro preserves_intros mining.inv_refresh[OF holds_mining[OF st rk that, where T = BlockType_Sync]])
  have id: "Doc_Id blockDoc = base58 E (Block_Hash block)" "EsBlock_BlockNo blockDoc = block_height block"
    using c by (auto simp: ConvBlock_def block_height_def obnd_def split: option.splits outcome.splits)
  have "stored_block E view block s4"
    using insert_holds[OF st rel a] id by (auto simp: stored_block_def GetID_def elim!: holds_mono)
  then have "stored_block E view block s'" using preservesD[OF keep r] unfolding stored_block_def by blast
  moreover have "stored_tx E view tx (block_height block) s'" if tx: "tx \<in> set (BlockBody_Txs Body)" for tx
  proof -
    have "stored_tx E view tx (block_height block) s3" using mine_txs_stored[OF st rel rk sync t] tx id(2) by simp
    moreover have "preserves (stored_tx E view tx (block_height block)) (insert_into E ''block'' (DBlock blockDoc))"
      unfolding stored_tx_def by (rule holds_insert[OF st]) simp
    ultimately have "stored_tx E view tx (block_height block) s4"
      using preservesD[where m = "insert_into E ''block'' (DBlock blockDoc)", OF _ a] by blast
    then show ?thesis using preservesD[OF keep r] unfolding stored_tx_def by blast
  qed
  moreover from get_block_retry_given[OF b] obtain w w' where "GetBlock E (PutUint64 (BlockInfo_Height info)) w = (Inr block, w')"
    by (elim exE)
  ultimately show ?thesis using bd unfolding indexed_def by blast
qed

text \<open>And stays indexed while other blocks are mined: the id of a block stands for its height.\<close>

lemma mine_block_keeps:
  assumes st: "es_store E view" and rk: "reads_keep E view" and sync: "BlockInfo_Type info = BlockType_Sync"
    and oh: "one_height E" and tx: "txs \<longrightarrow> settled_txs E" and run: "mine_block E info s = Some (Ret (), s')"
    and h: "indexed E view txs h s"
  shows "indexed E view txs h s'"
proof -
  obtain block0 Body0 w0 w0' where g0: "GetBlock E (PutUint64 h) w0 = (Inr block0, w0')" and b0: "Block_Body block0 = Some Body0"
    and sb: "stored_block E view block0 s"
    and stx: "txs \<longrightarrow> (\<forall>tx \<in> set (BlockBody_Txs Body0). stored_tx E view tx (block_height block0) s)"
    using h unfolding indexed_def by (elim exE conjE)
  obtain block s1 Body k p blockDoc s2 where b: "get_block_retry E (PutUint64 (BlockInfo_Height info)) s = Some (Ret block, s1)"
    and pk: "getPeerId E k s1 = Some (Ret p, s2)" and bd: "Block_Body block = Some Body" and c: "ConvBlock E block p = Ret blockDoc"
    and i: "index_block E info blockDoc (BlockBody_Txs Body) s2 = Some (Ret (), s')" and "acts s2 = acts s"
    by (rule mine_block_steps[OF run])
  from get_block_retry_given[OF b] obtain w w' where g: "GetBlock E (PutUint64 (BlockInfo_Height info)) w = (Inr block, w')"
    by (elim exE)
  have id: "Doc_Id blockDoc = base58 E (Block_Hash block)" "EsBlock_BlockNo blockDoc = block_height block"
    using c by (auto simp: ConvBlock_def block_height_def obnd_def split: option.splits outcome.splits)
  have pass: "holds view t d P s'" if t: "t = ''block'' \<or> t = ''tx''" and "holds view t d P s"
    and tx: "\<And>tx x. t = ''tx'' \<Longrightarrow> tx \<in> set (BlockBody_Txs Body) \<Longrightarrow> base58 E (Tx_Hash tx) = d \<Longrightarrow> Doc_Id x = d \<Longrightarrow>
      EsTx_BlockNo x = block_height block \<Longrightarrow> P (EsTx_source x)"
    and bl: "t = ''block'' \<Longrightarrow> Doc_Id blockDoc = d \<Longrightarrow> P (EsBlock_source blockDoc)" for t d P
  proof -
    note m = holds_mining[OF st rk t, where T = BlockType_Sync]
    have "holds view t d P s1" by (rule preservesD[OF mining.inv_get_block[OF m] b that(2)])
    then have "holds view t d P s2" by (rule preservesD[OF mining.inv_getPeerId[OF m] pk])
    moreover have "preserves (holds view t d P) (each_from 0 (\<lambda>i tx. MinerTx E (of_nat i) info blockDoc tx) (BlockBody_Txs Body))"
      by (rule preserves_each_from, rule MinerTx_keeps[OF st rk sync t]) (use tx id(2) in auto)
    then have "preserves (holds view t d P) (index_block E info blockDoc (BlockBody_Txs Body))"
      unfolding index_block_def sync_addBlock[OF sync]
      by (intro preserves_sq preserves_whn mining.inv_refresh[OF m] holds_insert[OF st]) (use bl in \<open>auto simp: GetID_def\<close>)
    ultimately show ?thesis using i by (blast dest: preservesD)
  qed
  have "block_height block = block_height block0" if "base58 E (Block_Hash block) = base58 E (Block_Hash block0)"
    using oh g g0 that unfolding one_height_def by blast
  then have "stored_block E view block0 s'"
    using sb id unfolding stored_block_def by (intro pass) auto
  moreover have "stored_tx E view tx (block_height block0) s'" if "txs" "tx \<in> set (BlockBody_Txs Body0)" for tx
  proof -
    have "block_height block = block_height block0"
      if "tx' \<in> set (BlockBody_Txs Body)" "base58 E (Tx_Hash tx') = base58 E (Tx_Hash tx)" for tx'
      using tx \<open>txs\<close> g g0 bd b0 that \<open>tx \<in> set (BlockBody_Txs Body0)\<close> unfolding settled_txs_def by blast
    then show ?thesis using stx that unfolding stored_tx_def by (intro pass) auto
  qed
  ultimately show ?thesis unfolding indexed_def using g0 b0 by blast
qed

section \<open>Following the chain\<close>

text \<open>What the loop over the stream sends to its miner.\<close>

definition told :: "action list \<Rightarrow> BlockInfo list" where
  "told l = List.map_filter (\<lambda>a. case a of SendM info \<Rightarrow> Some info | _ \<Rightarrow> None) l"


end
