(* ===== verification/Follow.thy ===== *)
theory Follow
  imports Storage
begin

text \<open>
  Following the chain as a whole: what a rewind leaves in the database, and the loop over the stream together with
  the miner it feeds, in any interleaving. A store that deletes by query is the interface \<open>rolling_store\<close>.
\<close>

section \<open>A store that deletes ranges\<close>

definition in_range :: "string \<Rightarrow> int \<Rightarrow> int \<Rightarrow> source \<Rightarrow> bool option" where
  "in_range f a b src = (case map_of src f of Some (SNum n) \<Rightarrow> Some (a \<le> int n \<and> int n \<le> b) | _ \<Rightarrow> None)"

text \<open>A query by range says something of a document whose field is a number: outside the range it stays, inside it
  is gone when the request succeeds. No document of another index changes, and none appears.\<close>

locale rolling_store =
  fixes view :: "'w \<Rightarrow> string \<Rightarrow> string \<Rightarrow> source option"
    and delete :: "string \<Rightarrow> es_query \<Rightarrow> 'w \<Rightarrow> (go_error + int) \<times> 'w"
  assumes delete_frame: "i' \<noteq> i \<Longrightarrow> view (snd (delete i q w)) i' d = view w i' d"
    and delete_none: "view w i d = None \<Longrightarrow> view (snd (delete i q w)) i d = None"
    and delete_outside: "view w i d = Some src \<Longrightarrow> in_range f a b src = Some False \<Longrightarrow>
      view (snd (delete i (RangeQuery f (Some a) (Some b)) w)) i d = Some src"
    and delete_inside: "delete i (RangeQuery f (Some a) (Some b)) w = (Inr n, w') \<Longrightarrow> view w i d = Some src \<Longrightarrow>
      in_range f a b src = Some True \<Longrightarrow> view w' i d = None"
begin

abbreviation delete_in :: "string \<Rightarrow> int \<Rightarrow> int \<Rightarrow> 'w \<Rightarrow> string \<times> string \<Rightarrow> 'w" where
  "delete_in p a b w tf \<equiv> snd (delete (p @ fst tf) (RangeQuery (snd tf) (Some a) (Some b)) w)"

lemma deletes_frame: "\<forall>tf \<in> set ts. i \<noteq> p @ fst tf \<Longrightarrow> view (foldl (delete_in p a b) w ts) i d = view w i d"
  by (induction ts arbitrary: w) (simp_all add: delete_frame)

lemma deletes_none: "view w i d = None \<Longrightarrow> view (foldl (delete_in p a b) w ts) i d = None"
proof (induction ts arbitrary: w)
  case (Cons tf ts)
  have "view (delete_in p a b w tf) i d = None"
    using Cons.prems delete_frame[of i "p @ fst tf"] delete_none[of w i d] by (cases "i = p @ fst tf") auto
  with Cons.IH show ?case by simp
qed simp

lemma deletes_outside:
  assumes "view w i d = Some src" and "\<forall>tf \<in> set ts. i = p @ fst tf \<longrightarrow> in_range (snd tf) a b src = Some False"
  shows "view (foldl (delete_in p a b) w ts) i d = Some src"
  using assms
proof (induction ts arbitrary: w)
  case (Cons tf ts)
  have "view (delete_in p a b w tf) i d = Some src"
    using Cons.prems delete_frame[of i "p @ fst tf"] delete_outside[of w i d src] by (cases "i = p @ fst tf") auto
  with Cons.IH Cons.prems(2) show ?case by simp
qed simp

lemma deletes_inside:
  assumes ok: "\<And>i q w. \<exists>n. fst (delete i q w) = Inr n"
    and src: "view w (p @ t) d = Some src" "in_range f a b src = Some True" and "(t, f) \<in> set ts" and "distinct (map fst ts)"
  shows "view (foldl (delete_in p a b) w ts) (p @ t) d = None"
  using assms(2,4,5)
proof (induction ts arbitrary: w)
  case (Cons tf ts)
  show ?case
  proof (cases "tf = (t, f)")
    case True
    obtain n w' where "delete (p @ t) (RangeQuery f (Some a) (Some b)) w = (Inr n, w')"
      using ok[of "p @ t" "RangeQuery f (Some a) (Some b)" w] by (metis prod.collapse)
    with delete_inside[OF this Cons.prems(1) src(2)] True show ?thesis by (simp add: deletes_none)
  next
    case False
    then have "fst tf \<noteq> t" using Cons.prems(2,3) by (metis distinct.simps(2) image_eqI list.set_map list.simps(9) set_ConsD fst_conv)
    then have "view (delete_in p a b w tf) (p @ t) d = Some src" using Cons.prems(1) delete_frame[of "p @ t" "p @ fst tf"] by simp
    with Cons.IH Cons.prems(2,3) False show ?thesis by simp
  qed
qed simp

end

lemma in_range_hit: "in_range f a b src = Some x \<Longrightarrow> hit_by (RangeQuery f (Some a) (Some b)) d src = Some x"
  by (auto simp: in_range_def split: option.splits sval.splits)

text \<open>The database that deletes what a query takes is one.\<close>

sublocale elastic \<subseteq> rolls: rolling_store "\<lambda>w. db_docs (db w)" "es_DeleteByQuery E"
proof
  fix i q i' d and w :: 'w
  obtain n w' where q: "es_DeleteByQuery E i q w = (Inr n, w')" "removes i q (db w) (db w')" using delete_req by blast
  show "db_docs (db (snd (es_DeleteByQuery E i q w))) i' d = db_docs (db w) i' d" if "i' \<noteq> i"
    using q that by (simp add: removes_def)
  show "db_docs (db (snd (es_DeleteByQuery E i q w))) i d = None" if "db_docs (db w) i d = None"
    using q that by (simp add: removes_def)
next
  fix i d f a b src n and w w' :: 'w
  let ?q = "RangeQuery f (Some a) (Some b)"
  assume s: "db_docs (db w) i d = Some src"
  obtain m v where q: "es_DeleteByQuery E i ?q w = (Inr m, v)" "removes i ?q (db w) (db v)" using delete_req by blast
  show "db_docs (db (snd (es_DeleteByQuery E i ?q w))) i d = Some src" if "in_range f a b src = Some False"
    using q s in_range_hit[OF that, of d] by (simp add: removes_def)
  show "db_docs (db w') i d = None" if "es_DeleteByQuery E i ?q w = (Inr n, w')" and "in_range f a b src = Some True"
    using q s in_range_hit[OF that(2), of d] that(1) by (simp add: removes_def)
qed

section \<open>A rewind\<close>

lemma delete_world_foldl: "delete_world E ts p lo hi w = foldl (\<lambda>w tf. snd (es_DeleteByQuery E (p @ fst tf)
    (RangeQuery (snd tf) (Some (int (unat lo))) (Some (int (unat hi)))) w)) w ts"
  by (induction ts arbitrary: w) simp_all

lemma rollback_simps: "distinct (map fst rollback_types)"
  "in_range f (int lo) (int hi) src = Some x \<longleftrightarrow> (\<exists>k. map_of src f = Some (SNum k) \<and> x = (lo \<le> k \<and> k \<le> hi))"
  by (auto simp: rollback_types_def in_range_def split: option.splits sval.splits)

text \<open>C14: a block below the last height takes exactly the documents above it out of the six indices that are rolled
  back, as their number fields say, leaves every other document alone, and sets the last height; nothing is handed
  to the miner, the block itself included.\<close>

theorem stream_rewind:
  assumes rs: "rolling_store view (es_DeleteByQuery E)" and ok: "\<forall>i q w. \<exists>k. fst (es_DeleteByQuery E i q w) = Inr k"
    and b: "Block_Header b = Some h" "BlockHeader_BlockNo h = n" "n < lastHeight s" "lastHeight s - (n + 1) \<le> 1000"
  shows "\<exists>w'. SyncBlock E b s = Some (Ret (), s\<lparr>lastHeight := n, world := w'\<rparr>) \<and>
    (\<forall>(t, f) \<in> set rollback_types. \<forall>d src k. view (world s) (index_name s t) d = Some src \<and> map_of src f = Some (SNum k) \<longrightarrow>
      view w' (index_name s t) d = (if unat n < k \<and> k \<le> unat (lastHeight s) then None else Some src)) \<and>
    (\<forall>i d. view (world s) i d = None \<longrightarrow> view w' i d = None) \<and>
    (\<forall>i d. i \<notin> index_name s ` fst ` set rollback_types \<longrightarrow> view w' i d = view (world s) i d)"
proof (intro exI conjI ballI allI impI)
  let ?lo = "n + 1" and ?hi = "lastHeight s"
  let ?w = "delete_world E rollback_types (indexNamePrefix s) ?lo ?hi (world s)"
  have lo: "unat ?lo = Suc (unat n)" using uint64_inc[OF b(3)] by simp
  show "SyncBlock E b s = Some (Ret (), s\<lparr>lastHeight := n, world := ?w\<rparr>)"
    using SyncBlock_rewind[OF b(1-3)] b(4) by auto
  show "view (world s) i d = None \<Longrightarrow> view ?w i d = None" for i d
    unfolding delete_world_foldl by (rule rolling_store.deletes_none[OF rs])
  show "i \<notin> index_name s ` fst ` set rollback_types \<Longrightarrow> view ?w i d = view (world s) i d" for i d
    unfolding delete_world_foldl by (rule rolling_store.deletes_frame[OF rs]) (auto simp: index_name_def)
  fix tf assume tf: "tf \<in> set rollback_types"
  obtain t f where t: "tf = (t, f)" by (cases tf)
  have "view ?w (index_name s t) d = (if unat n < k \<and> k \<le> unat ?hi then None else Some src)"
    if v: "view (world s) (index_name s t) d = Some src" "map_of src f = Some (SNum k)" for d src k
  proof (cases "unat n < k \<and> k \<le> unat ?hi")
    case True
    then have "in_range f (int (unat ?lo)) (int (unat ?hi)) src = Some True"
      unfolding rollback_simps(2) lo using v(2) by simp
    from rolling_store.deletes_inside[OF rs ok[rule_format] v(1)[unfolded index_name_def] this tf[unfolded t] rollback_simps(1)]
    show ?thesis using True by (simp add: delete_world_foldl index_name_def)
  next
    case False
    then have "in_range f (int (unat ?lo)) (int (unat ?hi)) src = Some False"
      unfolding rollback_simps(2) lo using v(2) by auto
    moreover have "snd tf' = f" if "tf' \<in> set rollback_types" "fst tf' = t" for tf'
      using tf t that by (auto simp: rollback_types_def)
    ultimately have "\<forall>tf' \<in> set rollback_types. index_name s t = indexNamePrefix s @ fst tf' \<longrightarrow>
        in_range (snd tf') (int (unat ?lo)) (int (unat ?hi)) src = Some False" by (auto simp: index_name_def)
    from rolling_store.deletes_outside[OF rs v(1) this] False show ?thesis unfolding delete_world_foldl by simp
  qed
  then show "case tf of (t, f) \<Rightarrow> \<forall>d src k. view (world s) (index_name s t) d = Some src \<and> map_of src f = Some (SNum k) \<longrightarrow>
      view ?w (index_name s t) d = (if unat n < k \<and> k \<le> unat (lastHeight s) then None else Some src)" using t by simp
qed

theorem stream_rewind_witness:
  "\<exists>w'. SyncBlock mem_env (sample_block 3 []) ((sample_indexer (indexed_world [4, 2]))\<lparr>lastHeight := 5\<rparr>) =
      Some (Ret (), (sample_indexer (indexed_world [4, 2]))\<lparr>lastHeight := 3, world := w'\<rparr>) \<and>
    mem_view w' ''p_block'' ''4'' = None \<and> mem_view w' ''p_block'' ''2'' = Some (EsBlock_source (block_doc ''2'' 2))"
proof -
  let ?s = "(sample_indexer (indexed_world [4, 2]))\<lparr>lastHeight := 5\<rparr>"
  have rs: "rolling_store mem_view (es_DeleteByQuery mem_env)" using mem.rolls.rolling_store_axioms by simp
  have ok: "\<forall>i q w. \<exists>k. fst (es_DeleteByQuery mem_env i q w) = Inr k" by (simp add: mem_env_def mem_delete_def)
  have b: "Block_Header (sample_block 3 []) = Some (sample_header 3)" "BlockHeader_BlockNo (sample_header 3) = 3"
    "3 < lastHeight ?s" "lastHeight ?s - (3 + 1) \<le> 1000" by (simp_all add: sample_block_def sample_header_def)
  obtain w' where run: "SyncBlock mem_env (sample_block 3 []) ?s = Some (Ret (), ?s\<lparr>lastHeight := 3, world := w'\<rparr>)"
    and del: "\<forall>(t, f) \<in> set rollback_types. \<forall>d src k. mem_view (world ?s) (index_name ?s t) d = Some src \<and> map_of src f = Some (SNum k) \<longrightarrow>
      mem_view w' (index_name ?s t) d = (if unat (3 :: uint64) < k \<and> k \<le> unat (lastHeight ?s) then None else Some src)"
    using stream_rewind[OF rs ok b] by (elim exE conjE)
  have "(''block'', ''no'') \<in> set rollback_types" by (simp add: rollback_types_def)
  moreover have "index_name ?s t = ''p_'' @ t" for t by (simp add: index_name_def sample_indexer_def)
  ultimately have "mem_view (world ?s) ''p_block'' d = Some src \<Longrightarrow> map_of src ''no'' = Some (SNum k) \<Longrightarrow>
      mem_view w' ''p_block'' d = (if 3 < k \<and> k \<le> 5 then None else Some src)" for d src k using del by fastforce
  note d = this[of "''4''" "EsBlock_source (block_doc ''4'' 4)" 4] this[of "''2''" "EsBlock_source (block_doc ''2'' 2)" 2]
  have "mem_view w' ''p_block'' ''4'' = None \<and> mem_view w' ''p_block'' ''2'' = Some (EsBlock_source (block_doc ''2'' 2))"
    using d by (simp add: mem_view_def indexed_world_def EsBlock_source_def block_doc_def show_nat.simps digit_char_def)
  with run show ?thesis by auto
qed

section \<open>A block of the stream\<close>

lemma best_from_db: "\<exists>r q srt. GetBestBlockFromDb E s = Some (Ret r, s\<lparr>world := snd (es_Search E (index_name s ''block'') q srt 1 (world s))\<rparr>)"
proof -
  obtain q srt where w: "\<forall>w. snd (SelectOne E (best_block_params (index_name s ''block'')) EsBlock_decode w) =
      snd (es_Search E (index_name s ''block'') q srt 1 w)"
    using SelectOne_world[of E "best_block_params (index_name s ''block'')" EsBlock_decode]
    by (auto simp: best_block_params_def zeroQueryParams_def)
  obtain r w' where "SelectOne E (best_block_params (index_name s ''block'')) EsBlock_decode (world s) = (r, w')" by fastforce
  with w[rule_format, of "world s"] show ?thesis by (auto simp: GetBestBlockFromDb_def)
qed

lemma sleep_loop_acts:
  assumes "sleep_loop E c s = Some y"
  shows "acts (snd y) = acts s"
proof (rule sleep_loop.raw_induct[where P = "\<lambda>E c s y. acts (snd y) = acts s", OF _ assms])
  fix f and E :: "'a env" and c s y
  assume IH: "\<And>E c s y. f E c s = Some y \<Longrightarrow> acts (snd y) = acts s"
    and run: "sq (Sleep E (5 * Second)) (bnd (GetBestBlockFromDb E) (\<lambda>r s. case r of Inl x \<Rightarrow> f E c s
      | Inr b \<Rightarrow> if b \<le> c then upd (lastHeight_update (\<lambda>_. b)) s else f E b s)) s = Some y"
  obtain r w where g: "GetBestBlockFromDb E (s\<lparr>world := clock_Sleep E (5 * Second) (world s)\<rparr>) = Some (Ret r, s\<lparr>world := w\<rparr>)"
    using best_from_db[of E "s\<lparr>world := clock_Sleep E (5 * Second) (world s)\<rparr>"] by auto
  from run have "(case r of Inl x \<Rightarrow> f E c (s\<lparr>world := w\<rparr>)
      | Inr b \<Rightarrow> if b \<le> c then upd (lastHeight_update (\<lambda>_. b)) (s\<lparr>world := w\<rparr>) else f E b (s\<lparr>world := w\<rparr>)) = Some y"
    by (simp add: sq_Ret[OF Sleep_run] bnd_Ret[where m = "GetBestBlockFromDb E", OF g])
  then show "acts (snd y) = acts s" by (auto split: sum.splits if_splits dest!: IH)
qed

text \<open>What a block that is not a rewind does when the stream does not go to sleep: the heights up to its own are handed
  to the miner; no document changes.\<close>

lemma SyncBlock_awake:
  assumes rk: "reads_keep E view" and run: "SyncBlock E b s = Some (Ret (), s')" and b: "Block_Header b = Some h"
    and n: "BlockHeader_BlockNo h = n" "\<not> n < lastHeight s" and l: "acts s' = acts s @ l" "GoDrainStream \<notin> set l"
  shows "lastHeight s' = n \<and> indexNamePrefix s' = indexNamePrefix s \<and> view (world s') = view (world s) \<and>
    (\<forall>info \<in> set (told l). BlockInfo_Type info = BlockType_Sync) \<and>
    (\<forall>k. lastHeight s < k \<and> k \<le> n \<longrightarrow> sync_block k \<in> set (told l))"
proof -
  let ?gap = "whn (n > lastHeight s + 1) (send_up (lastHeight s + 1) n)"
  define up where "up = map (\<lambda>h. SendM (sync_block (of_nat h)))
    (if n > lastHeight s + 1 then [unat (lastHeight s + 1)..<unat n] else [])"
  have "?gap s = Some (Ret (), s\<lparr>acts := acts s @ up\<rparr>)" by (simp add: send_up_run up_def)
  note gap = sq_Ret[where m = "?gap", OF this]
  obtain t w where c: "clock_Now E (world s) = (t, w)" by fastforce
  let ?s2 = "s\<lparr>acts := acts s @ up, world := w\<rparr>"
  have "view (snd (clock_Now E (world s))) = view (world s)" using rk by (simp add: reads_keep_def reads_def)
  then have v2: "view w = view (world s)" using c by simp
  have sn: "\<exists>s3. send_new n s2 = Some (Ret (), s3) \<and> acts s3 = acts s2 @ [SendM (sync_block n)] \<and> lastHeight s3 = n \<and>
      indexNamePrefix s3 = indexNamePrefix s2 \<and> world s3 = world s2" for s2 :: "'a Indexer"
    by (simp add: send_new_def)
  have result: "\<exists>s2. send_new n s2 = Some (Ret (), s') \<and> acts s2 = acts s @ up \<and> indexNamePrefix s2 = indexNamePrefix s \<and>
      view (world s2) = view (world s)"
  proof (cases "t mod 10 = 0")
    case False
    have "send_new n ?s2 = Some (Ret (), s')" using run b n c False by (simp add: SyncBlock_def gap now_def)
    then show ?thesis using v2 by (intro exI[of _ ?s2]) simp
  next
    case True
    let ?s3 = "s\<lparr>acts := acts s @ up, world := clock_Sleep E Second w\<rparr>"
    obtain r w4 where g: "GetBestBlockFromDb E ?s3 = Some (Ret r, s\<lparr>acts := acts s @ up, world := w4\<rparr>)"
      and v4: "view w4 = view (world s)"
      using best_from_db[of E ?s3] rk v2 by (auto simp: reads_keep_def reads_def)
    let ?s4 = "s\<lparr>acts := acts s @ up, world := w4\<rparr>"
    have r: "(case r of Inl _ \<Rightarrow> send_new n | Inr Best \<Rightarrow> if Best \<ge> n then sleepStream E n else send_new n) ?s4 = Some (Ret (), s')"
      using run b n c True
      by (cases r) (simp_all add: SyncBlock_def gap now_def sq_Ret[OF Sleep_run] bnd_Ret[where m = "GetBestBlockFromDb E", OF g])
    have "\<not> (\<exists>Best. r = Inr Best \<and> Best \<ge> n)"
    proof
      assume "\<exists>Best. r = Inr Best \<and> Best \<ge> n"
      then have "sleepStream E n ?s4 = Some (Ret (), s')" using r by auto
      then have "sleep_loop E n (s\<lparr>world := w4, acts := acts s @ up @ [GoDrainStream]\<rparr>) = Some (Ret (), s')"
        by (simp add: sleepStream_def)
      from sleep_loop_acts[OF this] have "acts s' = acts s @ up @ [GoDrainStream]" by simp
      then show False using l by auto
    qed
    then have "send_new n ?s4 = Some (Ret (), s')" using r by (auto split: sum.splits if_splits)
    then show ?thesis using v4 by (intro exI[of _ ?s4]) simp
  qed
  then obtain s2 where s2: "send_new n s2 = Some (Ret (), s')" "acts s2 = acts s @ up" "indexNamePrefix s2 = indexNamePrefix s"
    "view (world s2) = view (world s)" by (elim exE conjE)
  from sn[of s2] s2 have l: "l = up @ [SendM (sync_block n)]" and rest: "lastHeight s' = n" "indexNamePrefix s' = indexNamePrefix s"
    "view (world s') = view (world s)" using l(1) by auto
  have t: "told l = map (\<lambda>h. sync_block (of_nat h)) (if n > lastHeight s + 1 then [unat (lastHeight s + 1)..<unat n] else []) @ [sync_block n]"
    unfolding l up_def by (simp add: told_def List.map_filter_def comp_def)
  have "sync_block k \<in> set (told l)" if k: "lastHeight s < k" "k \<le> n" for k
  proof (cases "k = n")
    case False
    then have kn: "unat k < unat n" using k(2) by (simp add: unat_mono)
    have i: "unat (lastHeight s + 1) = Suc (unat (lastHeight s))" using uint64_inc[OF k(1)] by simp
    have "unat (lastHeight s) < unat k" using k(1) by (rule unat_mono)
    with kn i have k: "unat k \<in> set [unat (lastHeight s + 1)..<unat n]" "n > lastHeight s + 1" by (auto simp: word_less_nat_alt)
    then have "sync_block (of_nat (unat k)) \<in> set (map (\<lambda>h. sync_block (of_nat h)) [unat (lastHeight s + 1)..<unat n])"
      unfolding set_map by (intro imageI)
    then show ?thesis unfolding t using k(2) by simp
  qed (simp add: t)
  moreover have "\<forall>info \<in> set (told l). BlockInfo_Type info = BlockType_Sync" unfolding t by (auto simp: sync_block_def split: if_splits)
  ultimately show ?thesis using rest by blast
qed

section \<open>The stream and its miner\<close>

text \<open>The loop over the stream and the miner it feeds run concurrently on the indexer and its database. The state is the
  indexer with the blocks that were handed to the miner and are not mined yet; a block of the stream is followed without
  going to sleep, or the miner finishes the next block that waits.\<close>

inductive stream_step :: "'e env \<Rightarrow> 'e Indexer \<times> BlockInfo list \<Rightarrow> 'e Indexer \<times> BlockInfo list \<Rightarrow> bool" for E :: "'e env" where
  follow: "SyncBlock E b s = Some (Ret (), s') \<Longrightarrow> acts s' = acts s @ l \<Longrightarrow> GoDrainStream \<notin> set l \<Longrightarrow>
    stream_step E (s, q) (s', q @ told l)"
| mine: "mine_block E info s = Some (Ret (), s') \<Longrightarrow> stream_step E (s, info # q) (s', q)"

text \<open>Mining leaves the last height alone.\<close>

lemma mine_block_lastHeight: "mine_block E info s = Some (Ret (), s') \<Longrightarrow> lastHeight s' = lastHeight s"
  using preservesD[OF height.inv_mine_block[OF refl], of E info s "Ret ()" s' "lastHeight s"] by simp

lemma indexed_cong: "view (world s') = view (world s) \<Longrightarrow> indexNamePrefix s' = indexNamePrefix s \<Longrightarrow> indexed E view txs h s' = indexed E view txs h s"
  by (simp add: indexed_def stored_block_def stored_tx_def holds_def index_name_def)

lemma indexed_rewind:
  assumes rs: "rolling_store view (es_DeleteByQuery E)" and th: "tells_heights E" and i: "indexed E view txs h s"
    and h: "h \<le> n" "n < lastHeight s" and s': "indexNamePrefix s' = indexNamePrefix s"
    "view (world s') = view (delete_world E rollback_types (indexNamePrefix s) (n + 1) (lastHeight s) (world s))"
  shows "indexed E view txs h s'"
proof -
  have lo: "unat (n + 1) = Suc (unat n)" using uint64_inc[OF h(2)] by simp
  have keep: "holds view t d P s'" if t: "(t, f) \<in> {(''block'', ''no''), (''tx'', ''blockno'')}" and hd: "holds view t d P s"
    and P: "\<And>src. P src \<Longrightarrow> map_of src f = Some (SNum (unat h))" for t f d P
  proof -
    obtain src where src: "view (world s) (index_name s t) d = Some src" "P src" using hd by (auto simp: holds_def)
    have "in_range f (int (unat (n + 1))) (int (unat (lastHeight s))) src = Some False"
      unfolding rollback_simps(2) lo using P[OF src(2)] h(1) by (auto simp: word_le_nat_alt)
    moreover have "snd tf = f" if "tf \<in> set rollback_types" "fst tf = t" for tf using t that by (auto simp: rollback_types_def)
    ultimately have "\<forall>tf \<in> set rollback_types. index_name s t = indexNamePrefix s @ fst tf \<longrightarrow>
        in_range (snd tf) (int (unat (n + 1))) (int (unat (lastHeight s))) src = Some False" by (auto simp: index_name_def)
    from rolling_store.deletes_outside[OF rs src(1) this] show ?thesis
      using src(2) s' by (auto simp: holds_def delete_world_foldl index_name_def)
  qed
  obtain block Body w w' where g: "GetBlock E (PutUint64 h) w = (Inr block, w')" "Block_Body block = Some Body"
    and sb: "stored_block E view block s"
    and tx: "txs \<longrightarrow> (\<forall>tx \<in> set (BlockBody_Txs Body). stored_tx E view tx (block_height block) s)"
    using i unfolding indexed_def by (elim exE conjE)
  have bh: "block_height block = h" using th g(1) by (auto simp: tells_heights_def)
  have "stored_block E view block s'"
    using sb unfolding stored_block_def by (rule keep[where f = "''no''", rotated]) (auto simp: bh EsBlock_source_def)
  moreover have "txs \<longrightarrow> (\<forall>tx \<in> set (BlockBody_Txs Body). stored_tx E view tx (block_height block) s')"
    using tx unfolding stored_tx_def
    by (auto intro!: keep[where t = "''tx''" and f = "''blockno''"] simp: bh EsTx_source_def)
  ultimately show ?thesis unfolding indexed_def using g by blast
qed

text \<open>What holds in every state: what waits is of the stream, and every height followed so far waits or is indexed.\<close>

definition follows :: "'e env \<Rightarrow> ('e \<Rightarrow> string \<Rightarrow> string \<Rightarrow> source option) \<Rightarrow> bool \<Rightarrow> uint64 \<Rightarrow> 'e Indexer \<times> BlockInfo list \<Rightarrow> bool" where
  "follows E view txs start x \<longleftrightarrow> (\<forall>info \<in> set (snd x). BlockInfo_Type info = BlockType_Sync) \<and>
     (\<forall>h. start < h \<and> h \<le> lastHeight (fst x) \<longrightarrow> sync_block h \<in> set (snd x) \<or> indexed E view txs h (fst x))"

lemma sync_info: "BlockInfo_Type info = BlockType_Sync \<Longrightarrow> info = sync_block (BlockInfo_Height info)"
  by (cases info) (simp add: sync_block_def)

lemma follows_step:
  assumes st: "es_store E view" and rel: "reliable E" and rk: "reads_keep E view" and rs: "rolling_store view (es_DeleteByQuery E)"
    and oh: "one_height E" and th: "tells_heights E" and tx: "txs \<longrightarrow> settled_txs E"
    and inv: "follows E view txs start x" and step: "stream_step E x y"
  shows "follows E view txs start y"
  using step
proof cases
  case (follow b s s' l q)
  obtain h where b: "Block_Header b = Some h" using follow(3) by (cases "Block_Header b") (simp_all add: SyncBlock_def)
  let ?n = "BlockHeader_BlockNo h"
  have typed: "\<forall>info \<in> set q. BlockInfo_Type info = BlockType_Sync"
    and old: "\<And>k. start < k \<Longrightarrow> k \<le> lastHeight s \<Longrightarrow> sync_block k \<in> set q \<or> indexed E view txs k s"
    using inv follow(1) by (auto simp: follows_def)
  show ?thesis
  proof (cases "?n < lastHeight s")
    case True
    from SyncBlock_rewind[OF b refl True, of E] obtain s1 where s1: "s1 = (if lastHeight s - (?n + 1) > 1000 then closed E s else s)"
      and "SyncBlock E b s = Some (Ret (), s1\<lparr>lastHeight := ?n,
        world := delete_world E rollback_types (indexNamePrefix s) (?n + 1) (lastHeight s) (world s1)\<rparr>)" by (elim exE conjE)
    then have s': "s' = s1\<lparr>lastHeight := ?n,
        world := delete_world E rollback_types (indexNamePrefix s) (?n + 1) (lastHeight s) (world s1)\<rparr>" using follow(3) by simp
    have v1: "view (world s1) = view (world s)" "indexNamePrefix s1 = indexNamePrefix s" "lastHeight s1 = lastHeight s" "acts s1 = acts s"
      using rk by (auto simp: s1 closed_def reads_keep_def split: option.splits)
    have "l = []" using follow(4) s' v1(4) by simp
    moreover have "indexed E view txs k s'" if "indexed E view txs k s" "k \<le> ?n" for k
    proof (rule indexed_rewind[OF rs th])
      show "indexed E view txs k s1" using that(1) indexed_cong[OF v1(1,2)] by simp
    qed (use that(2) True s' v1 in auto)
    moreover have "k \<le> lastHeight s" if "k \<le> ?n" for k using that True by (rule order.trans[OF _ less_imp_le])
    ultimately have "sync_block k \<in> set q \<or> indexed E view txs k s'" if "start < k" "k \<le> ?n" for k using old that by blast
    moreover have "lastHeight s' = ?n" "told l = []" using s' \<open>l = []\<close> by (simp_all add: told_def List.map_filter_def)
    ultimately show ?thesis using typed by (simp add: follows_def follow(2))
  next
    case False
    from SyncBlock_awake[OF rk follow(3) b refl False follow(4,5)]
    have a: "lastHeight s' = ?n" "indexNamePrefix s' = indexNamePrefix s" "view (world s') = view (world s)"
      "\<forall>info \<in> set (told l). BlockInfo_Type info = BlockType_Sync"
      "\<forall>k. lastHeight s < k \<and> k \<le> ?n \<longrightarrow> sync_block k \<in> set (told l)" by blast+
    have "sync_block k \<in> set (q @ told l) \<or> indexed E view txs k s'" if "start < k" "k \<le> ?n" for k
      using old[OF that(1)] a(5) that(2) indexed_cong[OF a(3,2)] by (cases "k \<le> lastHeight s") auto
    then show ?thesis using typed a(1,4) by (auto simp: follows_def follow(2))
  qed
next
  case (mine info s s' q)
  have sync: "BlockInfo_Type info = BlockType_Sync" using inv mine(1) by (simp add: follows_def)
  note keep = mine_block_keeps[OF st rk sync oh tx mine(3)]
  have new: "indexed E view txs (BlockInfo_Height info) s'" by (rule mine_block_indexed[OF st rel rk sync mine(3)])
  have "sync_block k \<in> set q \<or> indexed E view txs k s'" if "start < k" "k \<le> lastHeight s'" for k
  proof -
    have "sync_block k \<in> set (info # q) \<or> indexed E view txs k s"
      using inv that mine_block_lastHeight[OF mine(3)] by (simp add: follows_def mine(1))
    then consider "sync_block k = info" | "sync_block k \<in> set q" | "indexed E view txs k s" by auto
    then show ?thesis
    proof cases
      case 1
      then have "BlockInfo_Height info = k" by (auto simp: sync_block_def)
      with new show ?thesis by simp
    qed (simp_all add: keep)
  qed
  then show ?thesis using inv by (auto simp: follows_def mine(1,2))
qed


text \<open>A node that has a block with one transfer at every height, under the key it is asked for.\<close>

definition chain_tx :: "string \<Rightarrow> Tx" where
  "chain_tx q = sample_tx\<lparr>Tx_Hash := Some q\<rparr>"

definition chain_block :: "string \<Rightarrow> Block" where
  "chain_block q = (sample_block (of_nat (read_hash q)) [chain_tx q])\<lparr>Block_Hash := Some q\<rparr>"

definition chain_env :: "mem env" where
  "chain_env = mem_env\<lparr>clock_Now := \<lambda>w. (5, w), rpc_GetBlock := \<lambda>q w. (Inr (chain_block q), w)\<rparr>"

lemma chain_block_simps [simp]:
  "Block_Header (chain_block q) = Some (sample_header (of_nat (read_hash q)))"
  "Block_Body (chain_block q) = Some \<lparr>BlockBody_Txs = [chain_tx q]\<rparr>" "Block_Hash (chain_block q) = Some q"
  by (simp_all add: chain_block_def sample_block_def)

lemma chain_store: "es_store chain_env mem_view" "reliable chain_env" "reads_keep chain_env mem_view"
    "rolling_store mem_view (es_DeleteByQuery chain_env)" "one_height chain_env" "tells_heights chain_env" "settled_txs chain_env"
proof -
  show "es_store chain_env mem_view" using mem_store by (simp add: es_store_def chain_env_def)
  show "reliable chain_env" using reliable_mem by (simp add: reliable_def chain_env_def)
  have m: "mem_view (w\<lparr>m_time := t\<rparr>) = mem_view w" for w t by (simp add: fun_eq_iff mem_view_def)
  show "reads_keep chain_env mem_view"
    by (simp add: reads_keep_def reads_def chain_env_def mem_env_def mem_search_def mem_scroll_def m Let_def)
  show "rolling_store mem_view (es_DeleteByQuery chain_env)"
    using mem.rolls.rolling_store_axioms by (simp add: chain_env_def mem_env_def)
  show "one_height chain_env"
    by (simp add: one_height_def GetBlock_def chain_env_def base58_def mem_env_def block_height_def)
  show "tells_heights chain_env"
    by (simp add: tells_heights_def GetBlock_def chain_env_def block_height_def sample_header_def read_PutUint64)
  show "settled_txs chain_env"
    by (auto simp: settled_txs_def GetBlock_def chain_env_def base58_def mem_env_def block_height_def chain_tx_def)
qed

lemma chain_tx_mined:
  assumes sync: "BlockInfo_Type info = BlockType_Sync"
  shows "\<exists>s'. MinerTx chain_env i info bd (chain_tx q) s = Some (Ret (), s')"
proof -
  have b: "Tx_Body (chain_tx q) = Some sample_body" by (simp add: chain_tx_def sample_tx_def)
  obtain d c n where d: "ConvTx chain_env i (chain_tx q) (receipt_of chain_env (chain_tx q) (world s)) bd = Ret d"
    and c: "DetectTxCategory chain_env (chain_tx q) = Ret (c, n)" "EsTx_Category d = c"
    by (rule ConvTx_Ret[OF b])
  have "\<exists>n. DetectTxCategory chain_env (chain_tx q) = Ret (TxTransfer, n)"
    by (simp add: DetectTxCategory_body[OF b] plain_transfer[OF b] sample_body_def TxType_defs)
  then have "EsTx_Category d = TxTransfer" using c by auto
  then show ?thesis
    unfolding MinerTx_unfold[OF d] sync_addTx[OF sync]
    by (simp add: deferred_def tx_body_def tx_contracts_def category_defs GetBody_def GetType_def b sample_body_def TxType_defs
        storeBalance_def)
qed

lemma chain_mined:
  assumes sync: "BlockInfo_Type info = BlockType_Sync" and h: "BlockInfo_Height info mod 300 \<noteq> 0"
  shows "\<exists>s'. mine_block chain_env info s = Some (Ret (), s')"
proof -
  let ?q = "PutUint64 (BlockInfo_Height info)"
  let ?b = "chain_block ?q"
  let ?k = "BlockHeader_PubKey (sample_header (of_nat (read_hash ?q)))"
  have g: "get_block_retry chain_env ?q s = Some (Ret ?b, s)"
    by (subst get_block_retry.simps) (simp add: GetBlock_def chain_env_def)
  obtain p s1 where p: "getPeerId chain_env ?k s = Some (Ret p, s1)"
    by (cases "map_of (peerId s) (bytes_of ?k)") (simp_all add: getPeerId_def Let_def)
  obtain bd where bd: "ConvBlock chain_env ?b p = Ret bd" by (simp add: ConvBlock_def)
  obtain s2 where t: "MinerTx chain_env 0 info bd (chain_tx ?q) s1 = Some (Ret (), s2)"
    using chain_tx_mined[OF sync, of 0 bd ?q s1] by (elim exE)
  have "\<exists>s'. index_block chain_env info bd [chain_tx ?q] s1 = Some (Ret (), s')"
    unfolding index_block_def sync_addBlock[OF sync] using h
    by (simp add: sq_assoc sq_Ret[where m = "MinerTx chain_env 0 info bd (chain_tx ?q)", OF t] sq_Ret[OF insert_into_run])
  then show ?thesis
    by (simp add: mine_block_def bnd_Ret[where m = "get_block_retry chain_env ?q", OF g]
        bnd_Ret[where m = "getPeerId chain_env ?k", OF p] bd)
qed

lemma chain_forward:
  assumes "lastHeight s < n"
  shows "\<exists>s'. stream_step chain_env (s, q) (s', q @ map (\<lambda>h. sync_block (of_nat h)) [Suc (unat (lastHeight s))..<Suc (unat n)]) \<and>
    lastHeight s' = n"
proof -
  let ?l = "map (\<lambda>h. SendM (sync_block (of_nat h))) [Suc (unat (lastHeight s))..<Suc (unat n)]"
  let ?s' = "s\<lparr>acts := acts s @ ?l, world := world s, lastHeight := n\<rparr>"
  have "Block_Header (sample_block n []) = Some (sample_header n)" "BlockHeader_BlockNo (sample_header n) = n"
    by (simp_all add: sample_block_def sample_header_def)
  from SyncBlock_forward[OF this assms, of chain_env] have "SyncBlock chain_env (sample_block n []) s = Some (Ret (), ?s')"
    by (simp add: chain_env_def del: upt_Suc)
  from stream_step.follow[OF this, of ?l q] have "stream_step chain_env (s, q) (?s', q @ told ?l)" by (auto simp del: upt_Suc)
  moreover have "told ?l = map (\<lambda>h. sync_block (of_nat h)) [Suc (unat (lastHeight s))..<Suc (unat n)]"
    by (simp add: told_def List.map_filter_def comp_def del: upt_Suc)
  ultimately show ?thesis by (intro exI[of _ ?s']) simp
qed

lemma chain_back:
  assumes "n < lastHeight s" and "lastHeight s - (n + 1) \<le> 1000"
  shows "\<exists>s'. stream_step chain_env (s, q) (s', q) \<and> lastHeight s' = n"
proof -
  have h: "Block_Header (sample_block n []) = Some (sample_header n)" "BlockHeader_BlockNo (sample_header n) = n"
    by (simp_all add: sample_block_def sample_header_def)
  let ?s' = "s\<lparr>lastHeight := n, world := delete_world chain_env rollback_types (indexNamePrefix s) (n + 1) (lastHeight s) (world s)\<rparr>"
  have "SyncBlock chain_env (sample_block n []) s = Some (Ret (), ?s')"
    using SyncBlock_rewind[OF h assms(1), of chain_env] assms(2) by auto
  from stream_step.follow[OF this, of "[]" q] show ?thesis by (intro exI[of _ ?s']) (simp add: told_def List.map_filter_def)
qed

lemma chain_mine:
  assumes "h mod 300 \<noteq> 0"
  shows "\<exists>s'. stream_step chain_env (s, sync_block h # q) (s', q) \<and> lastHeight s' = lastHeight s"
proof -
  obtain s' where m: "mine_block chain_env (sync_block h) s = Some (Ret (), s')"
    using chain_mined[of "sync_block h" s] assms by (auto simp: sync_block_def)
  from stream_step.mine[OF this] mine_block_lastHeight[OF m] show ?thesis by blast
qed


text \<open>A block that waits when a rewind comes is mined afterwards: the database then has a block above the last height.\<close>

lemma mined_after_rewind:
  "\<exists>s'. (stream_step chain_env)\<^sup>*\<^sup>* (sample_indexer empty_mem, []) (s', []) \<and> lastHeight s' = 1 \<and> indexed chain_env mem_view True 2 s'"
proof -
  let ?s = "sample_indexer empty_mem"
  have up: "[Suc 0..<3] = [1, 2]" by (simp add: upt_rec)
  obtain s1 where 1: "stream_step chain_env (?s, []) (s1, [sync_block 1, sync_block 2])" "lastHeight s1 = 2"
    using chain_forward[of ?s 2 "[]"] by (auto simp: up simp del: upt_Suc)
  obtain s2 where 2: "stream_step chain_env (s1, [sync_block 1, sync_block 2]) (s2, [sync_block 2])" "lastHeight s2 = 2"
    using chain_mine[of 1 s1 "[sync_block 2]"] 1(2) by auto
  obtain s3 where 3: "stream_step chain_env (s2, [sync_block 2]) (s3, [sync_block 2])" "lastHeight s3 = 1"
    using chain_back[of 1 s2 "[sync_block 2]"] 2(2) by auto
  have sync: "BlockInfo_Type (sync_block 2) = BlockType_Sync" by (simp add: sync_block_def)
  obtain s4 where m: "mine_block chain_env (sync_block 2) s3 = Some (Ret (), s4)"
    using chain_mined[OF sync] by (auto simp: sync_block_def)
  from mine_block_indexed[OF chain_store(1-3) sync m] have "indexed chain_env mem_view True 2 s4" by (simp add: sync_block_def)
  moreover have "(stream_step chain_env)\<^sup>*\<^sup>* (?s, []) (s4, [])"
    using 1(1) 2(1) 3(1) stream_step.mine[OF m] by (meson converse_rtranclp_into_rtranclp rtranclp.rtrancl_refl)
  ultimately show ?thesis using mine_block_lastHeight[OF m] 3(2) by auto
qed

end
