(* ===== verification/Marks.thy ===== *)
theory Marks
  imports Follow
begin

text \<open>
  Partial updates of documents of an index as marks on the documents: the verification of tokens and of contracts
  changes some members of a document that is there. The index is a map from ids to documents, the update is a
  function on the document.
\<close>

locale marked_index =
  fixes t :: string
    and decode :: "source \<Rightarrow> 'd BaseEsType_scheme option"
    and change :: "'u BaseEsType_scheme \<Rightarrow> doc"
    and mark :: "'u BaseEsType_scheme \<Rightarrow> 'd BaseEsType_scheme \<Rightarrow> 'd BaseEsType_scheme"
  assumes change_id: "doc_GetID (change u) = Doc_Id u"
    and merged: "decode src = Some k \<Longrightarrow> decode (merge_source (Some src) (doc_source (change u))) = Some (mark u k)"
    and mark_id: "SetID i (mark u k) = mark u (SetID i k)"
begin

text \<open>An update of a document that is there sets the mark in the map, and leaves every index else alone.\<close>

lemma mark_stored:
  assumes st: "es_store E view" and rel: "reliable E" and k: "stored decode view (index_name s t) (world s) (Doc_Id u) = Some k"
    and rd: "readable decode view (index_name s t) (world s)"
  obtains s' where "update_in E t (change u) s = Some (Ret (), s')" "indexNamePrefix s' = indexNamePrefix s"
    "readable decode view (index_name s t) (world s')"
    "stored decode view (index_name s t) (world s') = (stored decode view (index_name s t) (world s))(Doc_Id u \<mapsto> mark u k)"
proof -
  let ?i = "index_name s t" and ?new = "doc_source (change u)"
  obtain src k0 where src: "view (world s) ?i (Doc_Id u) = Some src" "decode src = Some k0" "k = SetID (Doc_Id u) k0"
    using k by (auto simp: stored_def split: option.splits)
  obtain w where u: "es_Update E ?i (Doc_Id u) ?new (world s) = (None, w)"
    using rel by (auto simp: reliable_def prod_eq_iff)
  have v: "view w ?i (Doc_Id u) = Some (merge_source (Some src) ?new)"
    using document_store.update_ok[OF st[unfolded es_store_def] u] src(1) by simp
  have fr: "view w ?i d = view (world s) ?i d" if "d \<noteq> Doc_Id u" for d
    using es_store_update_frame[OF st, of ?i ?i d "Doc_Id u" ?new "world s"] that u by simp
  have run: "update_in E t (change u) s = Some (Ret (), s\<lparr>world := w\<rparr>)"
    using u by (simp add: update_in_def logged_def Update_def change_id ext_def bnd_def)
  have "readable decode view ?i w"
    using rd fr v merged[OF src(2), of u] unfolding readable_def by (metis option.distinct(1) option.inject)
  moreover have "stored decode view ?i w = (stored decode view ?i (world s))(Doc_Id u \<mapsto> mark u k)"
    using v fr merged[OF src(2), of u] src(3) by (auto simp: stored_def fun_eq_iff mark_id)
  ultimately show thesis using that[OF run] by simp
qed

text \<open>Reading a document changes nothing.\<close>

lemma doc_read:
  assumes "es_store E view" and "reliable E" and "readable decode view (index_name s t) (world s)"
  obtains w where "select_by_id E t decode d s = Some (Ret (Inr (stored decode view (index_name s t) (world s) d)), s\<lparr>world := w\<rparr>)"
    "view w = view (world s)"
  using SelectOne_readable[OF assms, of d] by (metis fst_conv select_by_id_run(1) snd_conv)

end

lemma stored_id: "stored decode view i w d = Some k \<Longrightarrow> Doc_Id k = d"
  by (auto simp: stored_def SetID_def split: option.splits)

end
