(* ===== verification/Verification.thy ===== *)
theory Verification
  imports Marks Data_Properties
begin

text \<open>
  The verification of tokens (\<open>MinerTokenVerified\<close> in \<open>indexer/miner.go\<close>) against an abstract specification: the
  index of tokens is a map from contract addresses to tokens, and a verification of a token name, whose contract was \<open>A\<close>
  and is now \<open>B\<close>, takes the mark off \<open>A\<close> and puts it on \<open>B\<close>.
\<close>

section \<open>The specification\<close>

definition mark_token :: "EsTokenUpVerified \<Rightarrow> EsToken \<Rightarrow> EsToken" where
  "mark_token u k = k\<lparr>EsToken_VerifiedStatus := EsTokenUpVerified_VerifiedStatus u,
     EsToken_TokenAddress := EsTokenUpVerified_TokenAddress u, EsToken_Owner := EsTokenUpVerified_Owner u,
     EsToken_Comment := EsTokenUpVerified_Comment u, EsToken_Email := EsTokenUpVerified_Email u,
     EsToken_RegDate := EsTokenUpVerified_RegDate u, EsToken_ImageUrl := EsTokenUpVerified_ImageUrl u,
     EsToken_HomepageUrl := EsTokenUpVerified_HomepageUrl u, EsToken_TotalTransfer := EsTokenUpVerified_TotalTransfer u\<rparr>"

text \<open>The contract that the whitelist keeps for the name, and the tokens. A former contract without a token stops the
  verification; a new one without a token leaves the whitelist as it was.\<close>

definition verify_token :: "string \<Rightarrow> string \<Rightarrow> EsTokenUpVerified \<Rightarrow> EsTokenUpVerified \<Rightarrow> (string \<rightharpoonup> EsToken)
    \<Rightarrow> string \<times> (string \<rightharpoonup> EsToken)" where
  "verify_token A B off on T =
     (if A \<noteq> [] \<and> B \<noteq> A \<and> T A = None then (A, T)
      else let T1 = (if A \<noteq> [] \<and> B \<noteq> A then T(A := map_option (mark_token off) (T A)) else T) in
        if B = [] then ([], T1)
        else case T1 B of None \<Rightarrow> (A, T1) | Some k \<Rightarrow> (B, T1(B \<mapsto> mark_token on k)))"

section \<open>A mark in the index\<close>

lemma token_merge:
  assumes "EsToken_decode src = Some k"
  shows "EsToken_decode (merge_source (Some src) (EsTokenUpVerified_source u)) = Some (mark_token u k)"
proof -
  let ?n = "EsTokenUpVerified_source u"
  have f: "fits EsToken_fields src" using assms by (auto simp: EsToken_decode_def split: if_splits)
  have "fits EsToken_fields (merge_source (Some src) ?n)"
  proof (rule fits_merge[OF f])
    fix key t v assume "(key, t) \<in> set EsToken_fields" and "map_of ?n key = Some v"
    then show "sval_fits t v" by (auto simp: EsToken_fields_def EsTokenUpVerified_source_def unat_word_fits split: if_splits)
  qed
  moreover have "get_uint (merge_source (Some src) ?n) ''total_transfer'' = EsTokenUpVerified_TotalTransfer u"
    by (simp add: get_defs map_of_merge_source EsTokenUpVerified_source_def)
  moreover have "get_float (merge_source (Some src) ?n) ''supply_float'' = get_float src ''supply_float''"
    by (simp add: get_defs map_of_merge_source EsTokenUpVerified_source_def)
  ultimately show ?thesis
    using assms by (auto simp: EsToken_decode_def mark_token_def get_merge EsTokenUpVerified_source_def split: if_splits)
qed

interpretation tokens: marked_index "''token''" EsToken_decode DTokenUpVerified mark_token
  by unfold_locales (simp_all add: token_merge GetID_def SetID_def mark_token_def)

lemmas mark_stored = tokens.mark_stored[folded updateTokenVerified_def]
lemmas token_read = tokens.doc_read[folded getToken_def]

text \<open>Counting the transfers of a token changes nothing.\<close>

lemma transfers_counted:
  assumes "reads_keep E view"
  obtains n w where "count_transfers E a s = Some (Ret n, s\<lparr>world := w\<rparr>)" "view w = view (world s)"
proof -
  let ?p = "zeroQueryParams\<lparr>IndexName := index_name s ''token_transfer'', StringMatch := Some \<lparr>Match_Field = ''address'', Match_Value = a\<rparr>\<rparr>"
  obtain q where "\<forall>w. snd (Count E ?p w) = snd (es_Count E (IndexName ?p) q w)" using Count_world by blast
  moreover obtain r w where c: "Count E ?p (world s) = (r, w)" by fastforce
  ultimately have "w = snd (es_Count E (IndexName ?p) q (world s))" by (metis snd_conv)
  then have "view w = view (world s)" using assms unfolding reads_keep_def reads_def by metis
  moreover have "count_transfers E a s = Some (Ret (case r of Inl _ \<Rightarrow> 0 | Inr n \<Rightarrow> of_int n), s\<lparr>world := w\<rparr>)"
    using c by (cases r) (simp_all add: count_transfers_def cntTokenTransfer_def bnd_assoc)
  ultimately show thesis using that by blast
qed

section \<open>Refinement\<close>

lemma unverify_refines:
  assumes st: "es_store E view" and rel: "reliable E" and rk: "reads_keep E view"
    and rd: "readable EsToken_decode view (index_name s ''token'') (world s)"
    and T: "T = stored EsToken_decode view (index_name s ''token'') (world s)"
  obtains off s' where "unverify_token E A s = Some (Ret (T A \<noteq> None), s')" "indexNamePrefix s' = indexNamePrefix s"
    "readable EsToken_decode view (index_name s ''token'') (world s')"
    "stored EsToken_decode view (index_name s ''token'') (world s') = T(A := map_option (mark_token off) (T A))"
    "EsTokenUpVerified_VerifiedStatus off = NotVerified" "EsTokenUpVerified_TokenAddress off = []"
proof -
  let ?i = "index_name s ''token''"
  obtain w where g: "getToken E A s = Some (Ret (Inr (T A)), s\<lparr>world := w\<rparr>)" and v: "view w = view (world s)"
    using token_read[OF st rel rd, of A] T by metis
  have same: "stored EsToken_decode view ?i w = T" "readable EsToken_decode view ?i w"
    using stored_view[OF v] readable_view[OF v] T rd by auto
  show thesis
  proof (cases "T A")
    case None
    let ?off = "ConvTokenUpVerified undefined NotVerified [] [] [] [] [] [] [] 0"
    have "unverify_token E A s = Some (Ret (T A \<noteq> None), s\<lparr>world := w\<rparr>)"
      using g None by (simp add: unverify_token_def bnd_Ret[where m = "getToken E A", OF g])
    then show thesis by (rule that[where off = ?off]) (use None same in \<open>auto simp: ConvTokenUpVerified_def fun_upd_idem\<close>)
  next
    case (Some k)
    obtain n w2 where c: "count_transfers E A (s\<lparr>world := w\<rparr>) = Some (Ret n, s\<lparr>world := w2\<rparr>)" and v2: "view w2 = view w"
      using transfers_counted[OF rk, of A "s\<lparr>world := w\<rparr>"] by auto
    let ?off = "ConvTokenUpVerified k NotVerified [] [] [] [] [] [] [] n"
    let ?s2 = "s\<lparr>world := w2\<rparr>"
    have id: "Doc_Id k = A" using Some T stored_id by metis
    have same2: "stored EsToken_decode view ?i w2 = T" "readable EsToken_decode view ?i w2"
      using stored_view[OF v2, where decode = EsToken_decode] readable_view[OF v2, where decode = EsToken_decode] same by simp_all
    have "stored EsToken_decode view (index_name ?s2 ''token'') (world ?s2) (Doc_Id ?off) = Some k"
      "readable EsToken_decode view (index_name ?s2 ''token'') (world ?s2)"
      using same2 Some id by (simp_all add: ConvTokenUpVerified_def)
    from mark_stored[OF st rel this] obtain s' where m: "updateTokenVerified E ?off ?s2 = Some (Ret (), s')"
      "indexNamePrefix s' = indexNamePrefix s" "readable EsToken_decode view ?i (world s')"
      "stored EsToken_decode view ?i (world s') = T(A \<mapsto> mark_token ?off k)"
      using same2 id by (auto simp: ConvTokenUpVerified_def)
    have "unverify_token E A s = Some (Ret (T A \<noteq> None), s')"
      using Some by (simp add: unverify_token_def bnd_Ret[where m = "getToken E A", OF g]
          bnd_Ret[where m = "count_transfers E A", OF c] sq_Ret[where m = "updateTokenVerified E ?off", OF m(1)])
    then show thesis by (rule that[where off = ?off]) (use m Some in \<open>auto simp: ConvTokenUpVerified_def\<close>)
  qed
qed

lemma MinerTokenVerified_refines:
  assumes st: "es_store E view" and rel: "reliable E" and rk: "reads_keep E view"
    and rd: "readable EsToken_decode view (index_name s ''token'') (world s)"
    and B: "B = fst (UnmarshalMetadataVerifyToken metadata)"
  obtains off on r s' where "MinerTokenVerified E name A metadata s = Some (Ret r, s')" "indexNamePrefix s' = indexNamePrefix s"
    "readable EsToken_decode view (index_name s ''token'') (world s')"
    "(r, stored EsToken_decode view (index_name s ''token'') (world s')) =
      verify_token A B off on (stored EsToken_decode view (index_name s ''token'') (world s))"
    "EsTokenUpVerified_VerifiedStatus off = NotVerified" "EsTokenUpVerified_TokenAddress off = []"
    "EsTokenUpVerified_VerifiedStatus on = Verified" "EsTokenUpVerified_TokenAddress on = name"
proof -
  note result = that
  let ?i = "index_name s ''token''"
  define T where "T = stored EsToken_decode view ?i (world s)"
  obtain owner comment email regDate homepageUrl imageUrl where U: "UnmarshalMetadataVerifyToken metadata =
      (B, owner, comment, email, regDate, homepageUrl, imageUrl)" using B by (metis prod.collapse)
  let ?on = "\<lambda>k n. ConvTokenUpVerified k Verified name owner comment email regDate homepageUrl imageUrl n"
  let ?former = "A \<noteq> [] \<and> B \<noteq> A"
  let ?rest = "if B \<noteq> [] then bnd (getToken E B) (\<lambda>r. case r of
           Inr (Some tokenDoc) \<Rightarrow> bnd (count_transfers E B) (\<lambda>n. sq (updateTokenVerified E (?on tokenDoc n)) (ret B))
         | _ \<Rightarrow> ret A) else ret B"
  have run: "MinerTokenVerified E name A metadata = bnd (if ?former then unverify_token E A else ret True)
      (\<lambda>go_on. if \<not> go_on then ret A else ?rest)"
    by (simp add: MinerTokenVerified_def U)
  obtain off s1 where off: "EsTokenUpVerified_VerifiedStatus off = NotVerified" "EsTokenUpVerified_TokenAddress off = []"
    and s1: "(if ?former then unverify_token E A else ret True) s = Some (Ret (\<not> (?former \<and> T A = None)), s1)"
      "indexNamePrefix s1 = indexNamePrefix s" "readable EsToken_decode view ?i (world s1)"
    and T1: "stored EsToken_decode view ?i (world s1) = (if ?former then T(A := map_option (mark_token off) (T A)) else T)"
  proof (cases "?former")
    case True
    obtain off s1 where "unverify_token E A s = Some (Ret (T A \<noteq> None), s1)" "indexNamePrefix s1 = indexNamePrefix s"
      "readable EsToken_decode view ?i (world s1)"
      "stored EsToken_decode view ?i (world s1) = T(A := map_option (mark_token off) (T A))"
      "EsTokenUpVerified_VerifiedStatus off = NotVerified" "EsTokenUpVerified_TokenAddress off = []"
      by (rule unverify_refines[OF st rel rk rd T_def])
    then show thesis using True by (intro that[of off s1]) auto
  next
    case False
    then show thesis
      using rd by (intro that[of "ConvTokenUpVerified undefined NotVerified [] [] [] [] [] [] [] 0" s])
        (auto simp: ConvTokenUpVerified_def T_def)
  qed
  let ?T1 = "if ?former then T(A := map_option (mark_token off) (T A)) else T"
  note run1 = bnd_Ret[where m = "if ?former then unverify_token E A else ret True", OF s1(1)]
  have done_here: thesis if "MinerTokenVerified E name A metadata s = Some (Ret r, s2)" and "indexNamePrefix s2 = indexNamePrefix s"
    and "readable EsToken_decode view ?i (world s2)"
    and "\<And>on. (r, stored EsToken_decode view ?i (world s2)) = verify_token A B off on T" for r s2
    using result[OF that(1-3) that(4)[unfolded T_def] off, of "?on undefined 0"] by (simp add: ConvTokenUpVerified_def)
  show thesis
  proof (cases "?former \<and> T A = None")
    case True
    then have "MinerTokenVerified E name A metadata s = Some (Ret A, s1)" unfolding run run1 by simp
    then show thesis by (rule done_here[OF _ s1(2,3)]) (use True T1 in \<open>auto simp: verify_token_def fun_upd_idem\<close>)
  next
    case go: False
    show thesis
    proof (cases "B = []")
      case True
      then have "MinerTokenVerified E name A metadata s = Some (Ret [], s1)" unfolding run run1 using go by auto
      then show thesis by (rule done_here[OF _ s1(2,3)]) (use True T1 go in \<open>auto simp: verify_token_def Let_def\<close>)
    next
      case False
      have i1: "index_name s1 ''token'' = ?i" using s1(2) by (simp add: index_name_def)
      have rd1: "readable EsToken_decode view (index_name s1 ''token'') (world s1)" using s1(3) i1 by simp
      from token_read[OF st rel rd1, of B] obtain w where
        g0: "getToken E B s1 = Some (Ret (Inr (stored EsToken_decode view (index_name s1 ''token'') (world s1) B)), s1\<lparr>world := w\<rparr>)"
        and v: "view w = view (world s1)" by blast
      note g = g0[unfolded i1 T1]
      have same: "stored EsToken_decode view ?i w = ?T1" "readable EsToken_decode view ?i w"
        using stored_view[OF v, where decode = EsToken_decode] readable_view[OF v, where decode = EsToken_decode] T1 s1(3) by simp_all
      have to_rest: "MinerTokenVerified E name A metadata s = (case ?T1 B of
          Some k \<Rightarrow> bnd (count_transfers E B) (\<lambda>n. sq (updateTokenVerified E (?on k n)) (ret B)) | None \<Rightarrow> ret A) (s1\<lparr>world := w\<rparr>)"
        unfolding run run1 using go False by (simp add: bnd_Ret[where m = "getToken E B", OF g] split: option.split)
      show thesis
      proof (cases "?T1 B")
        case None
        then have "MinerTokenVerified E name A metadata s = Some (Ret A, s1\<lparr>world := w\<rparr>)" using to_rest by simp
        then show thesis
          by (rule done_here) (use None s1(2) same go False in \<open>auto simp: verify_token_def Let_def split: if_splits\<close>)
      next
        case (Some k)
        obtain n w2 where c: "count_transfers E B (s1\<lparr>world := w\<rparr>) = Some (Ret n, s1\<lparr>world := w2\<rparr>)" and v2: "view w2 = view w"
          using transfers_counted[OF rk, of B "s1\<lparr>world := w\<rparr>"] by auto
        let ?s2 = "s1\<lparr>world := w2\<rparr>"
        have same2: "stored EsToken_decode view ?i w2 = ?T1" "readable EsToken_decode view ?i w2"
          using stored_view[OF v2, where decode = EsToken_decode] readable_view[OF v2, where decode = EsToken_decode] same by simp_all
        have id: "Doc_Id k = B" using stored_id[of EsToken_decode view ?i w2 B k] same2(1) Some by simp
        have "stored EsToken_decode view (index_name ?s2 ''token'') (world ?s2) (Doc_Id (?on k n)) = Some k"
          "readable EsToken_decode view (index_name ?s2 ''token'') (world ?s2)"
          using same2 Some id i1 by (simp_all add: ConvTokenUpVerified_def)
        from mark_stored[OF st rel this] obtain s' where m: "updateTokenVerified E (?on k n) ?s2 = Some (Ret (), s')"
          "indexNamePrefix s' = indexNamePrefix s" "readable EsToken_decode view ?i (world s')"
          "stored EsToken_decode view ?i (world s') = ?T1(B \<mapsto> mark_token (?on k n) k)"
          using same2 id i1 s1(2) by (auto simp: ConvTokenUpVerified_def)
        have r: "MinerTokenVerified E name A metadata s = Some (Ret B, s')"
          unfolding to_rest using Some by (simp add: bnd_Ret[where m = "count_transfers E B", OF c]
              sq_Ret[where m = "updateTokenVerified E (?on k n)", OF m(1)])
        have "(B, stored EsToken_decode view ?i (world s')) = verify_token A B off (?on k n) T"
          using go False Some m(4) by (auto simp: verify_token_def Let_def split: if_splits)
        from result[OF r m(2,3) this[unfolded T_def] off] show thesis by (simp add: ConvTokenUpVerified_def)
      qed
    qed
  qed
qed

section \<open>The property\<close>

text \<open>C16: a verification keeps the tokens and the whitelist in step: every token that is marked as verified is the contract that
  the whitelist has for the name it carries, so that no name is on two tokens; and it puts the mark on the new
  contract when both contracts are known.\<close>

theorem verified_once:
  assumes "es_store E view" and "reliable E" and "reads_keep E view"
    and "readable EsToken_decode view (index_name s ''token'') (world s)" and "view (world s) (index_name s ''token'') [] = None"
    and "T = stored EsToken_decode view (index_name s ''token'') (world s)"
    and "\<forall>d k. T d = Some k \<and> EsToken_VerifiedStatus k = Verified \<longrightarrow> wl (EsToken_TokenAddress k) = d"
    and "B = fst (UnmarshalMetadataVerifyToken metadata)"
  shows "\<exists>r s' T'. MinerTokenVerified E name (wl name) metadata s = Some (Ret r, s') \<and>
    T' = stored EsToken_decode view (index_name s' ''token'') (world s') \<and>
    (\<forall>d k. T' d = Some k \<and> EsToken_VerifiedStatus k = Verified \<longrightarrow> (wl(name := r)) (EsToken_TokenAddress k) = d) \<and>
    (B \<noteq> [] \<and> T B \<noteq> None \<and> (wl name = [] \<or> T (wl name) \<noteq> None) \<longrightarrow>
      r = B \<and> (\<exists>k. T' B = Some k \<and> EsToken_VerifiedStatus k = Verified \<and> EsToken_TokenAddress k = name)) \<and>
    (\<forall>d. d \<noteq> B \<and> d \<noteq> wl name \<longrightarrow> T' d = T d)"
proof -
  let ?A = "wl name" and ?i = "index_name s ''token''"
  have no_id: "T [] = None" using assms(5,6) by (simp add: stored_def)
  have nv: "NotVerified \<noteq> Verified" by (simp add: NotVerified_def Verified_def)
  obtain off on r s' where run: "MinerTokenVerified E name ?A metadata s = Some (Ret r, s')" "indexNamePrefix s' = indexNamePrefix s"
    and new: "(r, stored EsToken_decode view ?i (world s')) = verify_token ?A B off on T"
    and off: "EsTokenUpVerified_VerifiedStatus off = NotVerified" "EsTokenUpVerified_TokenAddress off = []"
    and on: "EsTokenUpVerified_VerifiedStatus on = Verified" "EsTokenUpVerified_TokenAddress on = name"
    by (rule MinerTokenVerified_refines[OF assms(1-4) assms(8), of name ?A, folded assms(6)])
  let ?T' = "stored EsToken_decode view ?i (world s')"
  note marks = off on nv mark_token_def
  have inv: "\<forall>d k. ?T' d = Some k \<and> EsToken_VerifiedStatus k = Verified \<longrightarrow> (wl(name := r)) (EsToken_TokenAddress k) = d"
    using new assms(7) no_id by (auto simp: verify_token_def Let_def marks split: if_splits option.splits)
  moreover have "B \<noteq> [] \<and> T B \<noteq> None \<and> (?A = [] \<or> T ?A \<noteq> None) \<longrightarrow>
      r = B \<and> (\<exists>k. ?T' B = Some k \<and> EsToken_VerifiedStatus k = Verified \<and> EsToken_TokenAddress k = name)"
    using new by (auto simp: verify_token_def Let_def marks split: if_splits option.splits)
  moreover have "\<forall>d. d \<noteq> B \<and> d \<noteq> ?A \<longrightarrow> ?T' d = T d"
    using new by (auto simp: verify_token_def Let_def split: if_splits option.splits)
  moreover have "index_name s' ''token'' = ?i" using run(2) by (simp add: index_name_def)
  ultimately show ?thesis using run(1) by (intro exI[of _ r] exI[of _ s'] exI[of _ ?T']) simp
qed

lemma metadata_sample: "fst (UnmarshalMetadataVerifyToken ''{\"contract\":\"new\"}'') = ''new''"
  by code_simp

text \<open>The name \<open>tok\<close> moves from one contract to another.\<close>

definition old_token :: EsToken where
  "old_token = (cccv_token ''old'' ''tx1'' 3)\<lparr>EsToken_VerifiedStatus := Verified, EsToken_TokenAddress := ''tok''\<rparr>"

definition new_token :: EsToken where
  "new_token = cccv_token ''new'' ''tx2'' 4"

definition two_tokens :: "mem Indexer" where
  "two_tokens = sample_indexer (empty_mem\<lparr>m_docs :=
     [((''p_token'', ''old''), EsToken_source old_token), ((''p_token'', ''new''), EsToken_source new_token)]\<rparr>)"

lemma two_tokens_stored:
  "index_name two_tokens ''token'' = ''p_token''"
  "stored EsToken_decode mem_view ''p_token'' (world two_tokens) d =
    (if d = ''old'' then Some old_token else if d = ''new'' then Some new_token else None)"
  "readable EsToken_decode mem_view ''p_token'' (world two_tokens)"
  "mem_view (world two_tokens) ''p_token'' [] = None"
  by (auto simp: stored_def readable_def two_tokens_def mem_view_def EsToken_roundtrip SetID_def cccv_token_def
      old_token_def new_token_def)

theorem verified_once_witness:
  "\<exists>s' k. MinerTokenVerified chain_env ''tok'' ''old'' ''{\"contract\":\"new\"}'' two_tokens = Some (Ret ''new'', s') \<and>
    stored EsToken_decode mem_view (index_name s' ''token'') (world s') ''new'' = Some k \<and>
    EsToken_VerifiedStatus k = Verified \<and> EsToken_TokenAddress k = ''tok''"
proof -
  let ?wl = "(\<lambda>_. [])(''tok'' := ''old'')"
  let ?T = "stored EsToken_decode mem_view (index_name two_tokens ''token'') (world two_tokens)"
  note T = two_tokens_stored(2)
  have rd: "readable EsToken_decode mem_view (index_name two_tokens ''token'') (world two_tokens)"
    "mem_view (world two_tokens) (index_name two_tokens ''token'') [] = None"
    unfolding two_tokens_stored(1) by (rule two_tokens_stored)+
  have wl: "\<forall>d k. ?T d = Some k \<and> EsToken_VerifiedStatus k = Verified \<longrightarrow> ?wl (EsToken_TokenAddress k) = d"
    unfolding two_tokens_stored(1) T by (auto simp: old_token_def new_token_def cccv_token_def Verified_def)
  obtain r s' where run: "MinerTokenVerified chain_env ''tok'' (?wl ''tok'') ''{\"contract\":\"new\"}'' two_tokens = Some (Ret r, s')"
    and m: "''new'' \<noteq> [] \<and> ?T ''new'' \<noteq> None \<and> (?wl ''tok'' = [] \<or> ?T (?wl ''tok'') \<noteq> None) \<longrightarrow> r = ''new'' \<and>
      (\<exists>k. stored EsToken_decode mem_view (index_name s' ''token'') (world s') ''new'' = Some k \<and>
        EsToken_VerifiedStatus k = Verified \<and> EsToken_TokenAddress k = ''tok'')"
    using verified_once[OF chain_store(1-3) rd refl wl metadata_sample[symmetric], of "''tok''"] by blast
  have "r = ''new''" "\<exists>k. stored EsToken_decode mem_view (index_name s' ''token'') (world s') ''new'' = Some k \<and>
      EsToken_VerifiedStatus k = Verified \<and> EsToken_TokenAddress k = ''tok''"
    using m unfolding two_tokens_stored(1) T by simp_all
  with run show ?thesis by auto
qed

end
