(* ===== verification/Contracts.thy ===== *)
theory Contracts
  imports Marks Data_Properties
begin

text \<open>
  The verification of contracts (\<open>MinerContractVerified\<close> in \<open>indexer/miner.go\<close>) against a specification: the index of
  contracts is a map from addresses to contracts, and a verification takes the source code off the former contract of a
  name and puts the code found at a URL on the new one.
\<close>

section \<open>The specification\<close>

definition mark_contract :: "EsContractUp \<Rightarrow> EsContract \<Rightarrow> EsContract" where
  "mark_contract u k = k\<lparr>EsContract_VerifiedStatus := EsContractUp_VerifiedStatus u,
     EsContract_VerifiedToken := EsContractUp_VerifiedToken u, EsContract_CodeUrl := EsContractUp_CodeUrl u,
     EsContract_Code := EsContractUp_Code u\<rparr>"

text \<open>What a fetch of the code gives: none, when it fails.\<close>

definition code_mark :: "string \<Rightarrow> string \<Rightarrow> string \<Rightarrow> string option \<Rightarrow> EsContractUp" where
  "code_mark B name url code = ConvContractUp B
     (case code of None \<Rightarrow> NotVerified | Some c \<Rightarrow> if c = [] then NotVerified else Verified) name url
     (case code of None \<Rightarrow> [] | Some c \<Rightarrow> c)"

text \<open>A URL that the contract has already is not fetched again.\<close>

definition verify_contract :: "string \<Rightarrow> string \<Rightarrow> string \<Rightarrow> string \<Rightarrow> string option \<Rightarrow> (string \<rightharpoonup> EsContract)
    \<Rightarrow> string \<times> (string \<rightharpoonup> EsContract)" where
  "verify_contract name A B url code T =
     (if A \<noteq> [] \<and> A \<noteq> B \<and> T A = None then (A, T)
      else let T1 = (if A \<noteq> [] \<and> A \<noteq> B
          then T(A := map_option (mark_contract (ConvContractUp A NotVerified [] [] [])) (T A)) else T) in
        if B = [] then ([], T1)
        else case T1 B of None \<Rightarrow> (A, T1)
          | Some k \<Rightarrow> (B, if url \<noteq> [] \<and> EsContract_CodeUrl k = url then T1
              else T1(B \<mapsto> mark_contract (code_mark B name url code) k)))"

section \<open>Marks in the index\<close>

lemma contract_merge:
  assumes "EsContract_decode src = Some k"
  shows "EsContract_decode (merge_source (Some src) (EsContractUp_source u)) = Some (mark_contract u k)"
proof -
  let ?n = "EsContractUp_source u"
  have f: "fits EsContract_fields src" using assms by (auto simp: EsContract_decode_def split: if_splits)
  have "fits EsContract_fields (merge_source (Some src) ?n)"
  proof (rule fits_merge[OF f])
    fix key t v assume "(key, t) \<in> set EsContract_fields" and "map_of ?n key = Some v"
    then show "sval_fits t v" by (auto simp: EsContract_fields_def EsContractUp_source_def split: if_splits)
  qed
  moreover have "get_time (merge_source (Some src) ?n) ''ts'' = get_time src ''ts''"
    by (simp add: get_defs map_of_merge_source EsContractUp_source_def)
  ultimately show ?thesis
    using assms by (auto simp: EsContract_decode_def mark_contract_def get_merge EsContractUp_source_def split: if_splits)
qed

interpretation contracts: marked_index "''contract''" EsContract_decode DContractUp mark_contract
  by unfold_locales (simp_all add: contract_merge GetID_def SetID_def mark_contract_def)

lemmas contract_marked = contracts.mark_stored[folded updateContract_def]
lemmas contract_read = contracts.doc_read[folded getContract_def]

abbreviation stored_contracts :: "('e \<Rightarrow> string \<Rightarrow> string \<Rightarrow> source option) \<Rightarrow> 'e Indexer \<Rightarrow> (string \<rightharpoonup> EsContract)" where
  "stored_contracts view s \<equiv> stored EsContract_decode view (index_name s ''contract'') (world s)"

abbreviation contracts_readable :: "('e \<Rightarrow> string \<Rightarrow> string \<Rightarrow> source option) \<Rightarrow> 'e Indexer \<Rightarrow> bool" where
  "contracts_readable view s \<equiv> readable EsContract_decode view (index_name s ''contract'') (world s)"

section \<open>Refinement\<close>

text \<open>The contract at an address after reading it, marked.\<close>

lemma update_contract_at:
  assumes st: "es_store E view" and rel: "reliable E" and rd: "contracts_readable view s"
    and k: "stored_contracts view s a = Some k" and a: "Doc_Id u = a"
  obtains s' where "updateContract E u s = Some (Ret (), s')" "indexNamePrefix s' = indexNamePrefix s" "contracts_readable view s'"
    "stored_contracts view s' = (stored_contracts view s)(a \<mapsto> mark_contract u k)"
proof -
  from k a have "stored EsContract_decode view (index_name s ''contract'') (world s) (Doc_Id u) = Some k" by simp
  from contract_marked[OF st rel this rd] obtain s' where s': "updateContract E u s = Some (Ret (), s')" "indexNamePrefix s' = indexNamePrefix s"
    "readable EsContract_decode view (index_name s ''contract'') (world s')"
    "stored EsContract_decode view (index_name s ''contract'') (world s') = (stored_contracts view s)(Doc_Id u \<mapsto> mark_contract u k)"
    by blast
  then have "index_name s' ''contract'' = index_name s ''contract''" by (simp add: index_name_def)
  with s' a show thesis by (intro that[of s']) simp_all
qed

lemma contract_at:
  assumes "es_store E view" and "reliable E" and "contracts_readable view s"
  obtains s' where "getContract E a s = Some (Ret (Inr (stored_contracts view s a)), s')"
    "indexNamePrefix s' = indexNamePrefix s" "contracts_readable view s'" "stored_contracts view s' = stored_contracts view s"
proof -
  obtain w where w: "getContract E a s = Some (Ret (Inr (stored_contracts view s a)), s\<lparr>world := w\<rparr>)" "view w = view (world s)"
    using contract_read[OF assms, of a] by blast
  show thesis by (rule that[OF w(1)]) (use w(2) assms(3) in \<open>auto simp: stored_def readable_def fun_eq_iff\<close>)
qed

lemma unverify_contract_refines:
  assumes st: "es_store E view" and rel: "reliable E" and rd: "contracts_readable view s" and T: "T = stored_contracts view s"
  obtains s' where "unverify_contract E A s = Some (Ret (T A \<noteq> None), s')" "indexNamePrefix s' = indexNamePrefix s"
    "contracts_readable view s'"
    "stored_contracts view s' = T(A := map_option (mark_contract (ConvContractUp A NotVerified [] [] [])) (T A))"
proof -
  obtain s1 where g: "getContract E A s = Some (Ret (Inr (T A)), s1)" and s1: "indexNamePrefix s1 = indexNamePrefix s"
    "contracts_readable view s1" "stored_contracts view s1 = T"
    using contract_at[OF st rel rd, of A] T by metis
  show thesis
  proof (cases "T A")
    case None
    have "unverify_contract E A s = Some (Ret (T A \<noteq> None), s1)"
      using None by (simp add: unverify_contract_def bnd_Ret[where m = "getContract E A", OF g])
    then show thesis by (rule that) (use None s1 in \<open>auto simp: fun_upd_idem\<close>)
  next
    case (Some k)
    have id: "Doc_Id k = A" using Some T stored_id by metis
    let ?u = "ConvContractUp A NotVerified [] [] []"
    obtain s2 where u: "updateContract E ?u s1 = Some (Ret (), s2)" and s2: "indexNamePrefix s2 = indexNamePrefix s1"
      "contracts_readable view s2" "stored_contracts view s2 = T(A \<mapsto> mark_contract ?u k)"
      using update_contract_at[OF st rel s1(2), of A k ?u] Some s1(3) by (auto simp: ConvContractUp_def)
    have "unverify_contract E A s = Some (Ret (T A \<noteq> None), s2)"
      using Some id by (simp add: unverify_contract_def bnd_Ret[where m = "getContract E A", OF g]
          sq_Ret[where m = "updateContract E ?u", OF u])
    then show thesis by (rule that) (use s1(1) s2 Some in auto)
  qed
qed

text \<open>The whole verification, with what the request for the code gives in the world where it is made.\<close>

definition fetched :: "'e env \<Rightarrow> string \<Rightarrow> 'e \<Rightarrow> string option" where
  "fetched E url v = (case fst (http_Get E url v) of Inl e \<Rightarrow> None | Inr c \<Rightarrow> Some c)"

lemma fetch_code_mark:
  assumes "reads_keep E view"
  obtains w code status where "fetch_code E url s = Some (Ret (code, status), s\<lparr>world := w\<rparr>)" "view w = view (world s)"
    "ConvContractUp B status name url code = code_mark B name url (fetched E url (world s))"
proof -
  obtain r w where g: "http_Get E url (world s) = (r, w)" by fastforce
  have v: "view w = view (world s)" using assms g unfolding reads_keep_def reads_def by (metis snd_conv)
  let ?r = "case r of Inl _ \<Rightarrow> ([], NotVerified) | Inr code \<Rightarrow> (code, if length code > 0 then Verified else NotVerified)"
  have f: "fetch_code E url s = Some (Ret ?r, s\<lparr>world := w\<rparr>)"
    by (simp add: fetch_code_def GetCode_def ext_def bnd_def g)
  have "ConvContractUp B (snd ?r) name url (fst ?r) = code_mark B name url (fetched E url (world s))"
    by (cases r) (simp_all add: code_mark_def fetched_def g)
  then show thesis by (rule that[of "fst ?r" "snd ?r" w, rotated 2]) (simp_all add: f v)
qed

lemma MinerContractVerified_refines:
  assumes st: "es_store E view" and rel: "reliable E" and rk: "reads_keep E view" and rd: "contracts_readable view s"
    and U: "UnmarshalMetadataVerifyContract metadata = (B, owner, url)"
  obtains r v s' where "MinerContractVerified E name A metadata s = Some (Ret r, s')" "indexNamePrefix s' = indexNamePrefix s"
    "contracts_readable view s'"
    "(r, stored_contracts view s') = verify_contract name A B url (fetched E url v) (stored_contracts view s)"
proof -
  note result = that
  define T where "T = stored_contracts view s"
  let ?former = "A \<noteq> [] \<and> A \<noteq> B" and ?off = "ConvContractUp A NotVerified [] [] []"
  let ?start = "if ?former then unverify_contract E A else ret True"
  let ?T1 = "if ?former then T(A := map_option (mark_contract ?off) (T A)) else T"
  obtain s1 where run: "?start s = Some (Ret (\<not> (?former \<and> T A = None)), s1)"
    and s1: "indexNamePrefix s1 = indexNamePrefix s" "contracts_readable view s1" "stored_contracts view s1 = ?T1"
  proof (cases "?former")
    case True
    from unverify_contract_refines[OF st rel rd refl] obtain s1 where
      "unverify_contract E A s = Some (Ret (T A \<noteq> None), s1)" "indexNamePrefix s1 = indexNamePrefix s" "contracts_readable view s1"
      "stored_contracts view s1 = T(A := map_option (mark_contract ?off) (T A))"
      unfolding T_def by blast
    then show thesis using True by (intro that[of s1]) auto
  next
    case False
    then show thesis using rd by (intro that[of s]) (auto simp: T_def)
  qed
  have body: "MinerContractVerified E name A metadata s = (if ?former \<and> T A = None then Some (Ret A, s1)
      else if B = [] then Some (Ret B, s1)
      else bnd (getContract E B) (\<lambda>r. case r of
          Inr (Some k) \<Rightarrow> if url \<noteq> [] \<and> EsContract_CodeUrl k = url then ret B
            else bnd (fetch_code E url) (\<lambda>(code, status). sq (updateContract E (ConvContractUp B status name url code)) (ret B))
        | _ \<Rightarrow> ret A) s1)"
    by (simp add: MinerContractVerified_def U bnd_Ret[where m = ?start, OF run])
  have finish: thesis if "MinerContractVerified E name A metadata s = Some (Ret r, s2)" and "indexNamePrefix s2 = indexNamePrefix s1"
    and "contracts_readable view s2" and "(r, stored_contracts view s2) = verify_contract name A B url (fetched E url v) T" for r s2 v
    by (rule result[OF that(1) _ that(3) that(4)[unfolded T_def]]) (use that(2) s1(1) in simp)
  show thesis
  proof (cases "?former \<and> T A = None \<or> B = []")
    case True
    then have "MinerContractVerified E name A metadata s = Some (Ret (if ?former \<and> T A = None then A else B), s1)"
      using body by auto
    then show thesis by (rule finish[OF _ refl s1(2)]) (use True in \<open>auto simp: s1(3) verify_contract_def Let_def fun_upd_idem\<close>)
  next
    case False
    from contract_at[OF st rel s1(2), of B] obtain s2 where g: "getContract E B s1 = Some (Ret (Inr (?T1 B)), s2)"
      and s2: "indexNamePrefix s2 = indexNamePrefix s1" "contracts_readable view s2" "stored_contracts view s2 = ?T1"
      unfolding s1(3) by blast
    note body2 = body[unfolded bnd_Ret[where m = "getContract E B", OF g]]
    show thesis
    proof (cases "?T1 B")
      case None
      then have "MinerContractVerified E name A metadata s = Some (Ret A, s2)" using body2 False by auto
      then show thesis by (rule finish[OF _ s2(1,2)]) (use None False in \<open>auto simp: s2(3) verify_contract_def Let_def\<close>)
    next
      case (Some k)
      show thesis
      proof (cases "url \<noteq> [] \<and> EsContract_CodeUrl k = url")
        case True
        then have "MinerContractVerified E name A metadata s = Some (Ret B, s2)" using body2 False Some by auto
        then show thesis by (rule finish[OF _ s2(1,2)]) (use True Some False in \<open>auto simp: s2(3) verify_contract_def Let_def\<close>)
      next
        case url: False
        obtain w code status where f: "fetch_code E url s2 = Some (Ret (code, status), s2\<lparr>world := w\<rparr>)" and w: "view w = view (world s2)"
          and c: "ConvContractUp B status name url code = code_mark B name url (fetched E url (world s2))"
          by (rule fetch_code_mark[OF rk])
        let ?u = "code_mark B name url (fetched E url (world s2))" and ?s2 = "s2\<lparr>world := w\<rparr>"
        have "contracts_readable view ?s2" "stored_contracts view ?s2 B = Some k" "stored_contracts view ?s2 = ?T1"
          using s2 Some stored_view[OF w, where decode = EsContract_decode] readable_view[OF w, where decode = EsContract_decode] by simp_all
        from update_contract_at[OF st rel this(1,2), of ?u] this(3) obtain s3 where u: "updateContract E ?u ?s2 = Some (Ret (), s3)"
          and s3: "indexNamePrefix s3 = indexNamePrefix s1" "contracts_readable view s3" "stored_contracts view s3 = ?T1(B \<mapsto> mark_contract ?u k)"
          using s2(1) by (auto simp: code_mark_def ConvContractUp_def)
        have "MinerContractVerified E name A metadata s = Some (Ret B, s3)"
          using False Some url by (auto simp: body2 bnd_Ret[where m = "fetch_code E url", OF f] c sq_Ret[where m = "updateContract E ?u", OF u])
        then show thesis by (rule finish[OF _ s3(1,2)]) (use url Some False in \<open>auto simp: s3(3) verify_contract_def Let_def\<close>)
      qed
    qed
  qed
qed

section \<open>A fetch that fails once\<close>

text \<open>Further verifications after the first, whatever they are given.\<close>

definition verify_again :: "'e env \<Rightarrow> string \<Rightarrow> string \<Rightarrow> string \<Rightarrow> nat \<Rightarrow> ('e, unit) idx" where
  "verify_again E name A metadata n = each (\<lambda>_. bnd (MinerContractVerified E name A metadata) (\<lambda>_. ret ())) [0..<n]"

lemma verify_again_keeps:
  assumes st: "es_store E view" and rel: "reliable E" and rk: "reads_keep E view"
    and U: "UnmarshalMetadataVerifyContract metadata = (B, owner, url)" "B \<noteq> []" "url \<noteq> []"
    and rd: "contracts_readable view s" and k: "stored_contracts view s B = Some k" "EsContract_CodeUrl k = url"
  shows "\<exists>s'. verify_again E name B metadata n s = Some (Ret (), s') \<and> stored_contracts view s' = stored_contracts view s"
proof -
  have "\<exists>s'. each (\<lambda>_. bnd (MinerContractVerified E name B metadata) (\<lambda>_. ret ())) ns s = Some (Ret (), s') \<and>
      stored_contracts view s' = stored_contracts view s" for ns :: "nat list"
    using rd k
  proof (induction ns arbitrary: s)
    case (Cons a ns)
    obtain r v s1 where run: "MinerContractVerified E name B metadata s = Some (Ret r, s1)" and s1: "contracts_readable view s1"
      "(r, stored_contracts view s1) = verify_contract name B B url (fetched E url v) (stored_contracts view s)"
      by (rule MinerContractVerified_refines[OF st rel rk Cons.prems(1) U(1)])
    have same: "stored_contracts view s1 = stored_contracts view s"
      using s1(2) Cons.prems(2,3) U(2,3) by (simp add: verify_contract_def)
    have one: "bnd (MinerContractVerified E name B metadata) (\<lambda>_. ret ()) s = Some (Ret (), s1)"
      by (simp add: bnd_Ret[where m = "MinerContractVerified E name B metadata", OF run])
    show ?case unfolding each.simps sq_Ret[where m = "bnd (MinerContractVerified E name B metadata) (\<lambda>_. ret ())", OF one]
      using Cons.IH[OF s1(1)] Cons.prems(2,3) unfolding same by blast
  qed simp
  then show ?thesis by (simp add: verify_again_def)
qed

text \<open>C17: the code of a new URL is put on the contract, which is marked as verified when there is any. But when the one fetch
  fails, the URL is kept all the same, and the code is never asked for again: the contract stays without code and not
  verified, however often the verification is repeated and whatever the server would answer by then.\<close>

theorem contract_fetched_once:
  assumes "es_store E view" and "reliable E" and "reads_keep E view"
    and "UnmarshalMetadataVerifyContract metadata = (B, owner, url)" and "B \<noteq> []" and "url \<noteq> []"
    and "readable EsContract_decode view (index_name s ''contract'') (world s)"
    and "stored EsContract_decode view (index_name s ''contract'') (world s) B = Some k" and "EsContract_CodeUrl k \<noteq> url"
    and "A = [] \<or> A = B"
  shows "\<exists>s' k'. sq (MinerContractVerified (E\<lparr>http_Get := \<lambda>u w. (answer, w)\<rparr>) name A metadata)
      (verify_again E name B metadata n) s = Some (Ret (), s') \<and>
    stored EsContract_decode view (index_name s' ''contract'') (world s') B = Some k' \<and> EsContract_CodeUrl k' = url \<and>
    (case answer of Inl e \<Rightarrow> EsContract_VerifiedStatus k' = NotVerified \<and> EsContract_Code k' = []
      | Inr code \<Rightarrow> EsContract_Code k' = code \<and> EsContract_VerifiedStatus k' = (if code = [] then NotVerified else Verified))"
proof -
  let ?E = "E\<lparr>http_Get := \<lambda>u w. (answer, w)\<rparr>"
  have E: "es_store ?E view" "reliable ?E" "reads_keep ?E view"
    using assms(1-3) by (simp_all add: es_store_def reliable_def reads_keep_def reads_def)
  obtain r v s1 where run: "MinerContractVerified ?E name A metadata s = Some (Ret r, s1)" and s1: "contracts_readable view s1"
    "(r, stored_contracts view s1) = verify_contract name A B url (fetched ?E url v) (stored_contracts view s)"
    by (rule MinerContractVerified_refines[OF E assms(7,4)])
  let ?k = "mark_contract (code_mark B name url (fetched ?E url v)) k"
  have k: "stored_contracts view s1 B = Some ?k" using s1(2) assms(5,6,8-10) by (auto simp: verify_contract_def)
  have url: "EsContract_CodeUrl ?k = url" by (simp add: mark_contract_def code_mark_def ConvContractUp_def)
  obtain s' where s': "verify_again E name B metadata n s1 = Some (Ret (), s')" "stored_contracts view s' = stored_contracts view s1"
    using verify_again_keeps[OF assms(1-6) s1(1) k url] by blast
  have "case answer of Inl e \<Rightarrow> EsContract_VerifiedStatus ?k = NotVerified \<and> EsContract_Code ?k = []
      | Inr code \<Rightarrow> EsContract_Code ?k = code \<and> EsContract_VerifiedStatus ?k = (if code = [] then NotVerified else Verified)"
    by (auto simp: mark_contract_def code_mark_def ConvContractUp_def fetched_def split: sum.split)
  then show ?thesis using s' k url
    by (intro exI[of _ s'] exI[of _ ?k]) (simp add: sq_Ret[where m = "MinerContractVerified ?E name A metadata", OF run])
qed

text \<open>A contract that is not verified yet, and the metadata of its code.\<close>

definition plain_contract :: EsContract where
  "plain_contract = \<lparr>Doc_Id = ''new'', EsContract_TxId = ''tx1'', EsContract_Creator = ''alice'', EsContract_BlockNo = 3,
     EsContract_Timestamp = 1, EsContract_Payload = [], EsContract_VerifiedStatus = NotVerified, EsContract_VerifiedToken = [],
     EsContract_CodeUrl = [], EsContract_Code = []\<rparr>"

definition one_contract :: "mem Indexer" where
  "one_contract = sample_indexer (empty_mem\<lparr>m_docs := [((''p_contract'', ''new''), EsContract_source plain_contract)]\<rparr>)"

lemma one_contract_stored:
  "index_name one_contract ''contract'' = ''p_contract''"
  "stored EsContract_decode mem_view ''p_contract'' (world one_contract) d = (if d = ''new'' then Some plain_contract else None)"
  "readable EsContract_decode mem_view ''p_contract'' (world one_contract)"
  by (auto simp: stored_def readable_def one_contract_def mem_view_def EsContract_roundtrip SetID_def plain_contract_def)

lemma code_metadata: "UnmarshalMetadataVerifyContract ''{\"contract\":\"new\",\"code\":\"url\"}'' = (''new'', [], ''url'')"
  by code_simp

theorem contract_fetched_once_witness:
  "\<exists>s' k'. sq (MinerContractVerified (chain_env\<lparr>http_Get := \<lambda>u w. (Inl EOF, w)\<rparr>) ''tok'' [] ''{\"contract\":\"new\",\"code\":\"url\"}'')
      (verify_again chain_env ''tok'' ''new'' ''{\"contract\":\"new\",\"code\":\"url\"}'' 3) one_contract = Some (Ret (), s') \<and>
    stored EsContract_decode mem_view (index_name s' ''contract'') (world s') ''new'' = Some k' \<and>
    EsContract_CodeUrl k' = ''url'' \<and> EsContract_VerifiedStatus k' = NotVerified \<and> EsContract_Code k' = []"
proof -
  have 1: "readable EsContract_decode mem_view (index_name one_contract ''contract'') (world one_contract)"
    "stored EsContract_decode mem_view (index_name one_contract ''contract'') (world one_contract) ''new'' = Some plain_contract"
    unfolding one_contract_stored(1) by (simp_all add: one_contract_stored(2,3))
  have 2: "EsContract_CodeUrl plain_contract \<noteq> ''url''" by (simp add: plain_contract_def)
  show ?thesis
    using contract_fetched_once[OF chain_store(1-3) code_metadata _ _ 1 2, of "[]" "Inl EOF" "''tok''" 3] by simp
qed

end
