(* ===== verification/Balances.thy ===== *)
theory Balances
  imports Follow
begin

text \<open>
  The refresh of the balances that are tracked (\<open>refreshVariables\<close> in \<open>indexer/cache.go\<close>, \<open>MinerBalance\<close> in
  \<open>indexer/miner.go\<close>, \<open>addAccountBalance\<close> in \<open>indexer/dto.go\<close>): the index of balances is a map from addresses, and a
  refresh puts what the node tells into it and keeps tracking those that stake enough.
\<close>

section \<open>Writing a balance\<close>

text \<open>The block number of a stored balance is kept when it is newer; an unknown address is stored with a balance only.\<close>

definition put_balance :: "EsAccountBalance \<Rightarrow> (string \<rightharpoonup> EsAccountBalance) \<Rightarrow> (string \<rightharpoonup> EsAccountBalance)" where
  "put_balance b T = (case T (Doc_Id b) of
     Some d \<Rightarrow> T(Doc_Id b \<mapsto> (if EsAccountBalance_BlockNo b < EsAccountBalance_BlockNo d
       then b\<lparr>EsAccountBalance_BlockNo := EsAccountBalance_BlockNo d, EsAccountBalance_Timestamp := EsAccountBalance_Timestamp d\<rparr>
       else b))
   | None \<Rightarrow> if f32_gt0 (EsAccountBalance_BalanceFloat b) then T(Doc_Id b \<mapsto> b) else T)"

interpretation balances: whole_documents EsAccountBalance_decode DAccountBalance
  by unfold_locales (simp_all add: EsAccountBalance_decode_def EsAccountBalance_source_def EsAccountBalance_fields_def
      fits_def get_defs SetID_def map_of_merge_source GetID_def)

abbreviation stored_balances :: "('e \<Rightarrow> string \<Rightarrow> string \<Rightarrow> source option) \<Rightarrow> 'e Indexer \<Rightarrow> (string \<rightharpoonup> EsAccountBalance)" where
  "stored_balances view s \<equiv> stored EsAccountBalance_decode view (index_name s ''account_balance'') (world s)"

abbreviation balances_readable :: "('e \<Rightarrow> string \<Rightarrow> string \<Rightarrow> source option) \<Rightarrow> 'e Indexer \<Rightarrow> bool" where
  "balances_readable view s \<equiv> readable EsAccountBalance_decode view (index_name s ''account_balance'') (world s)"

lemma addAccountBalance_refines:
  assumes st: "es_store E view" and rel: "reliable E" and rd: "balances_readable view s"
  obtains w where "addAccountBalance E b s = Some (Ret (), s\<lparr>world := w\<rparr>)" "balances_readable view (s\<lparr>world := w\<rparr>)"
    "stored_balances view (s\<lparr>world := w\<rparr>) = put_balance b (stored_balances view s)"
proof -
  let ?i = "index_name s ''account_balance''" and ?T = "stored_balances view s"
  obtain w1 where q: "SelectOne E (id_params ?i (Doc_Id b)) EsAccountBalance_decode (world s) = (Inr (?T (Doc_Id b)), w1)"
    and v: "view w1 = view (world s)" using SelectOne_readable[OF st rel rd] by blast
  have rd1: "readable EsAccountBalance_decode view ?i w1" using rd readable_view[of view, OF v] by blast
  note T1 = stored_view[of view, OF v, where i = ?i and decode = EsAccountBalance_decode]
  show thesis
  proof (cases "?T (Doc_Id b)")
    case (Some d)
    define b' where "b' = (if EsAccountBalance_BlockNo b < EsAccountBalance_BlockNo d
      then b\<lparr>EsAccountBalance_BlockNo := EsAccountBalance_BlockNo d, EsAccountBalance_Timestamp := EsAccountBalance_Timestamp d\<rparr> else b)"
    have id: "Doc_Id b' = Doc_Id b" by (simp add: b'_def)
    have "addAccountBalance E b s = Some (Ret (), s\<lparr>world := snd (Update E (DAccountBalance b') ?i (Doc_Id b') w1)\<rparr>)"
      using q Some by (simp add: addAccountBalance_def getAccountBalance_def bnd_assoc Let_def GetID_def id flip: b'_def)
    then show thesis
      by (rule that) (use balances.stored_update[OF st rel refl, where n = b'] rd1 T1 Some in \<open>simp_all add: put_balance_def id flip: b'_def\<close>)
  next
    case None
    show thesis
    proof (cases "f32_gt0 (EsAccountBalance_BalanceFloat b)")
      case True
      with q None have "addAccountBalance E b s = Some (Ret (), s\<lparr>world := snd (Insert E (DAccountBalance b) ?i w1)\<rparr>)"
        by (simp add: addAccountBalance_def getAccountBalance_def bnd_assoc)
      then show thesis
        by (rule that) (use balances.stored_insert[OF st rel refl, where n = b] rd1 T1 None True in \<open>simp_all add: put_balance_def\<close>)
    next
      case False
      with q None have "addAccountBalance E b s = Some (Ret (), s\<lparr>world := w1\<rparr>)"
        by (simp add: addAccountBalance_def getAccountBalance_def bnd_assoc)
      then show thesis by (rule that) (use rd1 T1 None False in \<open>simp_all add: put_balance_def\<close>)
    qed
  qed
qed

section \<open>The balance of an address\<close>

text \<open>What the node tells of an account, the same whenever it is asked, in numbers that fit the floats.\<close>

definition tells_balances :: "'e env \<Rightarrow> (string \<Rightarrow> nat) \<Rightarrow> (string \<Rightarrow> nat) \<Rightarrow> bool" where
  "tells_balances E unstaked staked \<longleftrightarrow> (\<forall>a w. \<exists>u v. fst (rpc_GetState E (Some a) w) = Inr u \<and> big_SetBytes (bytes_of u) = unstaked a \<and>
     fst (rpc_GetStaking E (Some a) w) = Inr v \<and> big_SetBytes (bytes_of v) = staked a) \<and> (\<forall>a. unstaked a + staked a < 2 ^ 127)"

definition shows_balance :: "nat \<Rightarrow> nat \<Rightarrow> EsAccountBalance \<Rightarrow> bool" where
  "shows_balance unstaked staked k \<longleftrightarrow> EsAccountBalance_Balance k = show_int (int (unstaked + staked)) \<and>
     EsAccountBalance_Staking k = show_int (int staked) \<and> f32_gt0 (EsAccountBalance_BalanceFloat k) = (0 < unstaked + staked)"

definition resolved_balance :: "'e env \<Rightarrow> (string \<Rightarrow> string) \<Rightarrow> string \<Rightarrow> bool" where
  "resolved_balance E raw a \<longleftrightarrow> \<not> IsBalanceNotResolved E (raw a)"

lemma MinerBalance_refines:
  assumes st: "es_store E view" and rel: "reliable E" and rk: "reads_keep E view" and rd: "balances_readable view s"
    and tells: "tells_balances E unstaked staked" and d: "DecodeAddress E a = Ret (Inr (raw a))"
  obtains b :: EsAccountBalance and w where "MinerBalance E block a s = Some (Ret (resolved_balance E raw a \<and> 10000 \<le> staked (raw a)), s\<lparr>world := w\<rparr>)"
    "balances_readable view (s\<lparr>world := w\<rparr>)"
    "stored_balances view (s\<lparr>world := w\<rparr>) = (if resolved_balance E raw a then put_balance b (stored_balances view s) else stored_balances view s)"
    "Doc_Id b = a" "EsAccountBalance_BlockNo b = EsBlock_BlockNo block" "shows_balance (unstaked (raw a)) (staked (raw a)) b"
proof (cases "IsBalanceNotResolved E (raw a)")
  case True
  let ?b = "ConvAccountBalance (EsBlock_BlockNo block) a 0 (show_int (int (unstaked (raw a) + staked (raw a))))
    (if 0 < unstaked (raw a) + staked (raw a) then one32 else zero32) (show_int (int (staked (raw a)))) zero32"
  have "MinerBalance E block a s = Some (Ret False, s\<lparr>world := world s\<rparr>)" using True d by (simp add: MinerBalance_def)
  moreover have "f32_gt0 one32" "\<not> f32_gt0 zero32" by (simp_all add: one32_def zero32_def)
  ultimately show thesis
    using True rd by (intro that[of "world s" ?b]) (simp_all add: ConvAccountBalance_def shows_balance_def resolved_balance_def)
next
  case False
  obtain u v w1 w2 where q: "rpc_GetState E (Some (raw a)) (world s) = (Inr u, w1)" "rpc_GetStaking E (Some (raw a)) w1 = (Inr v, w2)"
    and n: "big_SetBytes (bytes_of u) = unstaked (raw a)" "big_SetBytes (bytes_of v) = staked (raw a)"
    using tells unfolding tells_balances_def by (metis prod.collapse)
  obtain f g where B: "BalanceOf E (Some (raw a)) (world s) =
      ((show_int (int (unstaked (raw a) + staked (raw a))), f, show_int (int (staked (raw a))), g), w2)"
      "f32_gt0 f = (0 < unstaked (raw a) + staked (raw a))" "f32_ge g 10000 = (10000 \<le> staked (raw a))"
  proof -
    have "unstaked (raw a) + staked (raw a) < 2 ^ 127" using tells by (simp add: tells_balances_def)
    from BalanceOf_sum[OF q, unfolded n, OF this] show thesis using that by (elim exE conjE)
  qed
  have v: "view w2 = view (world s)" using rk q unfolding reads_keep_def reads_def by (metis snd_conv)
  let ?b = "ConvAccountBalance (EsBlock_BlockNo block) a (EsBlock_Timestamp block) (show_int (int (unstaked (raw a) + staked (raw a)))) f
    (show_int (int (staked (raw a)))) g" and ?s = "s\<lparr>world := w2\<rparr>"
  have same: "balances_readable view ?s" "stored_balances view ?s = stored_balances view s"
    using rd readable_view[of view, OF v] stored_view[of view, OF v] by auto
  obtain w where a: "addAccountBalance E ?b ?s = Some (Ret (), s\<lparr>world := w\<rparr>)" "balances_readable view (s\<lparr>world := w\<rparr>)"
    "stored_balances view (s\<lparr>world := w\<rparr>) = put_balance ?b (stored_balances view s)"
    using addAccountBalance_refines[OF st rel same(1), of ?b] unfolding same(2) by auto
  have "MinerBalance E block a s = Some (Ret (resolved_balance E raw a \<and> 10000 \<le> staked (raw a)), s\<lparr>world := w\<rparr>)"
    using False d B(1,3) by (simp add: MinerBalance_def resolved_balance_def ext_def bnd_def sq_def a(1) del: of_nat_add)
  then show thesis
    by (rule that[of w ?b])
      (use False a B(2) in \<open>simp_all add: ConvAccountBalance_def shows_balance_def resolved_balance_def\<close>)
qed

section \<open>The refresh\<close>

lemma refresh_balances_refines:
  assumes st: "es_store E view" and rel: "reliable E" and rk: "reads_keep E view" and rd: "balances_readable view s"
    and tells: "tells_balances E unstaked staked" and d: "\<forall>a \<in> set as. DecodeAddress E a = Ret (Inr (raw a))"
  shows "\<exists>w bs. refresh_balances E block m as s =
      Some (Ret (rev (filter (\<lambda>a. \<not> (resolved_balance E raw a \<and> 10000 \<le> staked (raw a))) as) @ m), s\<lparr>world := w\<rparr>) \<and>
    stored_balances view (s\<lparr>world := w\<rparr>) = fold put_balance bs (stored_balances view s) \<and>
    map Doc_Id bs = filter (resolved_balance E raw) as \<and>
    (\<forall>b \<in> set bs. EsAccountBalance_BlockNo b = EsBlock_BlockNo block \<and>
      shows_balance (unstaked (raw (Doc_Id b))) (staked (raw (Doc_Id b))) b)"
  using rd d
proof (induction as arbitrary: m s)
  case Nil
  show ?case by (intro exI[of _ "world s"] exI[of _ "[]"]) simp
next
  case (Cons a as)
  have "DecodeAddress E a = Ret (Inr (raw a))" using Cons.prems(2) by simp
  then obtain b w where run: "MinerBalance E block a s = Some (Ret (resolved_balance E raw a \<and> 10000 \<le> staked (raw a)), s\<lparr>world := w\<rparr>)"
    and rd: "balances_readable view (s\<lparr>world := w\<rparr>)"
    and T: "stored_balances view (s\<lparr>world := w\<rparr>) =
      (if resolved_balance E raw a then put_balance b (stored_balances view s) else stored_balances view s)"
    and b: "Doc_Id b = a" "EsAccountBalance_BlockNo b = EsBlock_BlockNo block" "shows_balance (unstaked (raw a)) (staked (raw a)) b"
    by (rule MinerBalance_refines[OF st rel rk Cons.prems(1) tells])
  let ?s = "s\<lparr>world := w\<rparr>" and ?m = "if resolved_balance E raw a \<and> 10000 \<le> staked (raw a) then m else a # m"
  from Cons.IH[OF rd, of ?m] Cons.prems(2) obtain w' bs where IH: "refresh_balances E block ?m as ?s =
      Some (Ret (rev (filter (\<lambda>a. \<not> (resolved_balance E raw a \<and> 10000 \<le> staked (raw a))) as) @ ?m), ?s\<lparr>world := w'\<rparr>)"
    "stored_balances view (?s\<lparr>world := w'\<rparr>) = fold put_balance bs (stored_balances view ?s)"
    "map Doc_Id bs = filter (resolved_balance E raw) as"
    "\<forall>b \<in> set bs. EsAccountBalance_BlockNo b = EsBlock_BlockNo block \<and>
      shows_balance (unstaked (raw (Doc_Id b))) (staked (raw (Doc_Id b))) b"
    by auto
  have "refresh_balances E block m (a # as) s = refresh_balances E block ?m as ?s"
    by (simp add: bnd_Ret[where m = "MinerBalance E block a", OF run])
  then show ?case
    by (intro exI[of _ w'] exI[of _ "if resolved_balance E raw a then b # bs else bs"]) (use IH T b in auto)
qed

lemma put_balance_other: "x \<noteq> Doc_Id b \<Longrightarrow> put_balance b T x = T x"
  by (auto simp: put_balance_def split: option.split)

lemma put_balance_at: "T (Doc_Id b) = T' (Doc_Id b) \<Longrightarrow> put_balance b T (Doc_Id b) = put_balance b T' (Doc_Id b)"
  by (simp add: put_balance_def split: option.split)

lemma put_balances_other: "x \<notin> set (map Doc_Id bs) \<Longrightarrow> fold put_balance bs T x = T x"
  by (induction bs arbitrary: T) (simp_all add: put_balance_other)

lemma put_balances_one:
  "distinct (map Doc_Id bs) \<Longrightarrow> b \<in> set bs \<Longrightarrow> fold put_balance bs T (Doc_Id b) = put_balance b T (Doc_Id b)"
proof (induction bs arbitrary: T)
  case (Cons c bs)
  show ?case
  proof (cases "b = c")
    case True
    then show ?thesis using Cons.prems(1) by (simp add: put_balances_other)
  next
    case False
    then have b: "b \<in> set bs" using Cons.prems(2) by simp
    then have "Doc_Id b \<in> Doc_Id ` set bs" by (rule imageI)
    then have "Doc_Id b \<noteq> Doc_Id c" using Cons.prems(1) by auto
    then have "put_balance c T (Doc_Id b) = T (Doc_Id b)" by (rule put_balance_other)
    from put_balance_at[where T = "put_balance c T" and T' = T, OF this] show ?thesis using Cons.IH[of "put_balance c T"] Cons.prems(1) b by simp
  qed
qed simp

lemma put_balance_here:
  assumes "EsAccountBalance_BlockNo b = n" and "shows_balance u v b"
  shows "case put_balance b T (Doc_Id b) of
      None \<Rightarrow> T (Doc_Id b) = None \<and> u + v = 0
    | Some k \<Rightarrow> EsAccountBalance_Balance k = show_int (int (u + v)) \<and> EsAccountBalance_Staking k = show_int (int v) \<and>
        EsAccountBalance_BlockNo k = (case T (Doc_Id b) of None \<Rightarrow> n | Some d \<Rightarrow> max n (EsAccountBalance_BlockNo d))"
  using assms by (auto simp: put_balance_def shows_balance_def max_def split: option.split)

text \<open>The addresses that are dropped.\<close>

lemma delete_balances: "each deleteBalance ds s = Some (Ret (), s\<lparr>addrsBalance := filter (\<lambda>a. a \<notin> set ds) (addrsBalance s)\<rparr>)"
proof (induction ds arbitrary: s)
  case (Cons d ds)
  have one: "deleteBalance d s = Some (Ret (), s\<lparr>addrsBalance := removeAll d (addrsBalance s)\<rparr>)"
    by (simp add: deleteBalance_def)
  show ?case unfolding each.simps sq_Ret[where m = "deleteBalance d", OF one] Cons
    by (simp add: removeAll_filter_not_eq conj_commute eq_commute[of d])
qed simp

text \<open>C23: a refresh brings the balance of every tracked address to what the node tells: it is stored with the newest block
  number, unless nothing was stored and there is nothing to store. The balances of other addresses stay. An address stays
  tracked exactly when it is one of an account and at least 10000 are staked.\<close>

theorem balances_refreshed:
  assumes "es_store E view" and "reliable E" and "reads_keep E view"
    and "readable EsAccountBalance_decode view (index_name s ''account_balance'') (world s)"
    and "tells_balances E unstaked staked" and "distinct (addrsBalance s)"
    and "\<forall>a \<in> set (addrsBalance s). DecodeAddress E a = Ret (Inr (raw a))"
    and "T = stored EsAccountBalance_decode view (index_name s ''account_balance'') (world s)"
  shows "\<exists>s' T'. refresh_tracked E block s = Some (Ret (), s') \<and>
    T' = stored EsAccountBalance_decode view (index_name s' ''account_balance'') (world s') \<and>
    addrsBalance s' = filter (\<lambda>a. \<not> IsBalanceNotResolved E (raw a) \<and> 10000 \<le> staked (raw a)) (addrsBalance s) \<and>
    (\<forall>a. a \<in> set (addrsBalance s) \<and> \<not> IsBalanceNotResolved E (raw a) \<longrightarrow> (case T' a of
        None \<Rightarrow> T a = None \<and> unstaked (raw a) + staked (raw a) = 0
      | Some k \<Rightarrow> EsAccountBalance_Balance k = show_int (int (unstaked (raw a) + staked (raw a))) \<and>
          EsAccountBalance_Staking k = show_int (int (staked (raw a))) \<and>
          EsAccountBalance_BlockNo k = (case T a of None \<Rightarrow> EsBlock_BlockNo block
            | Some d \<Rightarrow> max (EsBlock_BlockNo block) (EsAccountBalance_BlockNo d)))) \<and>
    (\<forall>a. a \<notin> set (addrsBalance s) \<or> IsBalanceNotResolved E (raw a) \<longrightarrow> T' a = T a)"
proof -
  let ?as = "addrsBalance s" and ?ok = "\<lambda>a. resolved_balance E raw a \<and> 10000 \<le> staked (raw a)"
  obtain w bs where run: "refresh_balances E block [] ?as s = Some (Ret (rev (filter (\<lambda>a. \<not> ?ok a) ?as) @ []), s\<lparr>world := w\<rparr>)"
    and T': "stored_balances view (s\<lparr>world := w\<rparr>) = fold put_balance bs (stored_balances view s)"
    and ids: "map Doc_Id bs = filter (resolved_balance E raw) ?as"
    and bs: "\<forall>b \<in> set bs. EsAccountBalance_BlockNo b = EsBlock_BlockNo block \<and>
      shows_balance (unstaked (raw (Doc_Id b))) (staked (raw (Doc_Id b))) b"
    using refresh_balances_refines[OF assms(1-5,7), of block "[]"] by blast
  let ?s' = "s\<lparr>world := w, addrsBalance := filter ?ok ?as\<rparr>"
  have r: "refresh_tracked E block s = Some (Ret (), ?s')"
    by (simp add: refresh_tracked_def bnd_Ret[where m = "refresh_balances E block [] ?as", OF run] delete_balances cong: filter_cong)
  have T2: "stored_balances view ?s' = fold put_balance bs T" using T' assms(8) by (simp add: index_name_def)
  have dist: "distinct (map Doc_Id bs)" unfolding ids using assms(6) by simp
  have other: "fold put_balance bs T a = T a" if "a \<notin> set ?as \<or> \<not> resolved_balance E raw a" for a
    by (rule put_balances_other) (use that in \<open>auto simp: ids\<close>)
  have here: "case fold put_balance bs T a of
        None \<Rightarrow> T a = None \<and> unstaked (raw a) + staked (raw a) = 0
      | Some k \<Rightarrow> EsAccountBalance_Balance k = show_int (int (unstaked (raw a) + staked (raw a))) \<and>
          EsAccountBalance_Staking k = show_int (int (staked (raw a))) \<and>
          EsAccountBalance_BlockNo k = (case T a of None \<Rightarrow> EsBlock_BlockNo block
            | Some d \<Rightarrow> max (EsBlock_BlockNo block) (EsAccountBalance_BlockNo d))"
    if "a \<in> set ?as" and "resolved_balance E raw a" for a
  proof -
    have "a \<in> set (map Doc_Id bs)" unfolding ids using that by simp
    then obtain b where b: "b \<in> set bs" "Doc_Id b = a" by auto
    with bs have "EsAccountBalance_BlockNo b = EsBlock_BlockNo block" "shows_balance (unstaked (raw a)) (staked (raw a)) b" by auto
    from put_balance_here[OF this, of T] put_balances_one[OF dist b(1), of T] show ?thesis
      unfolding b(2) by (simp only:)
  qed
  show ?thesis
    by (intro exI[of _ ?s'] exI[of _ "fold put_balance bs T"] conjI r T2[symmetric])
      (use here other in \<open>auto simp: resolved_balance_def\<close>)
qed

text \<open>A node at which \<open>alice\<close> has staked enough and \<open>bob\<close> has not.\<close>

definition staking_env :: "mem env" where
  "staking_env = chain_env\<lparr>rpc_GetState := \<lambda>a w. (Inr (Some [CHR 0x05]), w),
     rpc_GetStaking := \<lambda>a w. (Inr (Some (if a = Some ''alice'' then [CHR 0x27, CHR 0x10] else [])), w)\<rparr>"

definition trackers :: "mem Indexer" where
  "trackers = (sample_indexer empty_mem)\<lparr>addrsBalance := [''42616c696365'', ''42626f62'']\<rparr>"

lemma staking_samples:
  "es_store staking_env mem_view" "reliable staking_env" "reads_keep staking_env mem_view"
  "DecodeAddress staking_env ''42616c696365'' = Ret (Inr ''alice'')" "DecodeAddress staking_env ''42626f62'' = Ret (Inr ''bob'')"
  "IsBalanceNotResolved staking_env ''alice'' = False" "IsBalanceNotResolved staking_env ''bob'' = False"
  "tells_balances staking_env (\<lambda>a. 5) (\<lambda>a. if a = ''alice'' then 10000 else 0)"
  "addrsBalance trackers = [''42616c696365'', ''42626f62'']" "world trackers = empty_mem"
  using chain_store(1-3)
  by (simp_all add: staking_env_def es_store_def reliable_def reads_keep_def reads_def DecodeAddress_def chain_env_def mem_env_def
      hex_val_def AddressVersion_def IsBalanceNotResolved_def IsAlias_def IsAergoSystem_def
      tells_balances_def big_SetBytes_def trackers_def)

theorem balances_refreshed_witness:
  "\<exists>s' k. refresh_tracked staking_env (block_doc ''b'' 7) trackers = Some (Ret (), s') \<and>
    addrsBalance s' = [''42616c696365''] \<and>
    stored EsAccountBalance_decode mem_view (index_name s' ''account_balance'') (world s') ''42616c696365'' = Some k \<and>
    EsAccountBalance_Balance k = show_int 10005 \<and> EsAccountBalance_BlockNo k = 7"
proof -
  let ?raw = "\<lambda>a. if a = ''42616c696365'' then ''alice'' else ''bob''" and ?i = "index_name trackers ''account_balance''"
  have rd: "readable EsAccountBalance_decode mem_view ?i (world trackers)"
    "stored EsAccountBalance_decode mem_view ?i (world trackers) d = None" for d
    by (simp_all add: readable_def stored_def staking_samples mem_view_def empty_mem_def)
  have d: "\<forall>a \<in> set (addrsBalance trackers). DecodeAddress staking_env a = Ret (Inr (?raw a))" "distinct (addrsBalance trackers)"
    by (simp_all add: staking_samples)
  have n: "EsBlock_BlockNo (block_doc ''b'' 7) = 7" by (simp add: block_doc_def)
  have raw: "?raw ''42616c696365'' = ''alice''" by simp
  obtain s' T' where r: "refresh_tracked staking_env (block_doc ''b'' 7) trackers = Some (Ret (), s')"
    and T': "T' = stored EsAccountBalance_decode mem_view (index_name s' ''account_balance'') (world s')"
    and l: "addrsBalance s' = filter (\<lambda>a. \<not> IsBalanceNotResolved staking_env (?raw a) \<and> 10000 \<le> (if ?raw a = ''alice'' then 10000 else 0 :: nat))
      (addrsBalance trackers)"
    and k: "\<forall>a. a \<in> set (addrsBalance trackers) \<and> \<not> IsBalanceNotResolved staking_env (?raw a) \<longrightarrow> (case T' a of
        None \<Rightarrow> stored EsAccountBalance_decode mem_view ?i (world trackers) a = None \<and> 5 + (if ?raw a = ''alice'' then 10000 else 0) = (0 :: nat)
      | Some k \<Rightarrow> EsAccountBalance_Balance k = show_int (int (5 + (if ?raw a = ''alice'' then 10000 else 0))) \<and>
          EsAccountBalance_Staking k = show_int (int (if ?raw a = ''alice'' then 10000 else 0)) \<and>
          EsAccountBalance_BlockNo k = (case stored EsAccountBalance_decode mem_view ?i (world trackers) a of
            None \<Rightarrow> EsBlock_BlockNo (block_doc ''b'' 7)
          | Some d \<Rightarrow> max (EsBlock_BlockNo (block_doc ''b'' 7)) (EsAccountBalance_BlockNo d)))"
    using balances_refreshed[OF staking_samples(1-3) rd(1) staking_samples(8) d(2,1) refl, of "block_doc ''b'' 7"] by blast
  have "addrsBalance s' = [''42616c696365'']" unfolding l staking_samples(9) by (simp add: staking_samples)
  moreover have "case T' ''42616c696365'' of None \<Rightarrow> False
      | Some k \<Rightarrow> EsAccountBalance_Balance k = show_int 10005 \<and> EsAccountBalance_BlockNo k = 7"
    using k[rule_format, of "''42616c696365''", unfolded raw rd(2) n] by (simp add: staking_samples split: option.splits)
  ultimately show ?thesis using r unfolding T' by (auto split: option.splits)
qed

end
