(* ===== verification/Scrolls.thy ===== *)
theory Scrolls
  imports Marks
begin

text \<open>
  Scrolling over an index while documents are written: a scroll shows the index as it was when it was opened. The interface
  \<open>scrolling\<close> says so of Elasticsearch; what the \<open>Scroll\<close> functions of \<open>indexer/dto.go\<close> do follows as a rule for loops.
\<close>

section \<open>The interface\<close>

text \<open>A request for the next page of a scroll with the hits \<open>hs\<close> to come: it gives the first of them and leaves the
  others, or says that there are none.\<close>

definition scroll_turn :: "'w env \<Rightarrow> ('w \<Rightarrow> database) \<Rightarrow> (scroll_request \<Rightarrow> string \<Rightarrow> hit list \<Rightarrow> 'w \<Rightarrow> bool)
    \<Rightarrow> scroll_request \<Rightarrow> string option \<Rightarrow> hit list \<Rightarrow> 'w \<Rightarrow> bool" where
  "scroll_turn E db left req sid hs w \<longleftrightarrow> (\<exists>r w'. es_Scroll E req sid w = (r, w') \<and> db w' = db w \<and> (case r of
     Inl e \<Rightarrow> e = EOF \<and> hs = []
   | Inr (sid', p) \<Rightarrow> p \<noteq> [] \<and> (\<exists>rest. hs = p @ rest \<and> left req sid' rest w')))"

text \<open>The hits that an instance of a scroll still gives: those in its buffer, then those that are left.\<close>

definition scroll_due :: "'w env \<Rightarrow> ('w \<Rightarrow> database) \<Rightarrow> (scroll_request \<Rightarrow> string \<Rightarrow> hit list \<Rightarrow> 'w \<Rightarrow> bool)
    \<Rightarrow> EsScrollInstance \<Rightarrow> hit list \<Rightarrow> 'w \<Rightarrow> bool" where
  "scroll_due E db left sc hs w \<longleftrightarrow> (case scrollService sc of
     (req, None) \<Rightarrow> scroll_result sc = None \<and> scroll_turn E db left req None hs w
   | (req, Some sid) \<Rightarrow> (\<exists>p rest. scroll_result sc = Some p \<and> scroll_currentLength sc = length p \<and>
       scroll_current sc \<le> length p \<and> hs = drop (scroll_current sc) p @ rest \<and> left req sid rest w))"

text \<open>\<open>left req sid hs w\<close>: the hits of an open scroll that are not given yet. Other requests leave them as they are.\<close>

locale scrolling = elastic E db for E :: "'w env" and db :: "'w \<Rightarrow> database" +
  fixes left :: "scroll_request \<Rightarrow> string \<Rightarrow> hit list \<Rightarrow> 'w \<Rightarrow> bool"
  assumes open_req: "decided (scroll_index req) (scroll_query req) (db w) \<Longrightarrow> scroll_include req = [] \<Longrightarrow>
      \<exists>hs. listing (Some (scroll_sort req, scroll_asc req)) (found (scroll_index req) (scroll_query req) (db w)) hs \<and>
        scroll_turn E db left req None hs w"
    and next_req: "left req sid hs w \<Longrightarrow> scroll_turn E db left req (Some sid) hs w"
    and keeps_left: "left req sid hs w \<Longrightarrow> left req sid hs (snd (es_Index E i d src w))"
      "left req sid hs w \<Longrightarrow> left req sid hs (snd (es_Update E i d src w))"
      "left req sid hs w \<Longrightarrow> left req sid hs (snd (es_Search E i q srt n w))"
      "left req sid hs w \<Longrightarrow> left req sid hs (snd (es_Count E i q w))"
      "left req sid hs w \<Longrightarrow> left req sid hs (snd (rpc_QueryContract E a f w))"
      "left req sid hs w \<Longrightarrow> left req sid hs (snd (http_Get E u w))"
begin

lemma buffer_due:
  assumes "scrollService sc = (req, Some sid)" and "scroll_result sc = Some p" and "scroll_currentLength sc = length p"
    and "scroll_current sc < length p" and "left req sid rest w" and "hs = drop (scroll_current sc) p @ rest"
    and "list_all2 (\<lambda>h d. decode_hit decode h = Some d) hs (d # ds)"
  shows "\<exists>sc'. Next E decode sc w = (Inr d, sc', w) \<and> snd (scrollService sc') \<noteq> None \<and> scroll_due E db left sc' (tl hs) w"
proof -
  obtain i src where h: "p ! scroll_current sc = (i, src)" by fastforce
  have hs: "hs = (i, src) # drop (Suc (scroll_current sc)) p @ rest"
    using assms(4,6) h by (simp add: Cons_nth_drop_Suc[symmetric])
  then obtain d0 where d0: "decode src = Some d0" "d = SetID i d0" using assms(7) by (auto simp: decode_hit_def)
  let ?s = "sc\<lparr>scroll_current := scroll_current sc + 1\<rparr>"
  have "Next E decode sc w = (Inr d, ?s, w)"
    using assms(1-4) h d0 by (simp add: Next_def scroll_load_def)
  moreover have "scroll_due E db left ?s (tl hs) w" "snd (scrollService ?s) \<noteq> None" using assms(1-5) hs by (auto simp: scroll_due_def)
  ultimately show ?thesis by blast
qed

lemma next_due:
  assumes "scroll_due E db left sc hs w" and "list_all2 (\<lambda>h d. decode_hit decode h = Some d) hs ds"
  shows "\<exists>r sc' w'. Next E decode sc w = (r, sc', w') \<and> db w' = db w \<and>
    (case ds of [] \<Rightarrow> r = Inl EOF | d # _ \<Rightarrow> r = Inr d \<and> snd (scrollService sc') \<noteq> None \<and> scroll_due E db left sc' (tl hs) w')"
proof -
  obtain req sid where sv: "scrollService sc = (req, sid)" by fastforce
  show ?thesis
  proof (cases "\<exists>p. scroll_result sc = Some p \<and> scroll_current sc < length p")
    case True
    then obtain p where p: "scroll_result sc = Some p" "scroll_current sc < length p" by blast
    with assms(1) sv obtain sid' rest where q: "sid = Some sid'" "scroll_currentLength sc = length p"
      "hs = drop (scroll_current sc) p @ rest" "left req sid' rest w" by (cases sid) (auto simp: scroll_due_def)
    then obtain d ds' where ds: "ds = d # ds'" using assms(2) p(2) by (cases ds) auto
    from buffer_due[OF sv[unfolded q(1)] p(1) q(2) p(2) q(4,3) assms(2)[unfolded ds]] show ?thesis
      unfolding ds by auto
  next
    case False
    then have t: "scroll_turn E db left req sid hs w" and e: "scroll_result sc = None \<or> scroll_current sc \<ge> scroll_currentLength sc"
      using assms(1) sv next_req by (auto simp: scroll_due_def split: option.splits)
    from t obtain r w' where r: "es_Scroll E req sid w = (r, w')" "db w' = db w" and c: "case r of
        Inl e \<Rightarrow> e = EOF \<and> hs = [] | Inr (sid', p) \<Rightarrow> p \<noteq> [] \<and> (\<exists>rest. hs = p @ rest \<and> left req sid' rest w')"
      unfolding scroll_turn_def by blast
    show ?thesis
    proof (cases r)
      case (Inl err)
      then have "Next E decode sc w = (Inl EOF, sc, w')" and "ds = []"
        using c r(1) sv e assms(2) by (auto simp: Next_def scroll_load_def)
      then show ?thesis using r(2) by simp
    next
      case (Inr x)
      then obtain sid' p rest where p: "r = Inr (sid', p)" "p \<noteq> []" "hs = p @ rest" "left req sid' rest w'"
        using c by (cases x) auto
      obtain d ds' where ds: "ds = d # ds'" using assms(2) p(2,3) by (cases ds) auto
      let ?s = "sc\<lparr>scrollService := (req, Some sid'), scroll_result := Some p, scroll_current := 0, scroll_currentLength := length p\<rparr>"
      have "Next E decode sc w = Next E decode ?s w'"
        using sv r(1) p(1,2) e by (auto simp: Next_def scroll_load_def Let_def)
      moreover have "\<exists>sc'. Next E decode ?s w' = (Inr d, sc', w') \<and> snd (scrollService sc') \<noteq> None \<and> scroll_due E db left sc' (tl hs) w'"
        by (rule buffer_due[of _ req sid' p rest]) (use p assms(2) ds in simp_all)
      ultimately show ?thesis using r(2) by (auto simp: ds)
    qed
  qed
qed

text \<open>The loop of a \<open>Scroll\<close> function with an invariant: what is still to come, what was accumulated and the state.\<close>

lemma scroll_each_rule:
  assumes "scroll_due E db left sc hs (world s)" and "list_all2 (\<lambda>h d. decode_hit decode h = Some d) hs ds" and "J ds acc s"
    and world: "\<And>ds acc s w. J ds acc s \<Longrightarrow> db w = db (world s) \<Longrightarrow> J ds acc (s\<lparr>world := w\<rparr>)"
    and visit: "\<And>d ds acc s. J (d # ds) acc s \<Longrightarrow> \<exists>acc' s'. fn d acc s = Some (Ret acc', s') \<and> J ds acc' s' \<and>
      (\<forall>req sid rest. left req sid rest (world s) \<longrightarrow> left req sid rest (world s'))"
  shows "\<exists>acc' s'. scroll_each E decode fn acc sc s = Some (Ret acc', s') \<and> J [] acc' s'"
  using assms(1-3)
proof (induction ds arbitrary: sc hs acc s)
  case Nil
  from next_due[OF Nil.prems(1,2)] obtain sc' w' where "Next E decode sc (world s) = (Inl EOF, sc', w')" "db w' = db (world s)"
    by auto
  then show ?case using world[OF Nil.prems(3)] by (subst scroll_each.simps) (simp add: next_doc_def)
next
  case (Cons d ds)
  from next_due[OF Cons.prems(1,2)] obtain sc' w' where n: "Next E decode sc (world s) = (Inr d, sc', w')"
    and w': "db w' = db (world s)" and sv: "snd (scrollService sc') \<noteq> None" and du: "scroll_due E db left sc' (tl hs) w'" by auto
  from visit[OF world[OF Cons.prems(3) w']] obtain acc' s' where f: "fn d acc (s\<lparr>world := w'\<rparr>) = Some (Ret acc', s')" and J: "J ds acc' s'"
    and l: "\<forall>req sid rest. left req sid rest w' \<longrightarrow> left req sid rest (world s')" by auto
  have "scroll_due E db left sc' (tl hs) (world s')"
    using sv du l by (cases "scrollService sc'") (auto simp: scroll_due_def)
  moreover have "list_all2 (\<lambda>h d. decode_hit decode h = Some d) (tl hs) ds" using Cons.prems(2) by (cases hs) auto
  ultimately obtain acc2 s2 where "scroll_each E decode fn acc' sc' s' = Some (Ret acc2, s2)" "J [] acc2 s2"
    using Cons.IH J by blast
  moreover have "scroll_each E decode fn acc sc s = scroll_each E decode fn acc' sc' s'"
    using n by (subst scroll_each.simps) (simp add: next_doc_def bnd_Ret[where m = "fn d acc", OF f])
  ultimately show ?case by auto
qed

text \<open>The whole: the documents of the index come in some order, each once.\<close>

lemma scroll_index_rule:
  assumes rd: "readable decode (\<lambda>w. db_docs (db w)) (index_name s t) (world s)"
    and f: "\<And>d src. db_docs (db (world s)) (index_name s t) d = Some src \<Longrightarrow> map_of src f \<noteq> None" "f \<noteq> []"
    and start: "\<And>ds. distinct (map Doc_Id ds) \<Longrightarrow>
      set ds = ran (stored decode (\<lambda>w. db_docs (db w)) (index_name s t) (world s)) \<Longrightarrow> J ds acc s"
    and world: "\<And>ds acc s w. J ds acc s \<Longrightarrow> db w = db (world s) \<Longrightarrow> J ds acc (s\<lparr>world := w\<rparr>)"
    and visit: "\<And>d ds acc s. J (d # ds) acc s \<Longrightarrow> \<exists>acc' s'. fn d acc s = Some (Ret acc', s') \<and> J ds acc' s' \<and>
      (\<forall>req sid rest. left req sid rest (world s) \<longrightarrow> left req sid rest (world s'))"
  obtains acc' s' where "scroll_index_of E t f decode fn acc s = Some (Ret acc', s')" "J [] acc' s'"
proof -
  let ?i = "index_name s t" and ?D = "db (world s)" and ?sc = "Scroll (scroll_params (index_name s t) f)"
  define req where "req = fst (scrollService ?sc)"
  have q: "scroll_index req = ?i" "scroll_query req = RangeQuery f None None" "scroll_include req = []"
    "scrollService ?sc = (req, None)" "scroll_result ?sc = None"
    using f(2) by (simp_all add: req_def Scroll_def scroll_params_def zeroQueryParams_def scroll_range_def)
  have hit: "hit_by (RangeQuery f None None) d src = Some True" if "db_docs ?D ?i d = Some src" for d src
    using f(1)[OF that] by (auto split: option.split sval.split)
  then have "decided (scroll_index req) (scroll_query req) ?D" unfolding q decided_def by simp
  from open_req[OF this q(3)] obtain hs where l: "listing (Some (scroll_sort req, scroll_asc req)) (found ?i (RangeQuery f None None) ?D) hs"
    and turn: "scroll_turn E db left req None hs (world s)" unfolding q by blast
  have hs: "distinct hs" "set hs = {(d, src). db_docs ?D ?i d = Some src}"
    using l hit by (auto simp: listing_def found_def simp del: hit_by.simps)
  let ?ds = "map (\<lambda>h. the (decode_hit decode h)) hs"
  have dec: "decode_hit decode h = Some (the (decode_hit decode h))" "Doc_Id (the (decode_hit decode h)) = fst h" if "h \<in> set hs" for h
    using that hs(2) rd by (force simp: readable_def decode_hit_def SetID_def)+
  have "inj_on fst (set hs)" unfolding hs(2) by (auto simp: inj_on_def)
  then have "distinct (map fst hs)" using hs(1) by (simp add: distinct_map)
  also have "map fst hs = map Doc_Id ?ds" using dec(2) by simp
  finally have 1: "distinct (map Doc_Id ?ds)" .
  have 2: "set ?ds = ran (stored decode (\<lambda>w. db_docs (db w)) ?i (world s))" (is "_ = ran ?T")
  proof -
    have "?T d = Some k \<longleftrightarrow> (\<exists>src. (d, src) \<in> set hs \<and> decode_hit decode (d, src) = Some k)" for d k
      by (auto simp: stored_def hs(2) decode_hit_def split: option.splits)
    then have "ran ?T = {k. \<exists>h \<in> set hs. decode_hit decode h = Some k}" by (auto simp: ran_def)
    also have "\<dots> = set ?ds" using dec(1) by (auto simp: image_iff) (metis dec(1) prod.exhaust_sel option.sel)+
    finally show ?thesis ..
  qed
  have "scroll_due E db left ?sc hs (world s)" unfolding scroll_due_def q(4) using turn q(5) by simp
  moreover have "list_all2 (\<lambda>h d. decode_hit decode h = Some d) hs ?ds" using dec(1) by (auto simp: list_all2_conv_all_nth)
  ultimately obtain acc' s' where "scroll_each E decode fn acc ?sc s = Some (Ret acc', s')" "J [] acc' s'"
    using scroll_each_rule[of ?sc hs s decode ?ds J acc fn, OF _ _ start[OF 1 2] world visit] by blast
  then show thesis using that[of acc' s'] by (simp add: scroll_index_of_def bnd_assoc)
qed

end

text \<open>In memory the first page has all the hits.\<close>

interpretation memory: scrolling mem_env mem_db "\<lambda>_ _ hs _. hs = []"
proof
  fix req :: scroll_request and w :: mem
  assume d: "decided (scroll_index req) (scroll_query req) (mem_db w)"
  let ?hs = "by_field (scroll_sort req) (scroll_asc req) (mem_hits (scroll_index req) (scroll_query req) w)"
  have "scroll_turn mem_env mem_db (\<lambda>_ _ hs _. hs = []) req None ?hs w"
    by (cases "?hs = []") (simp_all add: scroll_turn_def mem_env_def mem_scroll_def)
  then show "\<exists>hs. listing (Some (scroll_sort req, scroll_asc req)) (found (scroll_index req) (scroll_query req) (mem_db w)) hs \<and>
      scroll_turn mem_env mem_db (\<lambda>_ _ hs _. hs = []) req None hs w"
    using mem_found[OF d] listing_by_field[of "mem_hits (scroll_index req) (scroll_query req) w"] by metis
qed (simp_all add: scroll_turn_def mem_env_def mem_scroll_def)

text \<open>Nor does it matter what the contracts of the node answer.\<close>

lemma scroll_pages_node: "scroll_pages (E\<lparr>rpc_QueryContract := f\<rparr>) req sid w ps w' \<longleftrightarrow> scroll_pages E req sid w ps w'"
proof
  show "scroll_pages (E\<lparr>rpc_QueryContract := f\<rparr>) req sid w ps w' \<Longrightarrow> scroll_pages E req sid w ps w'"
    by (induction rule: scroll_pages.induct) (auto intro: scroll_pages.intros)
  show "scroll_pages E req sid w ps w' \<Longrightarrow> scroll_pages (E\<lparr>rpc_QueryContract := f\<rparr>) req sid w ps w'"
    by (induction rule: scroll_pages.induct) (auto intro: scroll_pages.intros)
qed

lemma scrolling_node:
  assumes "scrolling E db left" and "\<And>a q w. snd (f a q w) = w"
  shows "scrolling (E\<lparr>rpc_QueryContract := f\<rparr>) db left"
proof -
  have "elastic E db" using assms(1) by (simp add: scrolling_def)
  then have "elastic (E\<lparr>rpc_QueryContract := f\<rparr>) db" by (simp add: elastic_def scroll_pages_node)
  moreover have "scrolling_axioms (E\<lparr>rpc_QueryContract := f\<rparr>) db left"
    using assms by (simp add: scrolling_def scrolling_axioms_def scroll_turn_def)
  ultimately show ?thesis by (simp add: scrolling_def)
qed

end
