(* ===== verification/Registration.thy ===== *)
theory Registration
  imports Scrolls
begin

text \<open>
  What the start of the indexer registers (\<open>registerVariables\<close> in \<open>indexer/cache.go\<close>): the names of verified tokens and
  contracts go to the whitelist, the addresses of stored balances are tracked.
\<close>

section \<open>The whitelist as it is filled\<close>

definition list_entries :: "string \<Rightarrow> ('d BaseEsType_scheme \<Rightarrow> string) \<Rightarrow> string \<Rightarrow> 'd BaseEsType_scheme list \<Rightarrow> database \<Rightarrow> database" where
  "list_entries i name t ds = fold (\<lambda>d. if name d = [] then id
     else put i (name d) (EsWhitelist_source (ConvWhitelist (name d) (Doc_Id d) t))) ds"

lemma list_entries_frame: "j \<noteq> i \<Longrightarrow> db_docs (list_entries i name t ds D) j = db_docs D j"
  by (induction ds arbitrary: D) (simp_all add: list_entries_def put_def)

lemma list_entries_at:
  "if \<exists>d \<in> set ds. name d = n \<and> n \<noteq> []
   then \<exists>d \<in> set ds. name d = n \<and> db_docs (list_entries i name t ds D) i n = Some (EsWhitelist_source (ConvWhitelist n (Doc_Id d) t))
   else db_docs (list_entries i name t ds D) i n = db_docs D i n"
proof (induction ds rule: rev_induct)
  case (snoc d ds)
  have "list_entries i name t (ds @ [d]) D = (if name d = [] then list_entries i name t ds D
      else put i (name d) (EsWhitelist_source (ConvWhitelist (name d) (Doc_Id d) t)) (list_entries i name t ds D))"
    by (simp add: list_entries_def)
  then show ?case using snoc by (cases "name d = n \<and> n \<noteq> []") (force simp: put_def split: if_splits)+
qed (simp add: list_entries_def)

text \<open>What is stored in an index depends on this index only.\<close>

lemma stored_index: "view w' i = view w i \<Longrightarrow> stored decode view i w' = stored decode view i w"
  by (simp add: stored_def fun_eq_iff)

context scrolling begin

lemmas stored_docs = stored_index[where view = "\<lambda>w. db_docs (db w)"]

lemma addWhitelist_puts:
  obtains w where "addWhitelist E e s = Some (Ret (), s\<lparr>world := w\<rparr>)"
    "db w = put (index_name s ''whitelist'') (Doc_Id e) (EsWhitelist_source e) (db (world s))"
    "\<forall>req sid rest. left req sid rest (world s) \<longrightarrow> left req sid rest w"
proof -
  let ?w = "snd (es_Index E (index_name s ''whitelist'') (Doc_Id e) (EsWhitelist_source e) (world s))"
  obtain w' where i: "es_Index E (index_name s ''whitelist'') (Doc_Id e) (EsWhitelist_source e) (world s) = (None, w')"
    "db w' = put (index_name s ''whitelist'') (Doc_Id e) (EsWhitelist_source e) (db (world s))"
    using index_req by blast
  have "addWhitelist E e s = Some (Ret (), s\<lparr>world := ?w\<rparr>)" by (simp add: addWhitelist_def Insert_def GetID_def)
  then show thesis by (rule that) (use i keeps_left(1) in \<open>auto, metis snd_conv\<close>)
qed

lemma names_listed:
  fixes name :: "'d BaseEsType_scheme \<Rightarrow> string"
  assumes rd: "readable decode (\<lambda>w. db_docs (db w)) (index_name s t) (world s)"
    and f: "\<And>d src. db_docs (db (world s)) (index_name s t) d = Some src \<Longrightarrow> map_of src f \<noteq> None" "f \<noteq> []"
  obtains ds w where "scroll_index_of E t f decode (\<lambda>d _. whn (name d \<noteq> []) (addWhitelist E (ConvWhitelist (name d) (Doc_Id d) ty))) () s =
      Some (Ret (), s\<lparr>world := w\<rparr>)"
    "set ds = ran (stored decode (\<lambda>w. db_docs (db w)) (index_name s t) (world s))"
    "db w = list_entries (index_name s ''whitelist'') name ty ds (db (world s))"
proof -
  let ?T = "stored decode (\<lambda>w. db_docs (db w)) (index_name s t) (world s)" and ?i = "index_name s ''whitelist''"
  let ?fn = "\<lambda>d (_ :: unit). whn (name d \<noteq> []) (addWhitelist E (ConvWhitelist (name d) (Doc_Id d) ty))"
  define J where "J ds (u :: unit) s' \<longleftrightarrow> (\<exists>ds0 w. set (ds0 @ ds) = ran ?T \<and> s' = s\<lparr>world := w\<rparr> \<and>
    db w = list_entries ?i name ty ds0 (db (world s)))" for ds u s'
  have start: "J ds () s" if "set ds = ran ?T" for ds
    unfolding J_def by (intro exI[of _ "[]"] exI[of _ "world s"]) (simp add: that list_entries_def)
  have world: "J ds () (s'\<lparr>world := w\<rparr>)" if "J ds () s'" and "db w = db (world s')" for ds s' w
    using that unfolding J_def by (elim exE conjE) (intro exI conjI, assumption, simp_all)
  have visit: "\<exists>acc' s2. ?fn d () s' = Some (Ret acc', s2) \<and> J ds acc' s2 \<and>
      (\<forall>req sid rest. left req sid rest (world s') \<longrightarrow> left req sid rest (world s2))" if "J (d # ds) () s'" for d ds s'
  proof -
    from that obtain ds0 w where h: "set (ds0 @ d # ds) = ran ?T" "s' = s\<lparr>world := w\<rparr>" "db w = list_entries ?i name ty ds0 (db (world s))"
      unfolding J_def by blast
    have snoc: "list_entries ?i name ty (ds0 @ [d]) (db (world s)) = (if name d = [] then db w
        else put ?i (name d) (EsWhitelist_source (ConvWhitelist (name d) (Doc_Id d) ty)) (db w))"
      by (simp add: list_entries_def h(3))
    show ?thesis
    proof (cases "name d = []")
      case True
      have "J ds () s'" unfolding J_def by (intro exI[of _ "ds0 @ [d]"] exI[of _ w]) (use h snoc True in simp)
      then show ?thesis using True by (auto simp: whn_def)
    next
      case False
      obtain w' where a: "addWhitelist E (ConvWhitelist (name d) (Doc_Id d) ty) s' = Some (Ret (), s'\<lparr>world := w'\<rparr>)"
        "db w' = put (index_name s' ''whitelist'') (Doc_Id (ConvWhitelist (name d) (Doc_Id d) ty))
          (EsWhitelist_source (ConvWhitelist (name d) (Doc_Id d) ty)) (db (world s'))"
        "\<forall>req sid rest. left req sid rest (world s') \<longrightarrow> left req sid rest w'"
        by (rule addWhitelist_puts[of "ConvWhitelist (name d) (Doc_Id d) ty" s'])
      have "J ds () (s'\<lparr>world := w'\<rparr>)" unfolding J_def
        by (intro exI[of _ "ds0 @ [d]"] exI[of _ w']) (use h snoc False a(2) in \<open>simp add: index_name_def ConvWhitelist_def\<close>)
      then show ?thesis using False a by (auto simp: whn_def)
    qed
  qed
  obtain s' where run: "scroll_index_of E t f decode ?fn () s = Some (Ret (), s')" and "J [] () s'"
    by (rule scroll_index_rule[OF rd f, where J = J and acc = "()" and fn = ?fn]) (use start world visit in auto)
  then show thesis using that unfolding J_def by auto
qed

text \<open>Balances are only remembered.\<close>

lemma balances_tracked:
  assumes rd: "readable EsAccountBalance_decode (\<lambda>w. db_docs (db w)) (index_name s ''account_balance'') (world s)"
    and f: "\<And>d src. db_docs (db (world s)) (index_name s ''account_balance'') d = Some src \<Longrightarrow> map_of src ''staking_float'' \<noteq> None"
  obtains as w where "ScrollBalance E (\<lambda>d _. storeBalance (Doc_Id d)) () s = Some (Ret (), s\<lparr>world := w, addrsBalance := as\<rparr>)"
    "db w = db (world s)"
    "set as = set (addrsBalance s) \<union> dom (stored EsAccountBalance_decode (\<lambda>w. db_docs (db w)) (index_name s ''account_balance'') (world s))"
proof -
  let ?T = "stored EsAccountBalance_decode (\<lambda>w. db_docs (db w)) (index_name s ''account_balance'') (world s)"
  let ?fn = "\<lambda>(d :: EsAccountBalance) (_ :: unit). storeBalance (Doc_Id d)"
  define J where "J ds (u :: unit) s' \<longleftrightarrow> (\<exists>ds0 w as. set (ds0 @ ds) = ran ?T \<and> s' = s\<lparr>world := w, addrsBalance := as\<rparr> \<and>
    db w = db (world s) \<and> set as = set (addrsBalance s) \<union> Doc_Id ` set ds0)" for ds u s'
  have start: "J ds () s" if "set ds = ran ?T" for ds
    unfolding J_def by (intro exI[of _ "[]"] exI[of _ "world s"] exI[of _ "addrsBalance s"]) (simp add: that)
  have world: "J ds () (s'\<lparr>world := w\<rparr>)" if "J ds () s'" and "db w = db (world s')" for ds s' w
  proof -
    from that(1) obtain ds0 w0 as where "set (ds0 @ ds) = ran ?T" "s' = s\<lparr>world := w0, addrsBalance := as\<rparr>" "db w0 = db (world s)"
      "set as = set (addrsBalance s) \<union> Doc_Id ` set ds0" unfolding J_def by blast
    then show ?thesis using that(2) unfolding J_def by (intro exI[of _ ds0] exI[of _ w] exI[of _ as]) simp
  qed
  have visit: "\<exists>acc' s2. ?fn d () s' = Some (Ret acc', s2) \<and> J ds acc' s2 \<and>
      (\<forall>req sid rest. left req sid rest (world s') \<longrightarrow> left req sid rest (world s2))" if "J (d # ds) () s'" for d ds s'
  proof -
    from that obtain ds0 w as where h: "set (ds0 @ d # ds) = ran ?T" "s' = s\<lparr>world := w, addrsBalance := as\<rparr>" "db w = db (world s)"
      "set as = set (addrsBalance s) \<union> Doc_Id ` set ds0" unfolding J_def by blast
    let ?as = "if Doc_Id d \<in> set as then as else Doc_Id d # as"
    have "?fn d () s' = Some (Ret (), s\<lparr>world := w, addrsBalance := ?as\<rparr>)" using h(2) by (simp add: storeBalance_def)
    moreover have "J ds () (s\<lparr>world := w, addrsBalance := ?as\<rparr>)" unfolding J_def
      by (intro exI[of _ "ds0 @ [d]"] exI[of _ w] exI[of _ ?as]) (use h in auto)
    ultimately show ?thesis using h(2) by auto
  qed
  obtain s' where run: "scroll_index_of E ''account_balance'' ''staking_float'' EsAccountBalance_decode ?fn () s = Some (Ret (), s')" and "J [] () s'"
    by (rule scroll_index_rule[OF rd f, where J = J and acc = "()" and fn = ?fn]) (use start world visit in auto)
  moreover have "Doc_Id ` ran ?T = dom ?T" by (auto simp: ran_def dom_def image_iff) (metis stored_id)+
  ultimately show thesis using that unfolding J_def ScrollBalance_def by auto
qed

lemma registers:
  assumes rd: "readable EsToken_decode (\<lambda>w. db_docs (db w)) (index_name s ''token'') (world s)"
      "readable EsContract_decode (\<lambda>w. db_docs (db w)) (index_name s ''contract'') (world s)"
      "readable EsAccountBalance_decode (\<lambda>w. db_docs (db w)) (index_name s ''account_balance'') (world s)"
    and f: "\<And>src. src \<in> ran (db_docs (db (world s)) (index_name s ''token'')) \<Longrightarrow> map_of src ''blockno'' \<noteq> None"
      "\<And>src. src \<in> ran (db_docs (db (world s)) (index_name s ''contract'')) \<Longrightarrow> map_of src ''blockno'' \<noteq> None"
      "\<And>src. src \<in> ran (db_docs (db (world s)) (index_name s ''account_balance'')) \<Longrightarrow> map_of src ''staking_float'' \<noteq> None"
  obtains as w ks cs where "registerVariables E s = Some (Ret (), s\<lparr>world := w, addrsBalance := as\<rparr>)"
    "set ks = ran (stored EsToken_decode (\<lambda>w. db_docs (db w)) (index_name s ''token'') (world s))"
    "set cs = ran (stored EsContract_decode (\<lambda>w. db_docs (db w)) (index_name s ''contract'') (world s))"
    "db w = list_entries (index_name s ''whitelist'') EsContract_VerifiedToken ''contract'' cs
      (list_entries (index_name s ''whitelist'') EsToken_TokenAddress ''token'' ks (db (world s)))"
    "set as = set (addrsBalance s) \<union> dom (stored EsAccountBalance_decode (\<lambda>w. db_docs (db w)) (index_name s ''account_balance'') (world s))"
proof -
  note f = f[OF ranI]
  obtain ks w1 where 1: "ScrollToken E (\<lambda>d _. whn (EsToken_TokenAddress d \<noteq> [])
        (addWhitelist E (ConvWhitelist (EsToken_TokenAddress d) (Doc_Id d) ''token''))) () s = Some (Ret (), s\<lparr>world := w1\<rparr>)"
    and ks: "set ks = ran (stored EsToken_decode (\<lambda>w. db_docs (db w)) (index_name s ''token'') (world s))"
    and d1: "db w1 = list_entries (index_name s ''whitelist'') EsToken_TokenAddress ''token'' ks (db (world s))"
    unfolding ScrollToken_def by (rule names_listed[OF rd(1) f(1)]) simp_all
  let ?s1 = "s\<lparr>world := w1\<rparr>"
  have at1: "db_docs (db w1) (index_name s t) = db_docs (db (world s)) (index_name s t)" if "t \<noteq> ''whitelist''" for t
    using that by (simp add: d1 list_entries_frame index_name_def)
  have n1: "index_name ?s1 t = index_name s t" for t by (simp add: index_name_def)
  have r1: "readable EsContract_decode (\<lambda>w. db_docs (db w)) (index_name ?s1 ''contract'') (world ?s1)"
    using rd(2) at1[of "''contract''"] by (simp add: readable_def n1)
  have f1: "map_of src ''blockno'' \<noteq> None" if "db_docs (db (world ?s1)) (index_name ?s1 ''contract'') d = Some src" for d src
    using that f(2)[of d src] at1[of "''contract''"] by (simp add: n1)
  obtain cs w2 where 2: "ScrollContract E (\<lambda>d _. whn (EsContract_VerifiedToken d \<noteq> [])
        (addWhitelist E (ConvWhitelist (EsContract_VerifiedToken d) (Doc_Id d) ''contract''))) () ?s1 = Some (Ret (), ?s1\<lparr>world := w2\<rparr>)"
    and cs: "set cs = ran (stored EsContract_decode (\<lambda>w. db_docs (db w)) (index_name ?s1 ''contract'') (world ?s1))"
    and d2: "db w2 = list_entries (index_name ?s1 ''whitelist'') EsContract_VerifiedToken ''contract'' cs (db (world ?s1))"
    unfolding ScrollContract_def by (rule names_listed[OF r1 f1]) simp_all
  let ?s2 = "s\<lparr>world := w2\<rparr>"
  have at2: "db_docs (db w2) (index_name s t) = db_docs (db (world s)) (index_name s t)" if "t \<noteq> ''whitelist''" for t
    using that at1[OF that] by (simp add: d2 list_entries_frame index_name_def)
  have n2: "index_name ?s2 t = index_name s t" for t by (simp add: index_name_def)
  have r2: "readable EsAccountBalance_decode (\<lambda>w. db_docs (db w)) (index_name ?s2 ''account_balance'') (world ?s2)"
    using rd(3) at2[of "''account_balance''"] by (simp add: readable_def n2)
  have f2: "map_of src ''staking_float'' \<noteq> None" if "db_docs (db (world ?s2)) (index_name ?s2 ''account_balance'') d = Some src" for d src
    using that f(3)[of d src] at2[of "''account_balance''"] by (simp add: n2)
  obtain as w where 3: "ScrollBalance E (\<lambda>d _. storeBalance (Doc_Id d)) () ?s2 = Some (Ret (), ?s2\<lparr>world := w, addrsBalance := as\<rparr>)"
    and d3: "db w = db (world ?s2)"
    and as: "set as = set (addrsBalance ?s2) \<union> dom (stored EsAccountBalance_decode (\<lambda>w. db_docs (db w)) (index_name ?s2 ''account_balance'') (world ?s2))"
    by (rule balances_tracked[OF r2 f2])
  show thesis
  proof (rule that[where w = w and as = as and ks = ks and cs = cs])
    show "registerVariables E s = Some (Ret (), s\<lparr>world := w, addrsBalance := as\<rparr>)"
      unfolding registerVariables_def by (rule trans[OF sq_Ret], rule 1, rule trans[OF sq_Ret], rule 2) (use 3 in simp)
    show "set cs = ran (stored EsContract_decode (\<lambda>w. db_docs (db w)) (index_name s ''contract'') (world s))"
      using cs stored_docs[OF at1[of "''contract''"], where decode = EsContract_decode] by (simp add: n1)
    show "db w = list_entries (index_name s ''whitelist'') EsContract_VerifiedToken ''contract'' cs
      (list_entries (index_name s ''whitelist'') EsToken_TokenAddress ''token'' ks (db (world s)))"
      using d3 d2 d1 by (simp add: n1)
    show "set as = set (addrsBalance s) \<union> dom (stored EsAccountBalance_decode (\<lambda>w. db_docs (db w)) (index_name s ''account_balance'') (world s))"
      using as stored_docs[OF at2[of "''account_balance''"], where decode = EsAccountBalance_decode] by (simp add: n2)
  qed (rule ks)
qed

end

section \<open>The property\<close>

text \<open>C19: at the start every name that a verified contract carries is in the whitelist with such a contract, every other
  name that a verified token carries with such a token, and the other entries are as they were; and every address whose
  balance is stored is tracked. This holds though the whitelist is written while the indices are scrolled.\<close>

theorem lists_registered:
  assumes "scrolling E db left" and "view = (\<lambda>w. db_docs (db w))"
    and "readable EsToken_decode view (index_name s ''token'') (world s)"
    and "readable EsContract_decode view (index_name s ''contract'') (world s)"
    and "readable EsAccountBalance_decode view (index_name s ''account_balance'') (world s)"
    and "\<forall>(t, f) \<in> {(''token'', ''blockno''), (''contract'', ''blockno''), (''account_balance'', ''staking_float'')}.
      \<forall>src \<in> ran (view (world s) (index_name s t)). map_of src f \<noteq> None"
    and "T = stored EsToken_decode view (index_name s ''token'') (world s)"
    and "C = stored EsContract_decode view (index_name s ''contract'') (world s)"
    and "W = stored EsWhitelist_decode view (index_name s ''whitelist'') (world s)"
  shows "\<exists>s' W'. registerVariables E s = Some (Ret (), s') \<and>
    W' = stored EsWhitelist_decode view (index_name s' ''whitelist'') (world s') \<and>
    (\<forall>n. if \<exists>k \<in> ran C. EsContract_VerifiedToken k = n \<and> n \<noteq> []
      then \<exists>k \<in> ran C. EsContract_VerifiedToken k = n \<and> W' n = Some (ConvWhitelist n (Doc_Id k) ''contract'')
      else if \<exists>k \<in> ran T. EsToken_TokenAddress k = n \<and> n \<noteq> []
      then \<exists>k \<in> ran T. EsToken_TokenAddress k = n \<and> W' n = Some (ConvWhitelist n (Doc_Id k) ''token'')
      else W' n = W n) \<and>
    set (addrsBalance s') = set (addrsBalance s) \<union>
      dom (stored EsAccountBalance_decode view (index_name s ''account_balance'') (world s))"
proof -
  let ?i = "index_name s ''whitelist''"
  note view = assms(2)
  obtain as w ks cs where run: "registerVariables E s = Some (Ret (), s\<lparr>world := w, addrsBalance := as\<rparr>)"
    and ks: "set ks = ran T" and cs: "set cs = ran C"
    and d: "db w = list_entries ?i EsContract_VerifiedToken ''contract'' cs (list_entries ?i EsToken_TokenAddress ''token'' ks (db (world s)))"
    and as: "set as = set (addrsBalance s) \<union> dom (stored EsAccountBalance_decode view (index_name s ''account_balance'') (world s))"
    unfolding assms(7,8) view
    by (rule scrolling.registers[OF assms(1) assms(3-5)[unfolded view]]) (use assms(6) in \<open>auto simp: view\<close>)
  let ?W = "stored EsWhitelist_decode view ?i w"
  have entry: "?W n = Some (ConvWhitelist n c t)" if "db_docs (db w) ?i n = Some (EsWhitelist_source (ConvWhitelist n c t))" for n c t
    using that by (simp add: stored_def view EsWhitelist_roundtrip SetID_def ConvWhitelist_def)
  have other: "?W n = W n" if "db_docs (db w) ?i n = db_docs (db (world s)) ?i n" for n
    using that by (simp add: stored_def view assms(9))
  have all: "if \<exists>k \<in> ran C. EsContract_VerifiedToken k = n \<and> n \<noteq> []
      then \<exists>k \<in> ran C. EsContract_VerifiedToken k = n \<and> ?W n = Some (ConvWhitelist n (Doc_Id k) ''contract'')
      else if \<exists>k \<in> ran T. EsToken_TokenAddress k = n \<and> n \<noteq> []
      then \<exists>k \<in> ran T. EsToken_TokenAddress k = n \<and> ?W n = Some (ConvWhitelist n (Doc_Id k) ''token'')
      else ?W n = W n" for n
    using list_entries_at[of cs EsContract_VerifiedToken n ?i "''contract''" "list_entries ?i EsToken_TokenAddress ''token'' ks (db (world s))"]
      list_entries_at[of ks EsToken_TokenAddress n ?i "''token''" "db (world s)"] entry[of n] other[of n]
    unfolding ks cs d[symmetric] by (simp only: split: if_splits) metis+
  show ?thesis
  proof (intro exI conjI allI)
    show "registerVariables E s = Some (Ret (), s\<lparr>world := w, addrsBalance := as\<rparr>)" by (rule run)
    show "?W = stored EsWhitelist_decode view (index_name (s\<lparr>world := w, addrsBalance := as\<rparr>) ''whitelist'')
      (world (s\<lparr>world := w, addrsBalance := as\<rparr>))" by (simp add: index_name_def)
  qed (use all as in simp_all)
qed

text \<open>Two tokens and a contract with names, one of them on both; and a balance.\<close>

definition named_token :: "string \<Rightarrow> string \<Rightarrow> EsToken" where
  "named_token d n = (cccv_token d ''tx1'' 3)\<lparr>EsToken_TokenAddress := n\<rparr>"

definition named_contract :: "string \<Rightarrow> string \<Rightarrow> EsContract" where
  "named_contract d n = \<lparr>Doc_Id = d, EsContract_TxId = ''tx1'', EsContract_Creator = ''alice'', EsContract_BlockNo = 3,
     EsContract_Timestamp = 1, EsContract_Payload = [], EsContract_VerifiedStatus = Verified, EsContract_VerifiedToken = n,
     EsContract_CodeUrl = [], EsContract_Code = []\<rparr>"

definition named_world :: "mem Indexer" where
  "named_world = sample_indexer (empty_mem\<lparr>m_docs := [((''p_token'', ''t1''), EsToken_source (named_token ''t1'' ''a'')),
     ((''p_token'', ''t2''), EsToken_source (named_token ''t2'' ''b'')), ((''p_contract'', ''c''), EsContract_source (named_contract ''c'' ''b'')),
     ((''p_account_balance'', ''alice''), EsAccountBalance_source (ConvAccountBalance 3 ''alice'' 1 ''5'' one32 ''0'' zero32))]\<rparr>)"

lemma named_world_stored:
  "index_name named_world t = ''p_'' @ t"
  "stored EsToken_decode mem_view ''p_token'' (world named_world) = [''t1'' \<mapsto> named_token ''t1'' ''a'', ''t2'' \<mapsto> named_token ''t2'' ''b'']"
  "stored EsContract_decode mem_view ''p_contract'' (world named_world) = [''c'' \<mapsto> named_contract ''c'' ''b'']"
  "readable EsToken_decode mem_view ''p_token'' (world named_world)"
  "readable EsContract_decode mem_view ''p_contract'' (world named_world)"
  "readable EsAccountBalance_decode mem_view ''p_account_balance'' (world named_world)"
  by (auto simp: stored_def readable_def named_world_def mem_view_def EsToken_roundtrip EsContract_roundtrip
      EsAccountBalance_roundtrip SetID_def named_token_def named_contract_def cccv_token_def)

theorem lists_registered_witness:
  "\<exists>s'. registerVariables mem_env named_world = Some (Ret (), s') \<and>
    stored EsWhitelist_decode mem_view (index_name s' ''whitelist'') (world s') ''a'' = Some (ConvWhitelist ''a'' ''t1'' ''token'') \<and>
    stored EsWhitelist_decode mem_view (index_name s' ''whitelist'') (world s') ''b'' = Some (ConvWhitelist ''b'' ''c'' ''contract'') \<and>
    ''alice'' \<in> set (addrsBalance s')"
proof -
  note st = named_world_stored
  have mem_is: "mem_view = (\<lambda>w. db_docs (mem_db w))" by simp
  have rd: "readable EsToken_decode mem_view (index_name named_world ''token'') (world named_world)"
    "readable EsContract_decode mem_view (index_name named_world ''contract'') (world named_world)"
    "readable EsAccountBalance_decode mem_view (index_name named_world ''account_balance'') (world named_world)"
    unfolding st(1) using st(4-6) by simp_all
  have f: "\<forall>(t, f) \<in> {(''token'', ''blockno''), (''contract'', ''blockno''), (''account_balance'', ''staking_float'')}.
      \<forall>src \<in> ran (mem_view (world named_world) (index_name named_world t)). map_of src f \<noteq> None"
    unfolding st(1) by (auto simp: named_world_def mem_view_def ran_def EsToken_source_def EsContract_source_def
        EsAccountBalance_source_def split: if_splits)
  let ?T = "stored EsToken_decode mem_view (index_name named_world ''token'') (world named_world)"
  let ?C = "stored EsContract_decode mem_view (index_name named_world ''contract'') (world named_world)"
  have T: "ran ?T = {named_token ''t1'' ''a'', named_token ''t2'' ''b''}" and C: "ran ?C = {named_contract ''c'' ''b''}"
    by (simp_all add: st ran_map_upd insert_commute)
  have n: "EsToken_TokenAddress (named_token d x) = x" "Doc_Id (named_token d x) = d"
    "EsContract_VerifiedToken (named_contract d x) = x" "Doc_Id (named_contract d x) = d" for d x
    by (simp_all add: named_token_def named_contract_def cccv_token_def)
  obtain s' W' where r: "registerVariables mem_env named_world = Some (Ret (), s')"
    and W': "W' = stored EsWhitelist_decode mem_view (index_name s' ''whitelist'') (world s')"
    and e: "\<forall>n. if \<exists>k \<in> ran ?C. EsContract_VerifiedToken k = n \<and> n \<noteq> []
      then \<exists>k \<in> ran ?C. EsContract_VerifiedToken k = n \<and> W' n = Some (ConvWhitelist n (Doc_Id k) ''contract'')
      else if \<exists>k \<in> ran ?T. EsToken_TokenAddress k = n \<and> n \<noteq> []
      then \<exists>k \<in> ran ?T. EsToken_TokenAddress k = n \<and> W' n = Some (ConvWhitelist n (Doc_Id k) ''token'')
      else W' n = stored EsWhitelist_decode mem_view (index_name named_world ''whitelist'') (world named_world) n"
    and a: "set (addrsBalance s') = set (addrsBalance named_world) \<union>
      dom (stored EsAccountBalance_decode mem_view (index_name named_world ''account_balance'') (world named_world))"
    using lists_registered[OF memory.scrolling_axioms mem_is rd f refl refl refl] by (elim exE conjE) (rule that)
  have "W' ''a'' = Some (ConvWhitelist ''a'' ''t1'' ''token'')" "W' ''b'' = Some (ConvWhitelist ''b'' ''c'' ''contract'')"
    using e[rule_format, of "''a''"] e[rule_format, of "''b''"] unfolding T C by (simp_all add: n)
  moreover have "''alice'' \<in> set (addrsBalance s')"
    unfolding a by (simp add: dom_def stored_def named_world_def mem_view_def EsAccountBalance_roundtrip)
  ultimately show ?thesis using r W' by auto
qed

end
