(* ===== verification/Refresh.thy ===== *)
theory Refresh
  imports Registration Verification Contracts
begin

text \<open>
  The refresh of the whitelist (\<open>refreshVariables\<close> in \<open>indexer/cache.go\<close>): while the whitelist is scrolled, each entry
  is verified, and the entries that changed are written at the end. The marks on the tokens stay in step with the whitelist.
\<close>

section \<open>Tokens in step with the whitelist\<close>

definition in_step :: "(string \<rightharpoonup> EsToken) \<Rightarrow> (string \<rightharpoonup> EsWhitelist) \<Rightarrow> bool" where
  "in_step T W \<longleftrightarrow> (\<forall>d k. T d = Some k \<and> EsToken_VerifiedStatus k = Verified \<longrightarrow>
     (\<exists>e. W (EsToken_TokenAddress k) = Some e \<and> EsWhitelist_Type e = ''token'' \<and> EsWhitelist_Contract e = d))"

text \<open>The contract that the whitelist will have for a name, with the entries to be written.\<close>

definition listed :: "(string \<times> string \<times> string) list \<Rightarrow> (string \<rightharpoonup> EsWhitelist) \<Rightarrow> string \<rightharpoonup> EsWhitelist" where
  "listed acc W n = (case map_of acc n of Some (c, t) \<Rightarrow> Some (ConvWhitelist n c t) | None \<Rightarrow> W n)"

definition token_contract :: "(string \<rightharpoonup> EsWhitelist) \<Rightarrow> string \<Rightarrow> string" where
  "token_contract W n = (case W n of Some e \<Rightarrow> if EsWhitelist_Type e = ''token'' then EsWhitelist_Contract e else [] | None \<Rightarrow> [])"

lemma in_step_contract:
  assumes "T [] = None"
  shows "in_step T W \<longleftrightarrow> (\<forall>d k. T d = Some k \<and> EsToken_VerifiedStatus k = Verified \<longrightarrow> token_contract W (EsToken_TokenAddress k) = d)"
  using assms by (fastforce simp: in_step_def token_contract_def split: option.splits if_splits)

text \<open>An entry that was visited is the one to be written, or the one that is there.\<close>

abbreviation add_entry :: "EsWhitelist \<Rightarrow> string \<Rightarrow> (string \<times> string \<times> string) list \<Rightarrow> (string \<times> string \<times> string) list" where
  "add_entry e r acc \<equiv> if EsWhitelist_Contract e \<noteq> r
     then (Doc_Id e, r, EsWhitelist_Type e) # filter (\<lambda>(k, _). k \<noteq> Doc_Id e) acc else acc"

lemma listed_add:
  assumes "W (Doc_Id e) = Some e" and "Doc_Id e \<notin> fst ` set acc"
  shows "listed (add_entry e r acc) W = (listed acc W)(Doc_Id e \<mapsto> ConvWhitelist (Doc_Id e) r (EsWhitelist_Type e))"
proof -
  have "filter (\<lambda>(k, _). k \<noteq> Doc_Id e) acc = acc" using assms(2) by (auto simp: filter_id_conv image_iff)
  moreover have "map_of acc (Doc_Id e) = None" using assms(2) by (simp add: map_of_eq_None_iff)
  ultimately show ?thesis using assms(1) by (auto simp: listed_def fun_eq_iff ConvWhitelist_def)
qed

lemma token_contract_upd: "token_contract (W(n \<mapsto> ConvWhitelist n r t)) = (token_contract W)(n := if t = ''token'' then r else [])"
  by (auto simp: token_contract_def ConvWhitelist_def fun_eq_iff)

text \<open>The contract that the metadata names is the one of the entry, when it and the former one are tokens.\<close>

definition relisted :: "(string \<Rightarrow> string) \<Rightarrow> (string \<rightharpoonup> EsToken) \<Rightarrow> (string \<rightharpoonup> EsWhitelist) \<Rightarrow> (string \<rightharpoonup> EsWhitelist) \<Rightarrow> string \<Rightarrow> bool" where
  "relisted md T W W' n \<longleftrightarrow> (\<forall>e B. W n = Some e \<and> EsWhitelist_Type e = ''token'' \<and> B = fst (UnmarshalMetadataVerifyToken (md n)) \<and>
     B \<noteq> [] \<and> T B \<noteq> None \<and> (EsWhitelist_Contract e = [] \<or> T (EsWhitelist_Contract e) \<noteq> None) \<longrightarrow>
     W' n = Some (ConvWhitelist n B ''token''))"

section \<open>The verification of an entry\<close>

text \<open>A verification of a token keeps the marks in step; the contract for the name is the one that the metadata names, when both
  contracts are known.\<close>

lemma verify_token_in_step:
  assumes new: "(r, T') = verify_token A B off on T" and "T [] = None"
    and marks: "EsTokenUpVerified_VerifiedStatus off = NotVerified" "EsTokenUpVerified_TokenAddress off = []"
      "EsTokenUpVerified_VerifiedStatus on = Verified" "EsTokenUpVerified_TokenAddress on = n"
    and inv: "\<forall>d k. T d = Some k \<and> EsToken_VerifiedStatus k = Verified \<longrightarrow> wl (EsToken_TokenAddress k) = d" and "A = wl n"
  shows "\<forall>d k. T' d = Some k \<and> EsToken_VerifiedStatus k = Verified \<longrightarrow> (wl(n := r)) (EsToken_TokenAddress k) = d"
    and "T' [] = None" and "dom T' = dom T"
    and "B \<noteq> [] \<Longrightarrow> T B \<noteq> None \<Longrightarrow> A = [] \<or> T A \<noteq> None \<Longrightarrow> r = B"
proof -
  have nv: "NotVerified \<noteq> Verified" by (simp add: NotVerified_def Verified_def)
  note m = marks nv mark_token_def
  show "\<forall>d k. T' d = Some k \<and> EsToken_VerifiedStatus k = Verified \<longrightarrow> (wl(n := r)) (EsToken_TokenAddress k) = d"
    using assms by (auto simp: verify_token_def Let_def m split: if_splits option.splits)
  show "T' [] = None" "dom T' = dom T"
    using assms(1,2) by (auto simp: verify_token_def Let_def split: if_splits option.splits)
  show "B \<noteq> [] \<Longrightarrow> T B \<noteq> None \<Longrightarrow> A = [] \<or> T A \<noteq> None \<Longrightarrow> r = B"
    using assms(1) by (auto simp: verify_token_def Let_def split: if_splits option.splits)
qed

context scrolling begin

abbreviation (input) docs_of :: "'w \<Rightarrow> string \<Rightarrow> string \<Rightarrow> source option" where
  "docs_of \<equiv> \<lambda>w. db_docs (db w)"

lemma store: "es_store E docs_of" and requests: "reliable E"
proof -
  show "es_store E docs_of" unfolding es_store_def by (rule docs.document_store_axioms)
  have "fst (es_Index E i d src w) = None" "fst (es_Update E i d src w) = None" for i d src w
    using index_req[of i d src w] update_req[of i d src w] by auto
  moreover have "\<exists>r. fst (es_Search E i (MatchQuery ''_id'' d) None 1 w) = Inr r" for i d w
    using search_req[OF by_id(1)[of i d "db w"], where srt = None and n = 1] by auto
  ultimately show "reliable E" unfolding reliable_def by blast
qed

end

text \<open>What a verification leaves alone: the other indices, the state beside the world, and the open scroll.\<close>

definition agrees :: "('w \<Rightarrow> database) \<Rightarrow> string set \<Rightarrow> 'w Indexer \<Rightarrow> 'w Indexer \<Rightarrow> bool" where
  "agrees db U s s' \<longleftrightarrow> s'\<lparr>world := world s\<rparr> = s \<and>
     (\<forall>t. t \<notin> U \<longrightarrow> db_docs (db (world s')) (index_name s t) = db_docs (db (world s)) (index_name s t))"

definition untouched :: "('w \<Rightarrow> database) \<Rightarrow> (scroll_request \<Rightarrow> string \<Rightarrow> hit list \<Rightarrow> 'w \<Rightarrow> bool) \<Rightarrow> string set
    \<Rightarrow> 'w Indexer \<Rightarrow> 'w Indexer \<Rightarrow> bool" where
  "untouched db left U s s' \<longleftrightarrow> agrees db U s s' \<and>
     (\<forall>req sid rest. left req sid rest (world s) \<longrightarrow> left req sid rest (world s'))"

lemma agrees_name:
  assumes "agrees db U s s'"
  shows "index_name s' t = index_name s t"
proof -
  have "index_name (s'\<lparr>world := world s\<rparr>) t = index_name s' t" by (simp add: index_name_def)
  then show ?thesis using assms unfolding agrees_def by metis
qed

lemma agrees_addr:
  assumes "agrees db U s s'"
  shows "tokenVerifyAddr s' = tokenVerifyAddr s" "addrsBalance s' = addrsBalance s"
proof -
  have "tokenVerifyAddr (s'\<lparr>world := world s\<rparr>) = tokenVerifyAddr s'" "addrsBalance (s'\<lparr>world := world s\<rparr>) = addrsBalance s'" by simp_all
  then show "tokenVerifyAddr s' = tokenVerifyAddr s" "addrsBalance s' = addrsBalance s" using assms unfolding agrees_def by metis+
qed

lemma agrees_mono: "agrees db U s s' \<Longrightarrow> U \<subseteq> U' \<Longrightarrow> agrees db U' s s'"
  unfolding agrees_def by blast

lemma agrees_docs: "agrees db U s s' \<Longrightarrow> t \<notin> U \<Longrightarrow> db_docs (db (world s')) (index_name s t) = db_docs (db (world s)) (index_name s t)"
  unfolding agrees_def by blast

lemma agrees_trans:
  assumes 1: "agrees db U s s1" and 2: "agrees db U' s1 s2"
  shows "agrees db (U \<union> U') s s2"
proof -
  have "s2\<lparr>world := world s\<rparr> = s1\<lparr>world := world s\<rparr>"
  proof -
    have "s1\<lparr>world := world s\<rparr> = s2\<lparr>world := world s1\<rparr>\<lparr>world := world s\<rparr>" using 2 by (simp only: agrees_def)
    then show ?thesis by simp
  qed
  then show ?thesis using 1 2 agrees_name[OF 1] by (simp add: agrees_def)
qed

lemma agrees_world: "agrees db U s s1 \<Longrightarrow> db w = db (world s1) \<Longrightarrow> agrees db U s (s1\<lparr>world := w\<rparr>)"
  by (simp add: agrees_def)

context scrolling begin

lemma visits:
  assumes "reads_keep E docs_of"
  shows "visiting E (untouched db left U s) U"
proof -
  have w: "harmless (untouched db left U s) f" if "\<And>w. docs_of (snd (f w)) = docs_of w"
    "\<And>req sid rest w. left req sid rest w \<Longrightarrow> left req sid rest (snd (f w))" for f :: "'w \<Rightarrow> 'b \<times> 'w"
    using that by (auto simp: harmless_def passes_def untouched_def agrees_def)
  show ?thesis
  proof
    show "harmless (untouched db left U s) (rpc_QueryContract E a q)" "harmless (untouched db left U s) (http_Get E k)"
      "harmless (untouched db left U s) (es_Search E k query srt n)" "harmless (untouched db left U s) (es_Count E k query)" for a q k query srt n
      using assms keeps_left by (auto intro!: w simp: reads_keep_def reads_def)
  next
    fix t x assume t: "t \<in> U"
    show "preserves (untouched db left U s) (update_in E t x)"
    proof (rule preservesI)
      fix s' o1 s2 assume u: "untouched db left U s s'" and run: "update_in E t x s' = Some (o1, s2)"
      obtain w' where w': "es_Update E (index_name s' t) (doc_GetID x) (doc_source x) (world s') = (None, w')"
        "db w' = put (index_name s' t) (doc_GetID x) (merge_source (db_docs (db (world s')) (index_name s' t) (doc_GetID x)) (doc_source x)) (db (world s'))"
        using update_req by blast
      have s2: "s2 = s'\<lparr>world := w'\<rparr>" using run w'(1) by (simp add: Update_def)
      have n: "index_name s' a = index_name s a" for a
        using u agrees_name[of db U s s'] by (simp add: untouched_def)
      have "db_docs (db w') (index_name s a) = db_docs (db (world s')) (index_name s a)" if "a \<notin> U" for a
        using that t by (auto simp: w'(2) n put_def)
      moreover have "left req sid rest w'" if "left req sid rest (world s')" for req sid rest
        using keeps_left(2)[OF that] w'(1) by (metis snd_conv)
      ultimately show "untouched db left U s s2" using u unfolding untouched_def agrees_def s2 by simp
    qed
  qed
qed

end

section \<open>The scroll over the whitelist\<close>

text \<open>What holds while entries are visited: \<open>ds\<close> are to come, \<open>acc\<close> is to be written.\<close>

definition visited :: "('w \<Rightarrow> database) \<Rightarrow> (string \<Rightarrow> string) \<Rightarrow> 'w Indexer \<Rightarrow> (string \<rightharpoonup> EsToken) \<Rightarrow> (string \<rightharpoonup> EsWhitelist)
    \<Rightarrow> EsWhitelist list \<Rightarrow> (string \<times> string \<times> string) list \<Rightarrow> 'w Indexer \<Rightarrow> bool" where
  "visited db md s T W ds acc s' \<longleftrightarrow> agrees db {''token'', ''contract''} s s' \<and>
     readable EsToken_decode (\<lambda>w. db_docs (db w)) (index_name s ''token'') (world s') \<and>
     readable EsContract_decode (\<lambda>w. db_docs (db w)) (index_name s ''contract'') (world s') \<and>
     (\<exists>T'. T' = stored EsToken_decode (\<lambda>w. db_docs (db w)) (index_name s ''token'') (world s') \<and> dom T' = dom T \<and>
       (\<forall>d k. T' d = Some k \<and> EsToken_VerifiedStatus k = Verified \<longrightarrow> token_contract (listed acc W) (EsToken_TokenAddress k) = d)) \<and>
     distinct (map fst acc) \<and> (\<forall>x \<in> set acc. \<exists>e. W (fst x) = Some e \<and> EsWhitelist_Type e = snd (snd x)) \<and>
     distinct (map Doc_Id ds) \<and> (\<forall>d \<in> set ds. W (Doc_Id d) = Some d \<and> Doc_Id d \<notin> fst ` set acc) \<and>
     (\<forall>n. n \<notin> Doc_Id ` set ds \<longrightarrow> relisted md T W (listed acc W) n)"

lemma visited_step:
  assumes v: "visited db md s T W (d # ds) acc s1" and a: "agrees db {''token'', ''contract''} s1 s2"
    and rd: "readable EsToken_decode (\<lambda>w. db_docs (db w)) (index_name s1 ''token'') (world s2)"
      "readable EsContract_decode (\<lambda>w. db_docs (db w)) (index_name s1 ''contract'') (world s2)"
    and T': "T' = stored EsToken_decode (\<lambda>w. db_docs (db w)) (index_name s1 ''token'') (world s2)" "dom T' = dom T"
      "\<forall>c k. T' c = Some k \<and> EsToken_VerifiedStatus k = Verified \<longrightarrow>
        ((token_contract (listed acc W))(Doc_Id d := if EsWhitelist_Type d = ''token'' then r else [])) (EsToken_TokenAddress k) = c"
    and re: "relisted md T W (\<lambda>_. Some (ConvWhitelist (Doc_Id d) r (EsWhitelist_Type d))) (Doc_Id d)"
  shows "visited db md s T W ds (add_entry d r acc) s2"
proof -
  have ag: "agrees db {''token'', ''contract''} s s1" and acc: "distinct (map fst acc)"
      "\<forall>x \<in> set acc. \<exists>e. W (fst x) = Some e \<and> EsWhitelist_Type e = snd (snd x)"
    and ds: "Doc_Id d \<notin> Doc_Id ` set ds" "distinct (map Doc_Id ds)"
      "\<forall>e \<in> set (d # ds). W (Doc_Id e) = Some e \<and> Doc_Id e \<notin> fst ` set acc"
    and past: "\<forall>n. n \<notin> Doc_Id ` set (d # ds) \<longrightarrow> relisted md T W (listed acc W) n"
    using v unfolding visited_def list.map distinct.simps set_map by blast+
  have n: "index_name s1 t = index_name s t" for t by (rule agrees_name[OF ag])
  have W: "W (Doc_Id d) = Some d" "Doc_Id d \<notin> fst ` set acc" using ds(3) by simp_all
  note l = listed_add[where W = W and e = d, OF W, of r]
  have 1: "agrees db {''token'', ''contract''} s s2" using agrees_trans[OF ag a] by simp
  have 2: "distinct (map fst (add_entry d r acc))" using acc(1) by (auto simp: distinct_map_filter)
  have 3: "\<exists>e. W (fst x) = Some e \<and> EsWhitelist_Type e = snd (snd x)" if "x \<in> set (add_entry d r acc)" for x
    using that acc(2) W(1) by (auto split: if_splits)
  have 4: "W (Doc_Id e) = Some e \<and> Doc_Id e \<notin> fst ` set (add_entry d r acc)" if "e \<in> set ds" for e
  proof -
    have "Doc_Id e \<noteq> Doc_Id d" using ds(1) that by (metis image_eqI)
    moreover have "fst ` set (add_entry d r acc) \<subseteq> insert (Doc_Id d) (fst ` set acc)" by auto
    ultimately show ?thesis using ds(3) that by (meson in_mono insertE list.set_intros(2))
  qed
  have 5: "relisted md T W (listed (add_entry d r acc) W) n" if "n \<notin> Doc_Id ` set ds" for n
  proof (cases "n = Doc_Id d")
    case True
    then show ?thesis using re unfolding l by (simp add: relisted_def)
  next
    case False
    then have "relisted md T W (listed acc W) n" using past that by simp
    then show ?thesis using False unfolding l by (simp add: relisted_def)
  qed
  have 7: "\<forall>c k. T' c = Some k \<and> EsToken_VerifiedStatus k = Verified \<longrightarrow> token_contract (listed (add_entry d r acc) W) (EsToken_TokenAddress k) = c"
    using T'(3) unfolding l token_contract_upd .
  show ?thesis unfolding visited_def
    using 1 2 3 4 5 ds(2) 7 rd T'(1,2) unfolding n by blast
qed

context scrolling begin

text \<open>The three kinds of entries.\<close>

lemma untouched_refl: "untouched db left U s s"
  by (simp add: untouched_def agrees_def)

lemma untouched_trans: "untouched db left U s s1 \<Longrightarrow> untouched db left U' s1 s2 \<Longrightarrow> untouched db left (U \<union> U') s s2"
  unfolding untouched_def by (blast intro: agrees_trans)

lemma visit_asks_metadata:
  assumes rk: "reads_keep E docs_of"
  obtains s' where "bnd (rd a) (\<lambda>x. bnd (ext (QueryMetadataOf E x n)) f) s = f (fst (QueryMetadataOf E (a s) n (world s))) s'"
    "untouched db left {} s s'"
proof -
  let ?s' = "s\<lparr>world := snd (QueryMetadataOf E (a s) n (world s))\<rparr>"
  have "ext (QueryMetadataOf E (a s) n) s = Some (Ret (fst (QueryMetadataOf E (a s) n (world s))), ?s')" by simp
  from preservesD[OF visiting.inv_metadata[OF visits[OF rk]] this untouched_refl] show thesis
    by (rule that[rotated]) simp
qed

lemma untouched_docs:
  assumes "untouched db left {} s s'"
  shows "stored decode docs_of (index_name s' t) (world s') = stored decode docs_of (index_name s t) (world s)"
    and "readable decode docs_of (index_name s' t) (world s') = readable decode docs_of (index_name s t) (world s)"
    and "index_name s' t = index_name s t"
proof -
  have a: "agrees db {} s s'" using assms by (simp add: untouched_def)
  show n: "index_name s' t = index_name s t" by (rule agrees_name[OF a])
  have "db_docs (db (world s')) (index_name s t) = db_docs (db (world s)) (index_name s t)" using a by (simp add: agrees_def)
  then show "stored decode docs_of (index_name s' t) (world s') = stored decode docs_of (index_name s t) (world s)"
    "readable decode docs_of (index_name s' t) (world s') = readable decode docs_of (index_name s t) (world s)"
    unfolding n by (rule stored_docs, simp add: readable_def)
qed

lemma token_entry:
  assumes rk: "reads_keep E docs_of" and ty: "EsWhitelist_Type d = ''token''"
    and rd: "readable EsToken_decode docs_of (index_name s ''token'') (world s)"
    and B: "B = fst (UnmarshalMetadataVerifyToken (fst (QueryMetadataOf E (tokenVerifyAddr s) (Doc_Id d) (world s))))"
  obtains off on r s' where "refresh_entry E d acc s = Some (Ret (if EsWhitelist_Contract d \<noteq> r
      then (Doc_Id d, r, ''token'') # filter (\<lambda>(k, _). k \<noteq> Doc_Id d) acc else acc), s')"
    "untouched db left {''token''} s s'" "readable EsToken_decode docs_of (index_name s ''token'') (world s')"
    "(r, stored EsToken_decode docs_of (index_name s ''token'') (world s')) =
      verify_token (EsWhitelist_Contract d) B off on (stored EsToken_decode docs_of (index_name s ''token'') (world s))"
    "EsTokenUpVerified_VerifiedStatus off = NotVerified" "EsTokenUpVerified_TokenAddress off = []"
    "EsTokenUpVerified_VerifiedStatus on = Verified" "EsTokenUpVerified_TokenAddress on = Doc_Id d"
proof -
  obtain s1 where q: "bnd (rd tokenVerifyAddr) (\<lambda>x. bnd (ext (QueryMetadataOf E x (Doc_Id d)))
        (MinerTokenVerified E (Doc_Id d) (EsWhitelist_Contract d))) s =
      MinerTokenVerified E (Doc_Id d) (EsWhitelist_Contract d) (fst (QueryMetadataOf E (tokenVerifyAddr s) (Doc_Id d) (world s))) s1"
    and u1: "untouched db left {} s s1" by (rule visit_asks_metadata[OF rk])
  note same = untouched_docs[OF u1]
  have rd1: "readable EsToken_decode docs_of (index_name s1 ''token'') (world s1)" using rd same(2) by blast
  obtain off on r s' where run: "MinerTokenVerified E (Doc_Id d) (EsWhitelist_Contract d)
        (fst (QueryMetadataOf E (tokenVerifyAddr s) (Doc_Id d) (world s))) s1 = Some (Ret r, s')"
    and res: "readable EsToken_decode docs_of (index_name s1 ''token'') (world s')"
      "(r, stored EsToken_decode docs_of (index_name s1 ''token'') (world s')) =
        verify_token (EsWhitelist_Contract d) B off on (stored EsToken_decode docs_of (index_name s1 ''token'') (world s1))"
    and marks: "EsTokenUpVerified_VerifiedStatus off = NotVerified" "EsTokenUpVerified_TokenAddress off = []"
      "EsTokenUpVerified_VerifiedStatus on = Verified" "EsTokenUpVerified_TokenAddress on = Doc_Id d"
    by (rule MinerTokenVerified_refines[OF store requests rk rd1 B])
  have "untouched db left {''token''} s1 s'"
    by (rule preservesD[OF visiting.inv_verified(1)[OF visits[OF rk]] run untouched_refl]) simp
  from untouched_trans[OF u1 this] have u: "untouched db left {''token''} s s'" by simp
  have e: "refresh_entry E d acc s = Some (Ret (if EsWhitelist_Contract d \<noteq> r
      then (Doc_Id d, r, ''token'') # filter (\<lambda>(k, _). k \<noteq> Doc_Id d) acc else acc), s')"
  proof -
    let ?m = "bnd (rd tokenVerifyAddr) (\<lambda>x. bnd (ext (QueryMetadataOf E x (Doc_Id d)))
        (MinerTokenVerified E (Doc_Id d) (EsWhitelist_Contract d)))"
    let ?f = "\<lambda>r. ret (if EsWhitelist_Contract d \<noteq> r then (Doc_Id d, r, EsWhitelist_Type d) # filter (\<lambda>(k, _). k \<noteq> Doc_Id d) acc else acc)"
    have "refresh_entry E d acc s = bnd ?m ?f s" by (simp add: refresh_entry_def ty) (simp add: ret_def)
    then show ?thesis unfolding bnd_Ret[where m = ?m and f = ?f, OF trans[OF q run]] by (simp add: ty)
  qed
  show thesis by (rule that[OF e u res[unfolded same(3) same(1)[unfolded same(3)]] marks])
qed

lemma contract_entry:
  assumes rk: "reads_keep E docs_of" and ty: "EsWhitelist_Type d = ''contract''"
    and rd: "readable EsContract_decode docs_of (index_name s ''contract'') (world s)"
  obtains r s' where "refresh_entry E d acc s = Some (Ret (if EsWhitelist_Contract d \<noteq> r
      then (Doc_Id d, r, ''contract'') # filter (\<lambda>(k, _). k \<noteq> Doc_Id d) acc else acc), s')"
    "untouched db left {''contract''} s s'" "readable EsContract_decode docs_of (index_name s ''contract'') (world s')"
proof -
  obtain s1 where q: "bnd (rd contractVerifyAddr) (\<lambda>x. bnd (ext (QueryMetadataOf E x (Doc_Id d)))
        (MinerContractVerified E (Doc_Id d) (EsWhitelist_Contract d))) s =
      MinerContractVerified E (Doc_Id d) (EsWhitelist_Contract d) (fst (QueryMetadataOf E (contractVerifyAddr s) (Doc_Id d) (world s))) s1"
    and u1: "untouched db left {} s s1" by (rule visit_asks_metadata[OF rk])
  note same = untouched_docs[OF u1]
  have rd1: "readable EsContract_decode docs_of (index_name s1 ''contract'') (world s1)" using rd same(2) by blast
  obtain B owner url where U: "UnmarshalMetadataVerifyContract (fst (QueryMetadataOf E (contractVerifyAddr s) (Doc_Id d) (world s))) = (B, owner, url)"
    by (metis prod_cases3)
  obtain r v s' where run: "MinerContractVerified E (Doc_Id d) (EsWhitelist_Contract d)
        (fst (QueryMetadataOf E (contractVerifyAddr s) (Doc_Id d) (world s))) s1 = Some (Ret r, s')"
    and n: "indexNamePrefix s' = indexNamePrefix s1" and res: "contracts_readable docs_of s'"
    by (rule MinerContractVerified_refines[OF store requests rk rd1 U])
  have "untouched db left {''contract''} s1 s'"
    by (rule preservesD[OF visiting.inv_verified(2)[OF visits[OF rk]] run untouched_refl]) simp
  from untouched_trans[OF u1 this] have u: "untouched db left {''contract''} s s'" by simp
  have e: "refresh_entry E d acc s = Some (Ret (if EsWhitelist_Contract d \<noteq> r
      then (Doc_Id d, r, ''contract'') # filter (\<lambda>(k, _). k \<noteq> Doc_Id d) acc else acc), s')"
  proof -
    let ?m = "bnd (rd contractVerifyAddr) (\<lambda>x. bnd (ext (QueryMetadataOf E x (Doc_Id d)))
        (MinerContractVerified E (Doc_Id d) (EsWhitelist_Contract d)))"
    let ?f = "\<lambda>r. ret (if EsWhitelist_Contract d \<noteq> r then (Doc_Id d, r, EsWhitelist_Type d) # filter (\<lambda>(k, _). k \<noteq> Doc_Id d) acc else acc)"
    have "refresh_entry E d acc s = bnd ?m ?f s" by (simp add: refresh_entry_def ty)
    then show ?thesis unfolding bnd_Ret[where m = ?m and f = ?f, OF trans[OF q run]] by (simp add: ty)
  qed
  have "index_name s' ''contract'' = index_name s ''contract''" using n same(3) by (simp add: index_name_def)
  with res show thesis by (intro that[OF e u]) simp
qed

lemma other_entry:
  assumes "EsWhitelist_Type d \<notin> {''token'', ''contract''}"
  shows "refresh_entry E d acc s = Some (Ret (add_entry d [] acc), s)"
  using assms by (simp add: refresh_entry_def)

text \<open>Each entry takes the invariant a step further.\<close>

lemma visits_entry:
  assumes rk: "reads_keep E docs_of" and md: "\<And>n w. fst (QueryMetadataOf E (tokenVerifyAddr s) n w) = md n"
    and no_id: "T [] = None" and v: "visited db md s T W (d # ds) acc s1"
  shows "\<exists>acc' s2. refresh_entry E d acc s1 = Some (Ret acc', s2) \<and> visited db md s T W ds acc' s2 \<and>
    (\<forall>req sid rest. left req sid rest (world s1) \<longrightarrow> left req sid rest (world s2))"
proof -
  let ?n = "Doc_Id d" and ?wl = "token_contract (listed acc W)"
  have ag: "agrees db {''token'', ''contract''} s s1"
    and rd: "readable EsToken_decode docs_of (index_name s ''token'') (world s1)"
      "readable EsContract_decode docs_of (index_name s ''contract'') (world s1)"
    and W: "W ?n = Some d" "?n \<notin> fst ` set acc"
    using v by (simp_all add: visited_def)
  define T1 where "T1 = stored EsToken_decode docs_of (index_name s ''token'') (world s1)"
  have T1: "dom T1 = dom T" "\<forall>c k. T1 c = Some k \<and> EsToken_VerifiedStatus k = Verified \<longrightarrow> ?wl (EsToken_TokenAddress k) = c"
    using v unfolding visited_def T1_def by blast+
  have no_id1: "T1 [] = None" using T1(1) no_id by (metis domIff)
  have nm: "index_name s1 t = index_name s t" for t by (rule agrees_name[OF ag])
  have "map_of acc ?n = None" using W(2) by (simp add: map_of_eq_None_iff)
  then have wl: "?wl ?n = (if EsWhitelist_Type d = ''token'' then EsWhitelist_Contract d else [])"
    using W(1) by (simp add: token_contract_def listed_def)
  have other: "relisted md T W (\<lambda>_. Some (ConvWhitelist ?n r (EsWhitelist_Type d))) ?n" if "EsWhitelist_Type d \<noteq> ''token''" for r
    using that W(1) by (simp add: relisted_def)
  consider "EsWhitelist_Type d = ''token''" | "EsWhitelist_Type d = ''contract''" | "EsWhitelist_Type d \<notin> {''token'', ''contract''}" by auto
  then show ?thesis
  proof cases
    case 1
    have md1: "fst (QueryMetadataOf E (tokenVerifyAddr s1) ?n (world s1)) = md ?n" by (simp add: agrees_addr(1)[OF ag] md)
    obtain off on r s2 where run: "refresh_entry E d acc s1 = Some (Ret (if EsWhitelist_Contract d \<noteq> r
        then (?n, r, ''token'') # filter (\<lambda>(k, _). k \<noteq> ?n) acc else acc), s2)"
      and u: "untouched db left {''token''} s1 s2" and rd2: "readable EsToken_decode docs_of (index_name s1 ''token'') (world s2)"
      and new: "(r, stored EsToken_decode docs_of (index_name s1 ''token'') (world s2)) = verify_token (EsWhitelist_Contract d)
        (fst (UnmarshalMetadataVerifyToken (md ?n))) off on (stored EsToken_decode docs_of (index_name s1 ''token'') (world s1))"
      and marks: "EsTokenUpVerified_VerifiedStatus off = NotVerified" "EsTokenUpVerified_TokenAddress off = []"
        "EsTokenUpVerified_VerifiedStatus on = Verified" "EsTokenUpVerified_TokenAddress on = ?n"
      by (rule token_entry[OF rk 1 rd(1)[folded nm] refl, of acc, unfolded md1])
    have a: "agrees db {''token''} s1 s2" using u by (simp add: untouched_def)
    let ?T2 = "stored EsToken_decode docs_of (index_name s1 ''token'') (world s2)" and ?B = "fst (UnmarshalMetadataVerifyToken (md ?n))"
    have A: "EsWhitelist_Contract d = ?wl ?n" using wl 1 by simp
    note step = verify_token_in_step[OF new[unfolded nm, folded T1_def] no_id1 marks T1(2) A]
    have re: "relisted md T W (\<lambda>_. Some (ConvWhitelist ?n r (EsWhitelist_Type d))) ?n"
      unfolding relisted_def
    proof (intro allI impI, elim conjE)
      fix e B assume e: "W ?n = Some e" and B: "B = ?B" "B \<noteq> []" "T B \<noteq> None"
        and A: "EsWhitelist_Contract e = [] \<or> T (EsWhitelist_Contract e) \<noteq> None"
      have "e = d" using e W(1) by simp
      then have "r = B" using step(4) B A T1(1) by (metis domIff)
      then show "Some (ConvWhitelist ?n r (EsWhitelist_Type d)) = Some (ConvWhitelist ?n B ''token'')" using 1 by simp
    qed
    have rdc: "readable EsContract_decode docs_of (index_name s1 ''contract'') (world s2)"
      using rd(2) agrees_docs[OF a, of "''contract''"] by (simp add: readable_def nm)
    have "visited db md s T W ds (add_entry d r acc) s2"
      by (rule visited_step[OF v agrees_mono[OF a] rd2 rdc refl _ _ re])
        (use step(1,3) T1(1) 1 in \<open>simp_all add: nm\<close>)
    then show ?thesis using run u by (auto simp: untouched_def 1)
  next
    case 2
    obtain r s2 where run: "refresh_entry E d acc s1 = Some (Ret (if EsWhitelist_Contract d \<noteq> r
        then (?n, r, ''contract'') # filter (\<lambda>(k, _). k \<noteq> ?n) acc else acc), s2)"
      and u: "untouched db left {''contract''} s1 s2" and rd2: "readable EsContract_decode docs_of (index_name s1 ''contract'') (world s2)"
      by (rule contract_entry[OF rk 2 rd(2)[folded nm], of acc])
    have a: "agrees db {''contract''} s1 s2" using u by (simp add: untouched_def)
    have same: "db_docs (db (world s2)) (index_name s1 ''token'') = db_docs (db (world s1)) (index_name s1 ''token'')"
      using agrees_docs[OF a, of "''token''"] by simp
    have rdt: "readable EsToken_decode docs_of (index_name s1 ''token'') (world s2)" using rd(1) same by (simp add: readable_def nm)
    have T2: "T1 = stored EsToken_decode docs_of (index_name s1 ''token'') (world s2)"
      using stored_docs[OF same, where decode = EsToken_decode] by (simp add: T1_def nm)
    have "visited db md s T W ds (add_entry d r acc) s2"
      by (rule visited_step[OF v agrees_mono[OF a] rdt rd2 T2 T1(1) _ other])
        (use 2 T1(2) wl in \<open>simp_all add: fun_upd_idem\<close>)
    then show ?thesis using run u by (auto simp: untouched_def 2)
  next
    case 3
    have "visited db md s T W ds (add_entry d [] acc) s1"
      by (rule visited_step[OF v _ _ _ T1_def[folded nm] T1(1) _ other])
        (use 3 rd T1(2) wl in \<open>simp_all add: nm agrees_def fun_upd_idem\<close>)
    then show ?thesis using other_entry[OF 3] by blast
  qed
qed

lemma whitelist_scrolled:
  assumes rk: "reads_keep E docs_of" and md: "\<And>n w. fst (QueryMetadataOf E (tokenVerifyAddr s) n w) = md n"
    and rd: "readable EsToken_decode docs_of (index_name s ''token'') (world s)"
      "readable EsContract_decode docs_of (index_name s ''contract'') (world s)"
      "readable EsWhitelist_decode docs_of (index_name s ''whitelist'') (world s)"
    and f: "\<And>d src. db_docs (db (world s)) (index_name s ''whitelist'') d = Some src \<Longrightarrow> map_of src ''type'' \<noteq> None"
    and T: "T = stored EsToken_decode docs_of (index_name s ''token'') (world s)" "T [] = None"
    and W: "W = stored EsWhitelist_decode docs_of (index_name s ''whitelist'') (world s)" and ok: "in_step T W"
  obtains acc s' where "ScrollWhitelist E (refresh_entry E) [] s = Some (Ret acc, s')" "visited db md s T W [] acc s'"
proof -
  have start: "visited db md s T W ds [] s" if "distinct (map Doc_Id ds)" and "set ds = ran W" for ds
  proof -
    have id: "Doc_Id e = n" if "W n = Some e" for n e by (rule stored_id[OF that[unfolded W]])
    then have ds: "W (Doc_Id d) = Some d" if "d \<in> set ds" for d
      using that unfolding \<open>set ds = ran W\<close> ran_def by blast
    have "n \<in> Doc_Id ` set ds" if "W n = Some e" for n e
      unfolding \<open>set ds = ran W\<close> using id[OF that] ranI[of W n e] that by blast
    then have "relisted md T W (listed [] W) n" if "n \<notin> Doc_Id ` set ds" for n
      using that unfolding relisted_def by blast
    moreover have "listed [] W = W" by (simp add: listed_def fun_eq_iff)
    ultimately show ?thesis
      unfolding visited_def using ok[unfolded in_step_contract[of T W, OF T(2)]] rd(1,2) that(1) ds T(1) by (simp add: agrees_def)
  qed
  have world: "visited db md s T W ds acc (s1\<lparr>world := w\<rparr>)" if "visited db md s T W ds acc s1" and "db w = db (world s1)" for ds acc s1 w
  proof -
    have v: "docs_of w = docs_of (world s1)" using that(2) by simp
    show ?thesis using that agrees_world[of db _ s s1 w]
      by (simp add: visited_def stored_view[of docs_of, OF v] readable_view[of docs_of, OF v])
  qed
  show thesis
  proof (rule scroll_index_rule[where decode = EsWhitelist_decode and s = s and t = "''whitelist''" and f = "''type''"
        and J = "visited db md s T W" and acc = "[]" and fn = "refresh_entry E", OF rd(3) f])
    fix ds :: "EsWhitelist list"
    assume "distinct (map Doc_Id ds)" and "set ds = ran (stored EsWhitelist_decode docs_of (index_name s ''whitelist'') (world s))"
    then show "visited db md s T W ds [] s" by (intro start) (simp_all add: W)
  next
    fix d ds acc s1 assume "visited db md s T W (d # ds) acc s1"
    then show "\<exists>acc' s2. refresh_entry E d acc s1 = Some (Ret acc', s2) \<and> visited db md s T W ds acc' s2 \<and>
        (\<forall>req sid rest. left req sid rest (world s1) \<longrightarrow> left req sid rest (world s2))"
      by (rule visits_entry[where T = T, OF rk md T(2)])
  next
    fix acc' s' assume "scroll_index_of E ''whitelist'' ''type'' EsWhitelist_decode (refresh_entry E) [] s = Some (Ret acc', s')"
      and "visited db md s T W [] acc' s'"
    then show thesis by (intro that) (simp_all add: ScrollWhitelist_def)
  qed (use world in simp_all)
qed

text \<open>Writing the entries at the end.\<close>

lemma entries_written:
  assumes "distinct (map fst acc)"
  shows "\<exists>w. each (\<lambda>(a, c, t). addWhitelist E (ConvWhitelist a c t)) acc s = Some (Ret (), s\<lparr>world := w\<rparr>) \<and>
    (\<forall>t. t \<noteq> ''whitelist'' \<longrightarrow> db_docs (db w) (index_name s t) = db_docs (db (world s)) (index_name s t)) \<and>
    stored EsWhitelist_decode docs_of (index_name s ''whitelist'') w =
      listed acc (stored EsWhitelist_decode docs_of (index_name s ''whitelist'') (world s))"
  using assms
proof (induction acc arbitrary: s)
  case Nil
  show ?case by (intro exI[of _ "world s"]) (simp add: listed_def fun_eq_iff)
next
  case (Cons x acc)
  obtain a c t where x: "x = (a, c, t)" by (metis prod_cases3)
  let ?i = "index_name s ''whitelist''"
  obtain w1 where 1: "addWhitelist E (ConvWhitelist a c t) s = Some (Ret (), s\<lparr>world := w1\<rparr>)"
    and d: "db w1 = put ?i a (EsWhitelist_source (ConvWhitelist a c t)) (db (world s))"
    using addWhitelist_puts[of "ConvWhitelist a c t" s] by (metis ConvWhitelist_def BaseEsType.select_convs(1))
  have n: "index_name (s\<lparr>world := w1\<rparr>) u = index_name s u" for u by (simp add: index_name_def)
  obtain w where IH: "each (\<lambda>(a, c, t). addWhitelist E (ConvWhitelist a c t)) acc (s\<lparr>world := w1\<rparr>) = Some (Ret (), s\<lparr>world := w\<rparr>)"
    "\<forall>t. t \<noteq> ''whitelist'' \<longrightarrow> db_docs (db w) (index_name s t) = db_docs (db w1) (index_name s t)"
    "stored EsWhitelist_decode docs_of ?i w = listed acc (stored EsWhitelist_decode docs_of ?i w1)"
    using Cons.IH[of "s\<lparr>world := w1\<rparr>"] Cons.prems by (auto simp: n)
  have W1: "stored EsWhitelist_decode docs_of ?i w1 = (stored EsWhitelist_decode docs_of ?i (world s))(a \<mapsto> ConvWhitelist a c t)"
    by (auto simp: stored_def d put_def fun_eq_iff EsWhitelist_roundtrip SetID_def ConvWhitelist_def)
  have "map_of acc a = None" using Cons.prems by (simp add: x map_of_eq_None_iff)
  then have l: "listed acc (M(a \<mapsto> ConvWhitelist a c t)) = listed (x # acc) M" for M
    by (auto simp: x listed_def fun_eq_iff split: option.splits)
  have "db_docs (db w1) (index_name s u) = db_docs (db (world s)) (index_name s u)" if "u \<noteq> ''whitelist''" for u
    using that by (simp add: d put_def index_name_def)
  with IH show ?case unfolding W1 l by (intro exI[of _ w]) (simp add: x sq_Ret[where m = "addWhitelist E (ConvWhitelist a c t)", OF 1])
qed

lemma lists_refresh:
  assumes rk: "reads_keep E docs_of" and md: "\<And>n w. fst (QueryMetadataOf E (tokenVerifyAddr s) n w) = md n"
    and rd: "readable EsToken_decode docs_of (index_name s ''token'') (world s)"
      "readable EsContract_decode docs_of (index_name s ''contract'') (world s)"
      "readable EsWhitelist_decode docs_of (index_name s ''whitelist'') (world s)"
    and f: "\<And>d src. db_docs (db (world s)) (index_name s ''whitelist'') d = Some src \<Longrightarrow> map_of src ''type'' \<noteq> None"
    and T: "T = stored EsToken_decode docs_of (index_name s ''token'') (world s)" "T [] = None"
    and W: "W = stored EsWhitelist_decode docs_of (index_name s ''whitelist'') (world s)" and ok: "in_step T W"
  obtains s1 where "refreshVariables E info block s = refresh_tracked E block s1" "addrsBalance s1 = addrsBalance s"
    "\<forall>t. index_name s1 t = index_name s t" "dom (stored EsToken_decode docs_of (index_name s ''token'') (world s1)) = dom T"
    "in_step (stored EsToken_decode docs_of (index_name s ''token'') (world s1)) (stored EsWhitelist_decode docs_of (index_name s ''whitelist'') (world s1))"
    "dom (stored EsWhitelist_decode docs_of (index_name s ''whitelist'') (world s1)) = dom W"
    "\<And>n. relisted md T W (stored EsWhitelist_decode docs_of (index_name s ''whitelist'') (world s1)) n"
proof -
  obtain acc s0 where scr: "ScrollWhitelist E (refresh_entry E) [] s = Some (Ret acc, s0)" and v: "visited db md s T W [] acc s0"
    by (rule whitelist_scrolled[OF rk md rd f T W ok])
  have ag: "agrees db {''token'', ''contract''} s s0" and acc: "distinct (map fst acc)"
      "\<forall>x \<in> set acc. \<exists>e. W (fst x) = Some e \<and> EsWhitelist_Type e = snd (snd x)"
    and re: "\<forall>n. relisted md T W (listed acc W) n"
    using v by (simp_all add: visited_def)
  let ?T0 = "stored EsToken_decode docs_of (index_name s ''token'') (world s0)"
  have T0: "dom ?T0 = dom T" "\<forall>d k. ?T0 d = Some k \<and> EsToken_VerifiedStatus k = Verified \<longrightarrow> token_contract (listed acc W) (EsToken_TokenAddress k) = d"
    using v unfolding visited_def by blast+
  have n: "index_name s0 t = index_name s t" for t by (rule agrees_name[OF ag])
  have W0: "stored EsWhitelist_decode docs_of (index_name s ''whitelist'') (world s0) = W"
    unfolding W by (rule stored_docs) (use agrees_docs[OF ag, of "''whitelist''"] in simp)
  obtain w where wr: "each (\<lambda>(a, c, t). addWhitelist E (ConvWhitelist a c t)) acc s0 = Some (Ret (), s0\<lparr>world := w\<rparr>)"
    and o: "\<forall>t. t \<noteq> ''whitelist'' \<longrightarrow> db_docs (db w) (index_name s t) = db_docs (db (world s0)) (index_name s t)"
    and W1: "stored EsWhitelist_decode docs_of (index_name s ''whitelist'') w = listed acc W"
    using entries_written[OF acc(1), of s0] unfolding n W0 by blast
  have T1: "stored EsToken_decode docs_of (index_name s ''token'') w = ?T0" by (rule stored_docs) (use o in simp)
  have "?T0 [] = None" using T0(1) T(2) by (metis domIff)
  then have step: "in_step ?T0 (listed acc W)" using T0(2) in_step_contract[of ?T0 "listed acc W"] by blast
  have dom: "dom (listed acc W) = dom W"
  proof (rule set_eqI)
    fix x
    have "W x \<noteq> None" if "map_of acc x = Some y" for y
      using that acc(2) by (metis fst_conv map_of_SomeD option.distinct(1))
    then show "x \<in> dom (listed acc W) \<longleftrightarrow> x \<in> dom W" by (auto simp: listed_def dom_def split: option.splits)
  qed
  have run: "refreshVariables E info block s = refresh_tracked E block (s0\<lparr>world := w\<rparr>)"
    unfolding refreshVariables_def by (rule trans[OF bnd_Ret], rule scr, rule trans[OF sq_Ret], rule wr, rule refl)
  have "index_name (s0\<lparr>world := w\<rparr>) t = index_name s t" for t using n[of t] by (simp add: index_name_def)
  then show thesis
    by (intro that[of "s0\<lparr>world := w\<rparr>", OF run]) (use agrees_addr(2)[OF ag] T0(1) step dom re in \<open>simp_all add: W1 T1\<close>)
qed

end

section \<open>The property\<close>

text \<open>C18: a refresh visits the whole whitelist, though it writes to the indices that are scrolled, and goes on with the balances. It
  keeps the marks on the tokens in step with the whitelist: a token that is marked as verified is the contract of the entry
  for the name it carries. No name and no token comes or goes; and an entry of a token has afterwards the contract that the
  node names, when this one and the former one are tokens.\<close>

theorem whitelist_refreshed:
  assumes "scrolling E db left" and "view = (\<lambda>w. db_docs (db w))" and "reads_keep E view"
    and "readable EsToken_decode view (index_name s ''token'') (world s)"
    and "readable EsContract_decode view (index_name s ''contract'') (world s)"
    and "readable EsWhitelist_decode view (index_name s ''whitelist'') (world s)"
    and "\<forall>src \<in> ran (view (world s) (index_name s ''whitelist'')). map_of src ''type'' \<noteq> None"
    and "\<forall>n w. fst (QueryMetadataOf E (tokenVerifyAddr s) n w) = md n"
    and "T = stored EsToken_decode view (index_name s ''token'') (world s)" and "T [] = None"
    and "W = stored EsWhitelist_decode view (index_name s ''whitelist'') (world s)" and "in_step T W"
  shows "\<exists>s1 T1 W1. refreshVariables E info block s = refresh_tracked E block s1 \<and> addrsBalance s1 = addrsBalance s \<and>
    T1 = stored EsToken_decode view (index_name s1 ''token'') (world s1) \<and>
    W1 = stored EsWhitelist_decode view (index_name s1 ''whitelist'') (world s1) \<and>
    in_step T1 W1 \<and> dom T1 = dom T \<and> dom W1 = dom W \<and>
    (\<forall>n e B. W n = Some e \<and> EsWhitelist_Type e = ''token'' \<and> B = fst (UnmarshalMetadataVerifyToken (md n)) \<and>
      B \<noteq> [] \<and> T B \<noteq> None \<and> (EsWhitelist_Contract e = [] \<or> T (EsWhitelist_Contract e) \<noteq> None) \<longrightarrow>
      W1 n = Some (ConvWhitelist n B ''token''))"
proof -
  note view = assms(2)
  have f: "map_of src ''type'' \<noteq> None" if "db_docs (db (world s)) (index_name s ''whitelist'') d = Some src" for d src
    using assms(7) that ranI[of "db_docs (db (world s)) (index_name s ''whitelist'')", OF that] unfolding view by blast
  obtain s1 where s1: "refreshVariables E info block s = refresh_tracked E block s1" "addrsBalance s1 = addrsBalance s"
    "dom (stored EsToken_decode view (index_name s ''token'') (world s1)) = dom T"
    "in_step (stored EsToken_decode view (index_name s ''token'') (world s1)) (stored EsWhitelist_decode view (index_name s ''whitelist'') (world s1))"
    "dom (stored EsWhitelist_decode view (index_name s ''whitelist'') (world s1)) = dom W"
    and n: "\<forall>t. index_name s1 t = index_name s t"
    and re: "\<And>n. relisted md T W (stored EsWhitelist_decode view (index_name s ''whitelist'') (world s1)) n"
    unfolding view
    by (rule scrolling.lists_refresh[OF assms(1), where s = s and md = md and T = T and W = W and info = info and block = block])
      (use assms(3-12) f in \<open>simp_all add: view\<close>)
  show ?thesis
    by (rule exI[of _ s1], rule exI[of _ "stored EsToken_decode view (index_name s ''token'') (world s1)"],
        rule exI[of _ "stored EsWhitelist_decode view (index_name s ''whitelist'') (world s1)"])
      (use s1 re n in \<open>simp add: relisted_def\<close>)
qed

text \<open>A node that names the contract \<open>new\<close> for every name, and a whitelist in which \<open>tok\<close> has the contract \<open>old\<close>.\<close>

definition naming_env :: "mem env" where
  "naming_env = mem_env\<lparr>rpc_QueryContract := \<lambda>a q w. (Inr (Some ''{\"contract\":\"new\"}''), w)\<rparr>"

definition listed_world :: "mem Indexer" where
  "listed_world = sample_indexer (empty_mem\<lparr>m_docs :=
     [((''p_token'', ''old''), EsToken_source old_token), ((''p_token'', ''new''), EsToken_source new_token),
      ((''p_whitelist'', ''tok''), EsWhitelist_source (ConvWhitelist ''tok'' ''old'' ''token''))]\<rparr>)"

lemma naming_scrolls: "scrolling naming_env mem_db (\<lambda>_ _ hs _. hs = [])" and naming_reads: "reads_keep naming_env mem_view"
proof -
  show "scrolling naming_env mem_db (\<lambda>_ _ hs _. hs = [])"
    unfolding naming_env_def by (rule scrolling_node[OF memory.scrolling_axioms]) simp
  show "reads_keep naming_env mem_view"
    using chain_store(3) by (simp add: naming_env_def reads_keep_def reads_def chain_env_def mem_env_def mem_block_def Let_def)
qed

lemma naming_answer: "fst (QueryMetadataOf naming_env a n w) = ''{\"contract\":\"new\"}''"
proof -
  have "Unmarshal_any ''{\"contract\":\"new\"}'' = Inr (GMap [(''contract'', GString ''new'')])"
    "ConvertBignumJson [(''contract'', GString ''new'')] = None" by code_simp+
  then show ?thesis by (simp add: QueryMetadataOf_def queryContract_def naming_env_def)
qed

lemma listed_world_stored:
  "index_name listed_world t = ''p_'' @ t"
  "stored EsToken_decode mem_view ''p_token'' (world listed_world) = [''old'' \<mapsto> old_token, ''new'' \<mapsto> new_token]"
  "stored EsWhitelist_decode mem_view ''p_whitelist'' (world listed_world) = [''tok'' \<mapsto> ConvWhitelist ''tok'' ''old'' ''token'']"
  "readable EsToken_decode mem_view ''p_token'' (world listed_world)"
  "readable EsContract_decode mem_view ''p_contract'' (world listed_world)"
  "readable EsWhitelist_decode mem_view ''p_whitelist'' (world listed_world)"
  by (auto simp: stored_def readable_def listed_world_def mem_view_def EsToken_roundtrip EsWhitelist_roundtrip SetID_def
      old_token_def new_token_def cccv_token_def ConvWhitelist_def fun_eq_iff)

theorem whitelist_refreshed_witness:
  "\<exists>s1. refreshVariables naming_env (sync_block 300) (block_doc ''b'' 300) listed_world = refresh_tracked naming_env (block_doc ''b'' 300) s1 \<and>
    stored EsWhitelist_decode mem_view (index_name s1 ''whitelist'') (world s1) ''tok'' = Some (ConvWhitelist ''tok'' ''new'' ''token'')"
proof -
  note st = listed_world_stored
  have md: "\<forall>n w. fst (QueryMetadataOf naming_env (tokenVerifyAddr listed_world) n w) = ''{\"contract\":\"new\"}''"
    by (simp add: naming_answer)
  have mem_is: "mem_view = (\<lambda>w. db_docs (mem_db w))" by simp
  have rd: "readable EsToken_decode mem_view (index_name listed_world ''token'') (world listed_world)"
    "readable EsContract_decode mem_view (index_name listed_world ''contract'') (world listed_world)"
    "readable EsWhitelist_decode mem_view (index_name listed_world ''whitelist'') (world listed_world)"
    unfolding st(1) using st(4-6) by simp_all
  have f: "\<forall>src \<in> ran (mem_view (world listed_world) (index_name listed_world ''whitelist'')). map_of src ''type'' \<noteq> None"
    unfolding st(1) by (auto simp: listed_world_def mem_view_def ran_def EsWhitelist_source_def split: if_splits)
  let ?T = "stored EsToken_decode mem_view (index_name listed_world ''token'') (world listed_world)"
  let ?W = "stored EsWhitelist_decode mem_view (index_name listed_world ''whitelist'') (world listed_world)"
  have T: "?T = [''old'' \<mapsto> old_token, ''new'' \<mapsto> new_token]" and W: "?W = [''tok'' \<mapsto> ConvWhitelist ''tok'' ''old'' ''token'']"
    by (simp_all add: st)
  have ok: "?T [] = None" "in_step ?T ?W"
    unfolding T W by (auto simp: in_step_def old_token_def new_token_def cccv_token_def ConvWhitelist_def Verified_def split: if_splits)
  obtain s1 W1 where s1: "refreshVariables naming_env (sync_block 300) (block_doc ''b'' 300) listed_world = refresh_tracked naming_env (block_doc ''b'' 300) s1"
    "W1 = stored EsWhitelist_decode mem_view (index_name s1 ''whitelist'') (world s1)"
    and e: "\<forall>n e B. ?W n = Some e \<and> EsWhitelist_Type e = ''token'' \<and> B = fst (UnmarshalMetadataVerifyToken ''{\"contract\":\"new\"}'') \<and>
      B \<noteq> [] \<and> ?T B \<noteq> None \<and> (EsWhitelist_Contract e = [] \<or> ?T (EsWhitelist_Contract e) \<noteq> None) \<longrightarrow>
      W1 n = Some (ConvWhitelist n B ''token'')"
    using whitelist_refreshed[where md = "\<lambda>_. ''{\"contract\":\"new\"}''" and info = "sync_block 300" and block = "block_doc ''b'' 300",
        OF naming_scrolls mem_is naming_reads rd f md refl ok(1) refl ok(2)] by (elim exE conjE) (rule that)
  have "W1 ''tok'' = Some (ConvWhitelist ''tok'' ''new'' ''token'')"
    using e[rule_format, of "''tok''" "ConvWhitelist ''tok'' ''old'' ''token''" "''new''"]
    unfolding T W metadata_sample by (simp add: ConvWhitelist_def)
  with s1 show ?thesis by auto
qed

end
