(* ===== verification/Compiler.thy ===== *)
theory Compiler
  imports Client
begin

text \<open>
  Compiling a contract at a service (\<open>lua_compiler/compiler.go\<close>; \<open>GetCode\<close> is in \<open>Client\<close>). No code calls it at
  present: its only call, in \<open>MinerContractVerified\<close>, is commented out. The request and base58 are parameters.
\<close>

section \<open>Base 64 and white space\<close>

definition base64_char :: "nat \<Rightarrow> char" where
  "base64_char n = (if n < 26 then char_of (65 + n) else if n < 52 then char_of (71 + n)
     else if n < 62 then char_of (n - 4) else if n = 62 then CHR ''+'' else CHR ''/'')"

definition sextets :: "nat \<Rightarrow> string" where
  "sextets n = map base64_char [n div 262144 mod 64, n div 4096 mod 64, n div 64 mod 64, n mod 64]"

fun base64_EncodeToString :: "string \<Rightarrow> string" where
  "base64_EncodeToString [] = []"
| "base64_EncodeToString [a] = take 2 (sextets (of_char a * 65536)) @ ''==''"
| "base64_EncodeToString [a, b] = take 3 (sextets (of_char a * 65536 + of_char b * 256)) @ ''=''"
| "base64_EncodeToString (a # b # c # s) =
     sextets (of_char a * 65536 + of_char b * 256 + of_char c) @ base64_EncodeToString s"

definition IsSpace :: "nat \<Rightarrow> bool" where
  "IsSpace r \<longleftrightarrow> r \<in> {9, 10, 11, 12, 13, 32, 133, 160, 5760, 8232, 8233, 8239, 8287, 12288} \<or> 8192 \<le> r \<and> r \<le> 8202"

text \<open>A string as its runes, each with its bytes.\<close>

fun rune_chunks :: "string \<Rightarrow> (nat \<times> string) list" where
  "rune_chunks [] = []"
| "rune_chunks (c # cs) = (let (r, n) = decode_rune c cs in (r, c # take (n - 1) cs) # rune_chunks (drop (n - 1) cs))"

definition TrimSpace :: "string \<Rightarrow> string" where
  "TrimSpace s = (let space = (\<lambda>(r, _). IsSpace r) in
     concat (map snd (rev (dropWhile space (rev (dropWhile space (rune_chunks s)))))))"

section \<open>The compiler\<close>

definition compile_url :: string where
  "compile_url = ''https://luac.aergo.io/compile''"

definition CompileCode :: "(string \<Rightarrow> string \<Rightarrow> string \<Rightarrow> 'e \<Rightarrow> (go_error + string) \<times> 'e) \<Rightarrow> (string \<Rightarrow> go_error + string)
    \<Rightarrow> string \<Rightarrow> 'e \<Rightarrow> (go_error + string) \<times> 'e" where
  "CompileCode http_Post base58_Decode code w =
     (case http_Post compile_url ''text/plain'' (base64_EncodeToString code) w of
        (Inl err, w') \<Rightarrow> (Inl (Err ''Error sending request''), w')
      | (Inr retData, w') \<Rightarrow>
          if length retData < 8 \<or> take 8 retData \<noteq> ''result: '' then (Inl (Err ''Error in response''), w')
          else (case base58_Decode (TrimSpace (drop 8 retData)) of
              Inl err \<Rightarrow> (Inl (Err ''Error decoding b58 byte code''), w')
            | Inr byteCode \<Rightarrow> (Inr (if length byteCode > 5 then take (length byteCode - 5) (drop 1 byteCode) else byteCode), w')))"

section \<open>Lemmas\<close>

lemma chunks_concat: "concat (map snd (rune_chunks s)) = s"
  by (induction s rule: rune_chunks.induct) (simp_all add: Let_def split: prod.split)

text \<open>What is trimmed is a prefix and a suffix.\<close>

lemma TrimSpace_middle: "\<exists>l r. s = l @ TrimSpace s @ r"
proof -
  let ?sp = "\<lambda>(r, _ :: string). IsSpace r"
  define cs where "cs = dropWhile ?sp (rune_chunks s)"
  have "rune_chunks s = takeWhile ?sp (rune_chunks s) @ cs" by (simp add: cs_def)
  moreover have "cs = rev (dropWhile ?sp (rev cs)) @ rev (takeWhile ?sp (rev cs))"
    by (metis rev_append rev_rev_ident takeWhile_dropWhile_id)
  ultimately have "s = concat (map snd (takeWhile ?sp (rune_chunks s))) @ concat (map snd (rev (dropWhile ?sp (rev cs)))) @
      concat (map snd (rev (takeWhile ?sp (rev cs))))"
    by (metis chunks_concat concat_append map_append)
  then show ?thesis unfolding TrimSpace_def Let_def cs_def[symmetric] by blast
qed

text \<open>A run on concrete text.\<close>

lemma compile_sample: "base64_EncodeToString ''luac'' = ''bHVhYw==''" "TrimSpace '' nVu '' = ''nVu''"
  by (simp add: sextets_def base64_char_def) (simp add: TrimSpace_def IsSpace_def decode_rune_def)

end
