(* ===== verification/Db_Suite.thy ===== *)
theory Db_Suite
  imports Aliases
begin

text \<open>
  The suite that every implementation of the database controller has to pass (\<open>indexer/db/db_testsuite.go\<close>), run on the
  controller of \<open>Db\<close>. Making a controller is a parameter, as in the code: what it does to the world.
\<close>

section \<open>Running a test\<close>

text \<open>A subtest ends in a world and passes or not; a requirement that is not met ends it.\<close>

type_synonym 'w subtest = "'w \<Rightarrow> bool \<times> 'w"

definition NoErrorf :: "go_error option \<times> 'w \<Rightarrow> 'w subtest \<Rightarrow> bool \<times> 'w" where
  "NoErrorf r k = (case r of (None, w) \<Rightarrow> k w | (Some err, w) \<Rightarrow> (False, w))"

definition NoError_value :: "(go_error + 'a) \<times> 'w \<Rightarrow> ('a \<Rightarrow> 'w subtest) \<Rightarrow> bool \<times> 'w" where
  "NoError_value r k = (case r of (Inr x, w) \<Rightarrow> k x w | (Inl err, w) \<Rightarrow> (False, w))"

definition Truef :: "bool \<Rightarrow> 'w subtest \<Rightarrow> 'w subtest" where
  "Truef b k w = (if b then k w else (False, w))"

definition passed :: "'w subtest" where
  "passed w = (True, w)"

primrec each_test :: "('t \<Rightarrow> 'w subtest) \<Rightarrow> 't list \<Rightarrow> 'w subtest" where
  "each_test f [] w = (True, w)"
| "each_test f (x # xs) w = (case f x w of (b, w1) \<Rightarrow> if b then each_test f xs w1 else (False, w1))"

primrec each_step :: "('t \<Rightarrow> 'w \<Rightarrow> go_error option \<times> 'w) \<Rightarrow> 't list \<Rightarrow> 'w subtest \<Rightarrow> 'w subtest" where
  "each_step f [] k w = k w"
| "each_step f (x # xs) k w = NoErrorf (f x w) (each_step f xs k)"

section \<open>Documents by their type\<close>

text \<open>What reading a source into a document of a type gives, once its id is set. A name is read as a transaction, as in
  the code; of another type there is nothing to read into.\<close>

definition read_into :: "('d BaseEsType_scheme \<Rightarrow> doc) \<Rightarrow> 'd BaseEsType_scheme option \<Rightarrow> (string \<Rightarrow> doc) option" where
  "read_into C r = map_option (\<lambda>d i. C (SetID i d)) r"

definition getDocType :: "string \<Rightarrow> source \<Rightarrow> (string \<Rightarrow> doc) option" where
  "getDocType docType src =
     (if docType = ''block'' then read_into DBlock (EsBlock_decode src)
      else if docType = ''name'' then read_into DTx (EsTx_decode src)
      else if docType = ''tx'' then read_into DTx (EsTx_decode src)
      else if docType = ''token'' then read_into DToken (EsToken_decode src)
      else if docType = ''token_transfer'' then read_into DTokenTransfer (EsTokenTransfer_decode src)
      else if docType = ''account_tokens'' then read_into DAccountTokens (EsAccountTokens_decode src)
      else if docType = ''nft'' then read_into DNFT (EsNFT_decode src)
      else if docType = ''contract'' then read_into DContract (EsContract_decode src)
      else None)"

record CreatedDoc = BaseEsType +
  with_id :: "string \<Rightarrow> doc"

definition createDoc :: "string \<Rightarrow> source \<Rightarrow> CreatedDoc option" where
  "createDoc docType src = map_option (\<lambda>f. \<lparr>Doc_Id = [], with_id = f\<rparr>) (getDocType docType src)"

definition doc_of :: "CreatedDoc \<Rightarrow> doc" where
  "doc_of c = with_id c (Doc_Id c)"

definition test_block :: "string \<Rightarrow> uint64 \<Rightarrow> string \<Rightarrow> doc" where
  "test_block i no reward = DBlock \<lparr>Doc_Id = i, EsBlock_Timestamp = zero_time, EsBlock_BlockNo = no, EsBlock_PreviousBlock = [],
     EsBlock_TxCount = 0, EsBlock_Size = 0, EsBlock_Coinbase = [], EsBlock_BlockProducer = [],
     EsBlock_RewardAccount = reward, EsBlock_RewardAmount = []\<rparr>"

definition test_tx :: "string \<Rightarrow> uint64 \<Rightarrow> doc" where
  "test_tx i no = DTx \<lparr>Doc_Id = i, EsTx_BlockNo = no, EsTx_BlockId = [], EsTx_Timestamp = zero_time, EsTx_TxIdx = 0,
     EsTx_Payload = [], EsTx_Account = [], EsTx_Recipient = [], EsTx_Amount = [], EsTx_AmountFloat = zero32, EsTx_Type = 0,
     EsTx_Category = [], EsTx_Method = [], EsTx_Status = [], EsTx_Result = [], EsTx_Contract = [], EsTx_Nonce = 0,
     EsTx_FeeDelegation = False, EsTx_GasPrice = [], EsTx_GasLimit = 0, EsTx_GasUsed = 0, EsTx_FeeUsed = []\<rparr>"

section \<open>Indices and aliases\<close>

definition index_tests :: "(string \<times> string \<times> string \<times> string) list" where
  "index_tests =
     [(''idx_old_block'', ''idx_new_block'', ''block'', ''alias_block''),
      (''idx_old_tx'', ''idx_new_tx'', ''tx'', ''alias_tx''),
      (''idx_old_name'', ''idx_new_name'', ''name'', ''alias_name''),
      (''idx_old_token'', ''idx_new_token'', ''token'', ''alias_token''),
      (''idx_old_token_transfer'', ''idx_new_token_transfer'', ''token_transfer'', ''alias_token_transfer''),
      (''idx_old_account_tokens'', ''idx_new_account_tokens'', ''account_tokens'', ''alias_account_tokens''),
      (''idx_old_nft'', ''idx_new_nft'', ''nft'', ''alias_nft''),
      (''idx_old_contract'', ''idx_new_contract'', ''contract'', ''alias_contract'')]"

definition index_test :: "'w env \<Rightarrow> bool \<Rightarrow> ('w \<Rightarrow> 'w) \<Rightarrow> string \<times> string \<times> string \<times> string \<Rightarrow> 'w subtest" where
  "index_test E cl New = (\<lambda>(idxOld, idxNew, docType, alias) w.
     NoErrorf (CreateIndex E cl idxOld docType (New w)) (\<lambda>w.
     NoErrorf (UpdateAlias E alias idxOld w) (\<lambda>w.
     NoError_value (GetExistingIndexPrefix E alias docType w) (\<lambda>(exists, idxNamePrefix).
     Truef exists (
     Truef (TrimSuffix idxOld docType = idxNamePrefix) (\<lambda>w.
     NoErrorf (CreateIndex E cl idxNew docType w) (\<lambda>w.
     NoErrorf (UpdateAlias E alias idxNew w) (\<lambda>w.
     NoError_value (GetExistingIndexPrefix E alias docType w) (\<lambda>(exists, idxNamePrefix).
     Truef exists (
     Truef (TrimSuffix idxNew docType = idxNamePrefix) (
     Truef (TrimSuffix idxOld docType \<noteq> idxNamePrefix) passed)))))))))))"

text \<open>The start of the other tests: a new index with an alias.\<close>

definition set_up_index :: "'w env \<Rightarrow> bool \<Rightarrow> ('w \<Rightarrow> 'w) \<Rightarrow> string \<Rightarrow> string \<Rightarrow> string \<Rightarrow> 'w subtest \<Rightarrow> 'w subtest" where
  "set_up_index E cl New idxName aliasName docType k w =
     NoErrorf (CreateIndex E cl idxName docType (New w)) (\<lambda>w.
     NoErrorf (UpdateAlias E aliasName idxName w) k)"

section \<open>Counting\<close>

definition count_tests :: "(string \<times> string \<times> string \<times> doc \<times> IntegerRangeQuery option \<times> StringMatchQuery option) list" where
  "count_tests =
     [(''idx_count_block'', ''alias_count_block'', ''block'',
       test_block ''31SwcH9K5BxahtRQt1pC4UyboaXYWvnWSovvpmeneuu3'' 1 [],
       Some \<lparr>Range_Field = ''no'', Range_Min = 0, Range_Max = 1\<rparr>, None),
      (''idx_count_block'', ''alias_count_block'', ''block'',
       test_block ''31SwcH9K5BxahtRQt1pC4UyboaXYWvnWSovvpmeneuu3'' 1 ''AmgWzwNRgqF1vmvCyZqoR6YKNWSG2JFNHewHvb56mqhXoQcepLiy'',
       None, Some \<lparr>Match_Field = ''reward_account'', Match_Value = ''AmgWzwNRgqF1vmvCyZqoR6YKNWSG2JFNHewHvb56mqhXoQcepLiy''\<rparr>),
      (''idx_count_tx'', ''alias_count_tx'', ''tx'',
       test_tx ''5mxrxYHkANW44jffCcwLLTUovfqjDFWBr51YgYg8meQc'' 1,
       Some \<lparr>Range_Field = ''blockno'', Range_Min = 0, Range_Max = 1\<rparr>, None),
      (''idx_count_tx'', ''alias_count_tx'', ''tx'',
       test_tx ''5mxrxYHkANW44jffCcwLLTUovfqjDFWBr51YgYg8meQc'' 1,
       None, Some \<lparr>Match_Field = ''blockno'', Match_Value = ''1''\<rparr>)]"

definition count_test :: "'w env \<Rightarrow> bool \<Rightarrow> ('w \<Rightarrow> 'w)
    \<Rightarrow> string \<times> string \<times> string \<times> doc \<times> IntegerRangeQuery option \<times> StringMatchQuery option \<Rightarrow> 'w subtest" where
  "count_test E cl New = (\<lambda>(idxName, aliasName, docType, data, integerRange, stringRange).
     set_up_index E cl New idxName aliasName docType (\<lambda>w.
     NoErrorf (Insert E data idxName w) (\<lambda>w.
     NoError_value (Count E (zeroQueryParams\<lparr>IndexName := idxName\<rparr>) (clock_Sleep E Second w)) (\<lambda>count.
     Truef (count = 1) (\<lambda>w.
     NoError_value (Delete E (zeroQueryParams\<lparr>IndexName := idxName, TypeName := docType, IntegerRange := integerRange,
       StringMatch := stringRange\<rparr>) w) (\<lambda>_ w.
     NoError_value (Count E (zeroQueryParams\<lparr>IndexName := idxName\<rparr>) (clock_Sleep E Second w)) (\<lambda>count.
     Truef (count = 0) passed)))))))"

section \<open>Selecting\<close>

definition block_84 :: doc where "block_84 = test_block ''FpzaEXtEab9g99fhAF7C6XhUUJAc6TjJTjvpWNkdqAn1'' 104776384 []"
definition block_85 :: doc where "block_85 = test_block ''E8Lbg1B6QRa8VfFLPLrsW99vrTs1fYW5VhQaPQAFrT3R'' 104776385 []"
definition block_86 :: doc where "block_86 = test_block ''9o5C5ukWrXiNCFSU2Y1XQwcqY1fgTimrnTpnYu2CsG1h'' 104776386 []"

definition select_tests :: "(string \<times> string \<times> string \<times> string \<times> bool \<times> doc list \<times> doc \<times> doc) list" where
  "select_tests =
     [(''idx_select_block'', ''alias_select_block'', ''block'', ''no'', False, [block_84, block_85], block_85,
       test_block ''E8Lbg1B6QRa8VfFLPLrsW99vrTs1fYW5VhQaPQAFrT3R'' 104776385 ''updateRewardAccount''),
      (''idx_select_block'', ''alias_select_block'', ''block'', ''no'', True, [block_84, block_85], block_84,
       test_block ''FpzaEXtEab9g99fhAF7C6XhUUJAc6TjJTjvpWNkdqAn1'' 104776384 ''updateRewardAccount'')]"

definition select_params :: "string \<Rightarrow> string \<Rightarrow> bool \<Rightarrow> QueryParams" where
  "select_params idxName sortField sortAsc = zeroQueryParams\<lparr>IndexName := idxName, SortField := sortField, SortAsc := sortAsc\<rparr>"

definition select_test :: "'w env \<Rightarrow> bool \<Rightarrow> ('w \<Rightarrow> 'w)
    \<Rightarrow> string \<times> string \<times> string \<times> string \<times> bool \<times> doc list \<times> doc \<times> doc \<Rightarrow> 'w subtest" where
  "select_test E cl New = (\<lambda>(idxName, aliasName, docType, sortField, sortAsc, docInsert, docSelect, docUpdate).
     set_up_index E cl New idxName aliasName docType (
     each_step (\<lambda>data. Insert E data idxName) docInsert (\<lambda>w.
     NoError_value (SelectOne E (select_params idxName sortField sortAsc) (createDoc docType) (clock_Sleep E Second w)) (\<lambda>docResult.
     Truef (Some docSelect = map_option doc_of docResult) (\<lambda>w.
     NoErrorf (Update E docUpdate idxName (doc_GetID docUpdate) w) (\<lambda>w.
     NoError_value (SelectOne E (select_params idxName sortField sortAsc) (createDoc docType) (clock_Sleep E Second w)) (\<lambda>docResult.
     Truef (Some docUpdate = map_option doc_of docResult) passed)))))))"

section \<open>Scrolling\<close>

definition scroll_tests :: "(string \<times> string \<times> string \<times> string \<times> bool \<times> int64 \<times> int64 \<times> doc list \<times> doc list) list" where
  "scroll_tests =
     [(''idx_scroll_block'', ''alias_scroll_block'', ''block'', ''no'', False, 104776385, 104776386,
       [block_84, block_85, block_86], [block_86, block_85]),
      (''idx_scroll_block'', ''alias_scroll_block'', ''block'', ''no'', True, 104776385, 104776386,
       [block_84, block_85, block_86], [block_85, block_86])]"

primrec scroll_expect :: "'w env \<Rightarrow> string \<Rightarrow> doc list \<Rightarrow> EsScrollInstance \<Rightarrow> 'w subtest" where
  "scroll_expect E docType [] scroll w = passed w"
| "scroll_expect E docType (expect # docs) scroll w = (case Next E (createDoc docType) scroll w of
     (Inl err, scroll', w') \<Rightarrow> (False, w')
   | (Inr document, scroll', w') \<Rightarrow> Truef (expect = doc_of document) (scroll_expect E docType docs scroll') w')"

definition scroll_test :: "'w env \<Rightarrow> bool \<Rightarrow> ('w \<Rightarrow> 'w)
    \<Rightarrow> string \<times> string \<times> string \<times> string \<times> bool \<times> int64 \<times> int64 \<times> doc list \<times> doc list \<Rightarrow> 'w subtest" where
  "scroll_test E cl New = (\<lambda>(idxName, aliasName, docType, sortField, sortAsc, from, to, docInsert, docScroll).
     set_up_index E cl New idxName aliasName docType (
     each_step (\<lambda>data. Insert E data idxName) docInsert (\<lambda>w.
     scroll_expect E docType docScroll (Scroll (zeroQueryParams\<lparr>IndexName := idxName, SortField := sortField, SortAsc := sortAsc,
       Query_Size := 100, From := from, To := to\<rparr>)) (clock_Sleep E Second w))))"

section \<open>Bulks\<close>

definition bulk_tests :: "(string \<times> string \<times> string \<times> string \<times> bool \<times> int64 \<times> int64 \<times> doc list \<times> int) list" where
  "bulk_tests =
     [(''idx_bulk_block'', ''alias_bulk_block'', ''block'', ''no'', False, 104776385, 104776386, [block_84, block_85, block_86], 3),
      (''idx_bulk_block'', ''alias_bulk_block'', ''block'', ''no'', True, 104776385, 104776386, [block_84, block_85, block_86], 3)]"

definition bulk_test :: "'w env \<Rightarrow> bool \<Rightarrow> ('w \<Rightarrow> 'w)
    \<Rightarrow> string \<times> string \<times> string \<times> string \<times> bool \<times> int64 \<times> int64 \<times> doc list \<times> int \<Rightarrow> 'w subtest" where
  "bulk_test E cl New = (\<lambda>(idxName, aliasName, docType, sortField, sortAsc, from, to, docInsert, n).
     set_up_index E cl New idxName aliasName docType (\<lambda>w.
     case Commit E (fold Add docInsert (InsertBulk idxName)) w of (err, bulk, w1) \<Rightarrow>
     NoErrorf (err, w1) (\<lambda>w.
     NoError_value (Count E (zeroQueryParams\<lparr>IndexName := idxName\<rparr>) (clock_Sleep E Second w)) (\<lambda>count.
     Truef (n = count) passed))))"

section \<open>The suite\<close>

text \<open>Every subtest runs, whether or not those before it passed.\<close>

primrec run_subtests :: "(string \<times> 'w subtest) list \<Rightarrow> 'w \<Rightarrow> (string \<times> bool) list \<times> 'w" where
  "run_subtests [] w = ([], w)"
| "run_subtests (t # ts) w = (let (b, w1) = snd t w; (rs, w2) = run_subtests ts w1 in ((fst t, b) # rs, w2))"

definition TestDatabaseSuite :: "'w env \<Rightarrow> bool \<Rightarrow> ('w \<Rightarrow> 'w) \<Rightarrow> 'w \<Rightarrow> (string \<times> bool) list \<times> 'w" where
  "TestDatabaseSuite E cl New = run_subtests
     [(''Index'', each_test (index_test E cl New) index_tests),
      (''Count'', each_test (count_test E cl New) count_tests),
      (''Select'', each_test (select_test E cl New) select_tests),
      (''Scroll'', each_test (scroll_test E cl New) scroll_tests),
      (''Bulk'', each_test (bulk_test E cl New) bulk_tests)]"

section \<open>The controller on an abstract database\<close>

lemma test_simps [simp]: "passed w = (True, w)" "Truef True k w = k w" "NoErrorf (None, w) k = k w" "NoError_value (Inr x, w) f = f x w"
  by (simp_all add: passed_def Truef_def NoErrorf_def NoError_value_def)

lemma each_test_passes: "(\<And>x w. x \<in> set xs \<Longrightarrow> fst (f x w)) \<Longrightarrow> fst (each_test f xs w)"
  by (induction xs arbitrary: w) (auto split: prod.splits, metis fst_conv)

definition empty_db :: database where
  "empty_db = \<lparr>db_docs = \<lambda>_ _. None, db_indices = {}, db_aliases = \<lambda>_. {}\<rparr>"

text \<open>An index that carries the only alias, with documents.\<close>

definition index_db :: "string \<Rightarrow> string \<Rightarrow> (string \<rightharpoonup> source) \<Rightarrow> database" where
  "index_db i a T = \<lparr>db_docs = (\<lambda>_ _. None)(i := T), db_indices = {i}, db_aliases = (\<lambda>_. {})(a := {i})\<rparr>"

definition drop_all :: "string set \<Rightarrow> database \<Rightarrow> database" where
  "drop_all I D = D\<lparr>db_docs := \<lambda>i d. if i \<in> I then None else db_docs D i d, db_indices := db_indices D - I,
     db_aliases := \<lambda>a. db_aliases D a - I\<rparr>"

lemma drop_fold: "fold drop_index is D = drop_all (set is) D"
proof (induction "is" arbitrary: D)
  case (Cons i "is")
  show ?case unfolding fold_simps comp_def Cons by (rule database.equality) (auto simp: drop_all_def drop_index_def fun_eq_iff)
qed (simp add: drop_all_def)

context elastic
begin

lemma CreateIndex_new: "i \<notin> db_indices (db w) \<Longrightarrow>
    \<exists>w'. CreateIndex E cl i t w = (None, w') \<and> db w' = (db w)\<lparr>db_indices := insert i (db_indices (db w))\<rparr>"
  using create_req[of i w "EsMappings cl t"] by (auto simp: CreateIndex_def)

lemma DeleteIndices_db: "db (DeleteIndices E is w) = drop_all (set is) (db w)"
proof -
  have "db (DeleteIndices E is w) = fold drop_index is (db w)" by (induction "is" arbitrary: w) (simp_all add: drop_req)
  then show ?thesis by (simp add: drop_fold)
qed

text \<open>An alias moves to an index that is there; the indices it was on are deleted.\<close>

lemma UpdateAlias_moves:
  assumes "i \<in> db_indices (db w)"
  shows "\<exists>w'. UpdateAlias E a i w = (None, w') \<and> db w' = drop_all (db_aliases (db w) a)
    ((db w)\<lparr>db_aliases := (db_aliases (db w))(a := {i})\<rparr>)"
proof -
  obtain "is" w1 where q: "es_IndicesByAlias E a w = (Inr is, w1)" "set is = db_aliases (db w) a" "db w1 = db w"
    using aliased_req[of a w] by blast
  let ?ops = "map (\<lambda>i. AliasRemove i a) is @ [AliasAdd i a]"
  have "fst (es_Alias E ?ops w1) = None" by (rule alias_req) (use assms q in auto)
  then obtain w2 where w2: "es_Alias E ?ops w1 = (None, w2)" by (metis prod.collapse)
  have f: "apply_aliases ?ops f = f(a := insert i (f a - set is))" for f
  proof (induction "is" arbitrary: f)
    case (Cons j "is")
    show ?case by (simp add: Cons Diff_insert2[of _ j "set is"] fun_eq_iff)
  qed simp
  have "db w2 = (db w)\<lparr>db_aliases := (db_aliases (db w))(a := {i})\<rparr>"
    using alias_ok[OF w2] q by (simp add: f)
  then show ?thesis using q w2 by (auto simp: UpdateAlias_def DeleteIndices_db)
qed

lemma prefix_of_alias: "db_aliases (db w) a = {i} \<Longrightarrow>
    \<exists>w'. GetExistingIndexPrefix E a t w = (Inr (True, TrimSuffix i t), w') \<and> db w' = db w"
proof -
  assume "db_aliases (db w) a = {i}"
  moreover obtain "is" w1 where "es_IndicesByAlias E a w = (Inr is, w1)" "set is = db_aliases (db w) a" "db w1 = db w"
    using aliased_req[of a w] by blast
  ultimately show ?thesis by (cases "is") (auto simp: GetExistingIndexPrefix_def)
qed

text \<open>The tests start with an empty index.\<close>

lemma set_up_index_db:
  assumes new: "db (New w) = empty_db" and k: "\<And>w. db w = index_db i a Map.empty \<Longrightarrow> fst (k w)"
  shows "fst (set_up_index E cl New i a t k w)"
proof -
  obtain w1 where 1: "CreateIndex E cl i t (New w) = (None, w1)" "db w1 = empty_db\<lparr>db_indices := {i}\<rparr>"
    using CreateIndex_new[of i "New w" cl t] by (auto simp: new empty_db_def)
  obtain w2 where 2: "UpdateAlias E a i w1 = (None, w2)" "db w2 = index_db i a Map.empty"
    using UpdateAlias_moves[of i w1 a] 1(2) by (auto simp: empty_db_def drop_all_def index_db_def fun_eq_iff)
  show ?thesis using k[OF 2(2)] by (simp add: set_up_index_def 1(1) 2(1))
qed

lemma Insert_db: "db w = index_db i a T \<Longrightarrow>
    \<exists>w'. Insert E x i w = (None, w') \<and> db w' = index_db i a (T(doc_GetID x \<mapsto> doc_source x))"
  using index_req[of i "doc_GetID x" "doc_source x" w] by (auto simp: Insert_def put_def index_db_def)

lemma Update_db: "db w = index_db i a T \<Longrightarrow>
    \<exists>w'. Update E x i d w = (None, w') \<and> db w' = index_db i a (T(d \<mapsto> merge_source (T d) (doc_source x)))"
  using update_req[of i d "doc_source x" w] by (auto simp: Update_def put_def index_db_def)

lemma inserts_db:
  assumes "db w = index_db i a T" and "\<And>w'. db w' = index_db i a (T(map doc_GetID xs [\<mapsto>] map doc_source xs)) \<Longrightarrow> fst (k w')"
  shows "fst (each_step (\<lambda>x. Insert E x i) xs k w)"
  using assms
proof (induction xs arbitrary: w T)
  case (Cons x xs)
  obtain w' where w': "Insert E x i w = (None, w')" "db w' = index_db i a (T(doc_GetID x \<mapsto> doc_source x))"
    using Insert_db[OF Cons.prems(1)] by blast
  have "fst (each_step (\<lambda>x. Insert E x i) xs k w')"
    by (rule Cons.IH[OF w'(2)], rule Cons.prems(2)) (simp only: list.map map_upds_Cons)
  then show ?case by (simp add: w'(1))
qed simp

lemma counted: "params_query p = NoQuery \<Longrightarrow> IndexName p = i \<Longrightarrow> db w = index_db i a T \<Longrightarrow>
    \<exists>w'. Count E p w = (Inr (int (card (Map.graph T))), w') \<and> db w' = index_db i a T"
proof -
  assume p: "params_query p = NoQuery" "IndexName p = i" and D: "db w = index_db i a T"
  have "found i NoQuery (db w) = Map.graph T" "decided i NoQuery (db w)"
    by (auto simp: found_def D index_db_def Map.graph_def decided_def)
  then show ?thesis using count_req[of i NoQuery w] p D by (auto simp: Count_def)
qed

lemma Delete_db:
  assumes "db w = index_db i a T" and "IndexName p = i"
    and "\<And>d src. T d = Some src \<Longrightarrow> hit_by (params_query p) d src = Some True"
  shows "\<exists>n w'. Delete E p w = (Inr n, w') \<and> db w' = index_db i a Map.empty"
proof -
  obtain n w' where d: "es_DeleteByQuery E i (params_query p) w = (Inr n, w')" "removes i (params_query p) (db w) (db w')"
    using delete_req by blast
  have "db_docs (db w') j d = None" for j d
    using d(2) assms(1,3) by (cases "j = i"; cases "T d") (auto simp: removes_def index_db_def)
  then have "db w' = index_db i a Map.empty"
    using d(2) assms(1) by (intro database.equality) (auto simp: removes_def index_db_def fun_eq_iff)
  then show ?thesis using d(1) assms(2) by (simp add: Delete_def)
qed

text \<open>What is selected first in the order of a number field, and what is scrolled through.\<close>

lemma scroll_expect_yields:
  "yields (Next E (createDoc t)) s w ds s' w' \<Longrightarrow> fst (scroll_expect E t (map doc_of ds) s w)"
proof (induction rule: yields.induct)
  case (doc s w d s1 w1 ds s' w')
  then show ?case by simp
qed simp

lemma SelectOne_first:
  assumes D: "db w = index_db i a T" and p: "p = select_params i f asc" "f \<noteq> []" and T: "Map.graph T = set hs" "numbered f (set hs)"
    and hs: "sorted (map (sort_number f asc) hs)" "distinct (map (sort_number f asc) hs)" "hs = h # hs'"
    and h: "decode_hit decode h = Some x"
  shows "\<exists>w'. SelectOne E p decode w = (Inr (Some x), w') \<and> db w' = db w"
proof -
  let ?srt = "Some \<lparr>sort_field = f, sort_asc = asc, sort_from = 0\<rparr>"
  have F: "found i NoQuery (db w) = set hs" "decided i NoQuery (db w)"
    using T(1) by (auto simp: found_def D index_db_def Map.graph_def decided_def)
  then obtain hs1 where l: "listing (Some (f, asc)) (set hs) hs1" "fst (es_Search E i NoQuery ?srt 1 w) = Inr (int (length hs1), take 1 hs1)"
    using search_req[of i NoQuery w ?srt 1] by auto
  have "hs1 = hs" by (rule listing_unique[OF l(1) T(2) refl hs(1,2)])
  with l(2) obtain w' where w': "es_Search E i NoQuery ?srt 1 w = (Inr (int (length hs), [h]), w')"
    using hs(3) by (metis One_nat_def prod.collapse take_Suc_Cons take0)
  have "db w' = db w" using search_keeps[of i NoQuery ?srt 1 w] by (simp add: w')
  with w' p h hs(3) show ?thesis
    by (auto simp: SelectOne_def select_params_def zeroQueryParams_def decode_hit_def split: prod.splits)
qed

lemma Scroll_yields:
  assumes D: "db w = index_db i a T" and p: "IndexName p = i" "SortField p = f" "SortAsc p = asc" "f \<noteq> []" "From p \<noteq> 0" "To p \<noteq> 0"
      "StringMatch p = None" "SelectFields p = []"
    and T: "numbered f (Map.graph T)"
    and H: "{(d, src) \<in> Map.graph T. hit_by (RangeQuery f (Some (sint (From p))) (Some (sint (To p)))) d src = Some True} = set hs"
    and hs: "sorted (map (sort_number f asc) hs)" "distinct (map (sort_number f asc) hs)" "map (decode_hit decode) hs = map Some ds"
  shows "\<exists>s' w'. yields (Next E decode) (Scroll p) w ds s' w'"
proof -
  let ?q = "RangeQuery f (Some (sint (From p))) (Some (sint (To p)))"
  obtain req where r: "scrollService (Scroll p) = (req, None)" "scroll_index req = i" "scroll_query req = ?q" "scroll_sort req = f"
      "scroll_asc req = asc" "scroll_include req = []" "scroll_result (Scroll p) = None"
    using p by (simp add: Scroll_def scroll_range_def)
  have "decided i ?q (db w)" using T by (fastforce simp: D index_db_def decided_def Map.graph_def numbered_def split: option.split)
  moreover have "found i ?q (db w) = {(d, src) \<in> Map.graph T. hit_by ?q d src = Some True}"
    by (auto simp: D index_db_def found_def Map.graph_def simp del: hit_by.simps)
  then have "found i ?q (db w) = set hs" using H by simp
  ultimately obtain ps w' where ps: "scroll_pages E req None w ps w'" "listing (Some (f, asc)) (set hs) (concat ps)"
    using scroll_req[of req w] r by auto
  have "set hs \<subseteq> Map.graph T" unfolding H[symmetric] by auto
  then have "numbered f (set hs)" using T unfolding numbered_def by blast
  then have "concat ps = hs" using listing_unique[OF ps(2) _ refl hs(1,2)] by blast
  then show ?thesis using scroll_pages_yielded[OF ps(1) r(1), of decode ds] r(7) hs(3) by blast
qed

lemma bulk_db:
  assumes "db w = index_db i a Map.empty" and "distinct (map doc_GetID xs)"
  shows "\<exists>b w'. Commit E (fold Add xs (InsertBulk i)) w = (None, b, w') \<and>
    db w' = index_db i a (Map.empty(map doc_GetID xs [\<mapsto>] map doc_source xs))"
proof -
  have add: "fold Add xs b = b\<lparr>bulk_requests := bulk_requests b @ map (\<lambda>x. BulkCreate (doc_GetID x) x) xs\<rparr>" for b
    by (induction xs arbitrary: b) (simp_all add: Add_def)
  have new: "put_new i (map (\<lambda>x. BulkCreate (doc_GetID x) x) ys) (index_db i a T) =
      index_db i a (T(map doc_GetID ys [\<mapsto>] map doc_source ys))"
    if "distinct (map doc_GetID ys)" and "set (map doc_GetID ys) \<inter> dom T = {}" for ys T
    using that
  proof (induction ys arbitrary: T)
    case (Cons y ys)
    have "put i (doc_GetID y) (doc_source y) (index_db i a T) = index_db i a (T(doc_GetID y \<mapsto> doc_source y))"
      by (auto simp: put_def index_db_def)
    moreover have "db_docs (index_db i a T) i (doc_GetID y) = None" using Cons.prems by (auto simp: index_db_def)
    ultimately show ?case using Cons.IH[of "T(doc_GetID y \<mapsto> doc_source y)"] Cons.prems
      by (auto simp del: fun_upd_apply)
  qed simp
  show ?thesis
    using bulk_req[of i "map (\<lambda>x. BulkCreate (doc_GetID x) x) xs" w] new[OF assms(2)] assms(1)
    by (auto simp: Commit_def add InsertBulk_def)
qed

end

text \<open>The documents of the tests.\<close>

lemma test_block_simps [simp]:
  "doc_GetID (test_block i n r) = i"
  "map_of (doc_source (test_block i n r)) ''no'' = Some (SNum (unat n))"
  "map_of (doc_source (test_block i n r)) ''reward_account'' = Some (SStr r)"
  "sort_number ''no'' asc (d, doc_source (test_block i n r)) = (if asc then int (unat n) else - int (unat n))"
  "merge_source (Some (doc_source (test_block i n r))) (doc_source (test_block i' n' r')) = doc_source (test_block i' n' r')"
  by (simp_all add: test_block_def GetID_def EsBlock_source_def sort_number_def number_of_def merge_source_same_fields)

lemma test_tx_simps [simp]: "doc_GetID (test_tx i n) = i" "map_of (doc_source (test_tx i n)) ''blockno'' = Some (SNum (unat n))"
  by (simp_all add: test_tx_def GetID_def EsTx_source_def)

definition read_block :: "doc \<Rightarrow> CreatedDoc" where
  "read_block x = \<lparr>Doc_Id = doc_GetID x, with_id = \<lambda>i. case x of DBlock b \<Rightarrow> DBlock (SetID i (SetID [] b)) | _ \<Rightarrow> x\<rparr>"

lemma test_block_read [simp]:
  "decode_hit (createDoc ''block'') (i, doc_source (test_block i n r)) = Some (read_block (test_block i n r))"
  "doc_of (read_block (test_block i n r)) = test_block i n r"
  by (simp_all add: decode_hit_def createDoc_def getDocType_def read_into_def read_block_def doc_of_def test_block_def
      EsBlock_roundtrip SetID_def GetID_def)

lemma graph_docs: "distinct (map doc_GetID ds) \<Longrightarrow>
    Map.graph (Map.empty(map doc_GetID ds [\<mapsto>] map doc_source ds)) = (\<lambda>d. (doc_GetID d, doc_source d)) ` set ds"
proof -
  have z: "zip (map doc_GetID ds) (map doc_source ds) = map (\<lambda>d. (doc_GetID d, doc_source d)) ds" by (induction ds) simp_all
  assume "distinct (map doc_GetID ds)"
  then show ?thesis by (simp add: map_upds_def z graph_map_of_if_distinct_dom rev_map[symmetric] comp_def)
qed

lemmas blocks = block_84_def block_85_def block_86_def

lemma index_tests_names: "(i, j, t, a) \<in> set index_tests \<Longrightarrow> \<exists>p q. i = p @ t \<and> j = q @ t \<and> p \<noteq> q"
  by (rule exI[of _ "''idx_old_''"], rule exI[of _ "''idx_new_''"]) (auto simp: index_tests_def)

context elastic
begin

lemma Index_passes:
  assumes new: "\<And>w. db (New w) = empty_db" and t: "x \<in> set index_tests"
  shows "fst (index_test E cl New x w)"
proof -
  obtain p q t a where x: "x = (p @ t, q @ t, t, a)" and neq: "p \<noteq> q"
    using index_tests_names t by (cases x) blast
  let ?o = "p @ t" and ?n = "q @ t"
  obtain w1 where 1: "CreateIndex E cl ?o t (New w) = (None, w1)" "db w1 = empty_db\<lparr>db_indices := {?o}\<rparr>"
    using CreateIndex_new[of ?o "New w" cl t] by (auto simp: new empty_db_def)
  obtain w2 where 2: "UpdateAlias E a ?o w1 = (None, w2)" "db w2 = index_db ?o a Map.empty"
    using UpdateAlias_moves[of ?o w1 a] 1(2) by (auto simp: empty_db_def drop_all_def index_db_def fun_eq_iff)
  obtain w3 where 3: "GetExistingIndexPrefix E a t w2 = (Inr (True, TrimSuffix ?o t), w3)" "db w3 = db w2"
    using prefix_of_alias[of w2 a ?o t] 2(2) by (auto simp: index_db_def)
  obtain w4 where 4: "CreateIndex E cl ?n t w3 = (None, w4)" "db w4 = (db w3)\<lparr>db_indices := insert ?n (db_indices (db w3))\<rparr>"
    using CreateIndex_new[of ?n w3 cl t] 3(2) 2(2) neq by (auto simp: index_db_def)
  obtain w5 where 5: "UpdateAlias E a ?n w4 = (None, w5)" "db_aliases (db w5) a = {?n}"
    using UpdateAlias_moves[of ?n w4 a] 4(2) 3(2) 2(2) neq by (auto simp: index_db_def drop_all_def)
  obtain w6 where 6: "GetExistingIndexPrefix E a t w5 = (Inr (True, TrimSuffix ?n t), w6)"
    using prefix_of_alias[OF 5(2), of t] by blast
  show ?thesis by (simp add: x index_test_def 1(1) 2(1) 3(1) 4(1) 5(1) 6 TrimSuffix_append neq)
qed

lemma Count_passes:
  assumes new: "\<And>w. db (New w) = empty_db" and t: "x \<in> set count_tests"
  shows "fst (count_test E cl New x w)"
proof -
  obtain i a t d r m where x: "x = (i, a, t, d, r, m)" by (cases x) auto
  let ?p = "zeroQueryParams\<lparr>IndexName := i\<rparr>" and ?q = "zeroQueryParams\<lparr>IndexName := i, TypeName := t, IntegerRange := r, StringMatch := m\<rparr>"
  have p: "params_query ?p = NoQuery" by (simp add: params_query_def zeroQueryParams_def)
  have q: "hit_by (params_query ?q) (doc_GetID d) (doc_source d) = Some True"
    using t x by (auto simp: count_tests_def params_query_def range_query_def match_query_def show_nat.simps digit_char_def zeroQueryParams_def)
  show ?thesis
    unfolding x count_test_def prod.case
  proof (rule set_up_index_db[where New = New, OF new])
    fix w assume "db w = index_db i a Map.empty"
    from Insert_db[OF this] obtain w1 where 1: "Insert E d i w = (None, w1)" "db w1 = index_db i a [doc_GetID d \<mapsto> doc_source d]" by blast
    have s: "db (clock_Sleep E Second w1) = index_db i a [doc_GetID d \<mapsto> doc_source d]" by (simp add: sleep_req 1(2))
    obtain w2 where 2: "Count E ?p (clock_Sleep E Second w1) = (Inr 1, w2)" "db w2 = index_db i a [doc_GetID d \<mapsto> doc_source d]"
      using counted[OF p _ s] by auto
    obtain n w3 where 3: "Delete E ?q w2 = (Inr n, w3)" "db w3 = index_db i a Map.empty"
    proof -
      have "hit_by (params_query ?q) d' src = Some True" if "[doc_GetID d \<mapsto> doc_source d] d' = Some src" for d' src
        using that q by (simp split: if_splits)
      then show thesis using Delete_db[OF 2(2), of ?q] that by auto
    qed
    obtain w4 where 4: "Count E ?p (clock_Sleep E Second w3) = (Inr 0, w4)"
      using counted[OF p, of i "clock_Sleep E Second w3" a Map.empty] by (auto simp: sleep_req 3(2))
    show "fst (NoErrorf (Insert E d i w) (\<lambda>w. NoError_value (Count E ?p (clock_Sleep E Second w)) (\<lambda>count.
        Truef (count = 1) (\<lambda>w. NoError_value (Delete E ?q w) (\<lambda>_ w.
        NoError_value (Count E ?p (clock_Sleep E Second w)) (\<lambda>count. Truef (count = 0) passed))))))"
      by (simp add: 1(1) 2(1) 3(1) 4)
  qed
qed

lemma Bulk_passes:
  assumes new: "\<And>w. db (New w) = empty_db" and t: "x \<in> set bulk_tests"
  shows "fst (bulk_test E cl New x w)"
proof -
  obtain i a t f asc lo hi ds n where x: "x = (i, a, t, f, asc, lo, hi, ds, n)" by (cases x) auto
  have d: "distinct (map doc_GetID ds)" "n = int (length ds)" using t by (auto simp: x bulk_tests_def blocks)
  let ?p = "zeroQueryParams\<lparr>IndexName := i\<rparr>" and ?T = "Map.empty(map doc_GetID ds [\<mapsto>] map doc_source ds)"
  have p: "params_query ?p = NoQuery" by (simp add: params_query_def zeroQueryParams_def)
  have T: "card (Map.graph ?T) = length ds"
    using d(1) by (simp only: graph_docs[OF d(1)]) (simp add: card_image distinct_map inj_on_def distinct_card)
  show ?thesis
    unfolding x bulk_test_def prod.case
  proof (rule set_up_index_db[where New = New, OF new])
    fix w assume "db w = index_db i a Map.empty"
    from bulk_db[OF this d(1)] obtain b w1 where 1: "Commit E (fold Add ds (InsertBulk i)) w = (None, b, w1)" "db w1 = index_db i a ?T" by blast
    have s: "db (clock_Sleep E Second w1) = index_db i a ?T" by (simp add: sleep_req 1(2))
    obtain w2 where 2: "Count E ?p (clock_Sleep E Second w1) = (Inr n, w2)"
      using counted[OF p _ s] T d(2) by auto
    show "fst (case Commit E (fold Add ds (InsertBulk i)) w of (err, bulk, w1) \<Rightarrow> NoErrorf (err, w1) (\<lambda>w.
        NoError_value (Count E ?p (clock_Sleep E Second w)) (\<lambda>count. Truef (n = count) passed)))"
      using 2 by (simp add: 1(1))
  qed
qed

lemma Scroll_passes:
  assumes new: "\<And>w. db (New w) = empty_db" and t: "x \<in> set scroll_tests"
  shows "fst (scroll_test E cl New x w)"
proof -
  obtain i a ty f asc lo hi ds es where x: "x = (i, a, ty, f, asc, lo, hi, ds, es)" by (cases x) auto
  let ?T = "Map.empty(map doc_GetID ds [\<mapsto>] map doc_source ds)" and ?row = "\<lambda>d. (doc_GetID d, doc_source d)"
  let ?p = "zeroQueryParams\<lparr>IndexName := i, SortField := f, SortAsc := asc, Query_Size := 100, From := lo, To := hi\<rparr>"
  have g: "Map.graph ?T = ?row ` set ds"
    by (rule graph_docs) (use t in \<open>auto simp: x scroll_tests_def blocks\<close>)
  have n: "numbered f (Map.graph ?T)" unfolding g using t by (auto simp: x scroll_tests_def blocks numbered_def)
  have h: "{(d, src) \<in> Map.graph ?T. hit_by (RangeQuery f (Some (sint (From ?p))) (Some (sint (To ?p)))) d src = Some True} = set (map ?row es)"
    unfolding g using t by (auto simp: x scroll_tests_def blocks)
  have s: "sorted (map (sort_number f asc) (map ?row es))" "distinct (map (sort_number f asc) (map ?row es))"
    using t by (auto simp: x scroll_tests_def blocks)
  have r: "map (decode_hit (createDoc ty)) (map ?row es) = map Some (map read_block es)" "map doc_of (map read_block es) = es"
    using t by (auto simp: x scroll_tests_def blocks)
  show ?thesis
    unfolding x scroll_test_def prod.case
  proof (rule set_up_index_db[where New = New, OF new], erule inserts_db)
    fix w assume w: "db w = index_db i a ?T"
    have "\<exists>s' w'. yields (Next E (createDoc ty)) (Scroll ?p) (clock_Sleep E Second w) (map read_block es) s' w'"
      by (rule Scroll_yields[OF _ _ _ _ _ _ _ _ _ n h s r(1)]) (use t in \<open>auto simp: sleep_req w x scroll_tests_def zeroQueryParams_def\<close>)
    then show "fst (scroll_expect E ty es (Scroll ?p) (clock_Sleep E Second w))"
      using scroll_expect_yields r(2) by metis
  qed
qed

lemma Select_passes:
  assumes new: "\<And>w. db (New w) = empty_db" and t: "x \<in> set select_tests"
  shows "fst (select_test E cl New x w)"
proof -
  obtain i a ty f asc ds d u where x: "x = (i, a, ty, f, asc, ds, d, u)" by (cases x) auto
  let ?T = "Map.empty(map doc_GetID ds [\<mapsto>] map doc_source ds)" and ?row = "\<lambda>d. (doc_GetID d, doc_source d)" and ?p = "select_params i f asc"
  let ?U = "?T(doc_GetID u \<mapsto> merge_source (?T (doc_GetID u)) (doc_source u))"
  define es where "es = (if asc then tl ds else tl (rev ds))"
  note c = x select_tests_def blocks es_def
  have g: "Map.graph ?T = set (map ?row (d # es))" using t by (auto simp: c Map.graph_def split: if_splits)
  have g': "Map.graph ?U = set (map ?row (u # es))" using t by (auto simp: c Map.graph_def split: if_splits)
  have n: "numbered f (set (map ?row (e # es)))" and s: "sorted (map (sort_number f asc) (map ?row (e # es)))"
    and m: "distinct (map (sort_number f asc) (map ?row (e # es)))"
    and r: "decode_hit (createDoc ty) (?row e) = Some (read_block e) \<and> doc_of (read_block e) = e" if "e \<in> {d, u}" for e
    using t that by (auto simp: c numbered_def)
  have f: "f \<noteq> []" using t by (auto simp: c)
  show ?thesis
    unfolding x select_test_def prod.case
  proof (rule set_up_index_db[where New = New, OF new], erule inserts_db)
    fix w assume "db w = index_db i a ?T"
    then have w: "db (clock_Sleep E Second w) = index_db i a ?T" by (simp add: sleep_req)
    obtain w1 where 1: "SelectOne E ?p (createDoc ty) (clock_Sleep E Second w) = (Inr (Some (read_block d)), w1)"
        "db w1 = index_db i a ?T"
      using SelectOne_first[OF w refl f g n s m list.map(2) conjunct1[OF r], unfolded w] by blast
    obtain w2 where 2: "Update E u i (doc_GetID u) w1 = (None, w2)" "db w2 = index_db i a ?U"
      using Update_db[OF 1(2)] by blast
    from 2(2) have w2: "db (clock_Sleep E Second w2) = index_db i a ?U" by (simp add: sleep_req)
    obtain w3 where 3: "SelectOne E ?p (createDoc ty) (clock_Sleep E Second w2) = (Inr (Some (read_block u)), w3)"
      using SelectOne_first[OF w2 refl f g' n s m list.map(2) conjunct1[OF r]] by blast
    show "fst (NoError_value (SelectOne E ?p (createDoc ty) (clock_Sleep E Second w)) (\<lambda>docResult.
        Truef (Some d = map_option doc_of docResult) (\<lambda>w. NoErrorf (Update E u i (doc_GetID u) w) (\<lambda>w.
        NoError_value (SelectOne E ?p (createDoc ty) (clock_Sleep E Second w)) (\<lambda>docResult.
        Truef (Some u = map_option doc_of docResult) passed)))))"
      using r by (simp add: 1(1) 2(1) 3)
  qed
qed

lemma suite:
  assumes "\<And>w. db (New w) = empty_db"
  shows "fst (TestDatabaseSuite E cl New w) =
    [(''Index'', True), (''Count'', True), (''Select'', True), (''Scroll'', True), (''Bulk'', True)]"
proof -
  have "fst (each_test (index_test E cl New) index_tests w)" "fst (each_test (count_test E cl New) count_tests w)"
    "fst (each_test (select_test E cl New) select_tests w)" "fst (each_test (scroll_test E cl New) scroll_tests w)"
    "fst (each_test (bulk_test E cl New) bulk_tests w)" for w
    by (intro each_test_passes Index_passes Count_passes Select_passes Scroll_passes Bulk_passes assms; assumption)+
  then show ?thesis by (simp add: TestDatabaseSuite_def case_prod_beta Let_def)
qed

end

text \<open>C32: on a database that does what its documentation says, the controller passes the whole suite, whatever the world is, when a new
  controller starts on an empty database: indices are made and aliases move, a document is counted until it is deleted by
  range or match, the first document in an order is selected and updated, a scroll gives a range in order, and a bulk is
  complete.\<close>

theorem suite_passes:
  assumes "elastic E db" and "\<forall>w. db (New w) = empty_db"
  shows "fst (TestDatabaseSuite E cl New w) =
    [(''Index'', True), (''Count'', True), (''Select'', True), (''Scroll'', True), (''Bulk'', True)]"
  by (rule elastic.suite[OF assms(1)]) (simp add: assms(2))

theorem suite_passes_witness:
  "fst (TestDatabaseSuite mem_env False (\<lambda>w. empty_mem) empty_mem) =
    [(''Index'', True), (''Count'', True), (''Select'', True), (''Scroll'', True), (''Bulk'', True)]"
  by (rule suite_passes[OF mem.elastic_axioms]) (simp add: mem_db_def empty_db_def empty_mem_def mem_view_def fun_eq_iff)

end
