(* ===== verification/Channels.thy ===== *)
theory Channels
  imports Pipeline Bulk_Facts
begin

text \<open>
  The goroutines of a check, running concurrently over unbuffered channels: miners that send documents, the six
  indexers, which commit when they are full or asked to, and whoever asks the indexer of blocks to commit (the
  time-out goroutine, \<open>StopBulkChannel\<close>). What an indexer does with one message is a short program of channel operations,
  which is tied to the function \<open>bulk_message\<close>; the goroutines then step in any order. A send and its receipt are
  one step, as on a channel without buffer. Commits succeed here, as \<open>takes_bulks\<close> says.
\<close>

section \<open>The program of a message\<close>

datatype instr =
    Ask chan         \<comment> \<open>send a commit request to an indexer\<close>
  | Await            \<comment> \<open>receive from \<open>SynDone\<close>\<close>
  | Flush            \<comment> \<open>commit the bulk\<close>
  | Signal           \<comment> \<open>send to \<open>SynDone\<close>\<close>
  | Take doc         \<comment> \<open>add a document to the bulk\<close>

definition others :: "chan list" where
  "others = [ChTx, ChEvent, ChContract, ChTokenTransfer, ChAccTokens]"

definition commit_program :: "bool \<Rightarrow> bool \<Rightarrow> nat \<Rightarrow> instr list" where
  "commit_program isBlock sync n =
     (if n = 0 then (if sync \<and> \<not> isBlock then [Signal] else [])
      else (if isBlock then map Ask others @ replicate 5 Await else []) @
        [Flush] @ (if sync \<and> \<not> isBlock then [Signal] else []))"

definition message_program :: "bool \<Rightarrow> int32 \<Rightarrow> nat \<Rightarrow> ChanInfo \<Rightarrow> instr list" where
  "message_program isBlock bsize n I =
     (if ChanInfo_Type I = ChanType_StopBulk then []
      else if ChanInfo_Type I = ChanType_Commit then commit_program isBlock True n
      else (if int n \<ge> sint bsize then commit_program isBlock False n else []) @
        (case ChanInfo_Doc I of Some d \<Rightarrow> [Take d] | None \<Rightarrow> []))"

text \<open>What an instruction does to the log, and the request it collects.\<close>

primrec instr_acts :: "instr \<Rightarrow> action list" where
  "instr_acts (Ask c) = [SendB c (control ChanType_Commit)]"
| "instr_acts Await = [RecvSynDone]"
| "instr_acts Flush = []"
| "instr_acts Signal = [SendSynDone]"
| "instr_acts (Take d) = []"

definition takes_of :: "instr list \<Rightarrow> doc list" where
  "takes_of p = List.map_filter (\<lambda>x. case x of Take d \<Rightarrow> Some d | _ \<Rightarrow> None) p"

lemma takes_of_simps [simp]:
  "takes_of [] = []" "takes_of (Take d # p) = d # takes_of p" "takes_of (Ask c # p) = takes_of p"
  "takes_of (Await # p) = takes_of p" "takes_of (Flush # p) = takes_of p" "takes_of (Signal # p) = takes_of p"
  "takes_of (p @ q) = takes_of p @ takes_of q" "takes_of (map Ask cs) = []" "takes_of (replicate k Await) = []"
  "takes_of (map Take ds) = ds"
proof -
  show "takes_of (map Ask cs) = []" "takes_of (map Take ds) = ds"
    by (induction cs) (simp_all add: takes_of_def List.map_filter_def comp_def)
  show "takes_of (replicate k Await) = []" by (induction k) (simp_all add: takes_of_def List.map_filter_def)
qed (simp_all add: takes_of_def List.map_filter_def)

lemma others_simps [simp]: "length others = 5" "distinct others" "ChBlock \<notin> set others" "c \<in> set others \<longleftrightarrow> c \<noteq> ChBlock"
  by (simp_all add: others_def) (cases c, simp_all)

section \<open>The program is what the indexer does\<close>

lemma commitBulk_program:
  assumes "takes_bulks E taken" and ok: "bulk_ok bsize st"
    and p_def: "p = commit_program isBlock sync (length (bulk_requests (bi_bulk st)))"
  shows "\<exists>st' t. commitBulk E isBlock sync st s = Some (Ret st', t) \<and> acts t = acts s @ concat (map instr_acts p) \<and>
    taken (world t) = taken (world s) @ (if Flush \<in> set p then [(bulk_index (bi_bulk st), bulk_requests (bi_bulk st))] else []) \<and>
    bulk_requests (bi_bulk st') = [] \<and> bi_total st' = 0 \<and> bulk_index (bi_bulk st') = bulk_index (bi_bulk st)"
proof (cases "bi_total st = 0")
  case True
  then have "bulk_requests (bi_bulk st) = []" using ok by (simp add: bulk_ok_def)
  then show ?thesis using True by (auto simp: p_def commit_program_def commitBulk_def)
next
  case False
  then have "sint (bi_total st) \<noteq> 0" using signed_word_eqI[of "bi_total st" 0] by auto
  then have ne: "bulk_requests (bi_bulk st) \<noteq> []" using ok by (auto simp: bulk_ok_def)
  obtain w where b: "es_Bulk E (bulk_index (bi_bulk st)) (bulk_requests (bi_bulk st)) (world s) = (None, [], w)"
    "taken w = taken (world s) @ [(bulk_index (bi_bulk st), bulk_requests (bi_bulk st))]"
    using assms(1) unfolding takes_bulks_def by (metis prod.collapse)
  have n: "taken (snd (clock_Now E v)) = taken v" for v using assms(1) by (simp add: takes_bulks_def)
  have e: "each (\<lambda>_. emit RecvSynDone) xs s1 = Some (Ret (), s1\<lparr>acts := acts s1 @ map (\<lambda>_. RecvSynDone) xs\<rparr>)"
    for xs :: "nat list" and s1 :: "'a Indexer" by (rule each_emit)
  have u: "[0..<5] = [0, 1, 2, 3, 4 :: nat]" by (simp add: upt_rec)
  note pre = sq_Ret[OF each_emit] sq_Ret[OF e]
  show ?thesis
    using False ne b n by (cases isBlock; cases sync)
      (simp_all add: p_def commit_program_def commitBulk_def Commit_def now_def bnd_assoc pre sq_assoc others_def u eval_nat_numeral)
qed

text \<open>C9: on a message, an indexer makes the channel operations of the message's program, in its order; it commits what it
  has collected exactly when the program flushes, and has collected afterwards what the program says.\<close>

theorem indexer_follows_program:
  assumes "takes_bulks E taken" and "bulk_ok bsize st" and "0 < sint bsize"
    and "I = added d \<or> I = control ChanType_Commit"
    and "p = message_program isBlock bsize (length (bulk_requests (bi_bulk st))) I"
  shows "\<exists>st' t. bulk_message E isBlock bsize I st s = Some (Ret (True, st'), t) \<and> acts t = acts s @ concat (map instr_acts p) \<and>
    taken (world t) = taken (world s) @ (if Flush \<in> set p then [(bulk_index (bi_bulk st), bulk_requests (bi_bulk st))] else []) \<and>
    bulk_requests (bi_bulk st') = (if Flush \<in> set p then [] else bulk_requests (bi_bulk st)) @ map create_request (takes_of p) \<and>
    bulk_ok bsize st'"
proof -
  have tot: "int (length (bulk_requests (bi_bulk st))) = sint (bi_total st)" using assms(2) by (simp add: bulk_ok_def)
  show ?thesis
  proof (cases "I = control ChanType_Commit")
    case True
    obtain st' t where c: "commitBulk E isBlock True st s = Some (Ret st', t)"
      "acts t = acts s @ concat (map instr_acts (commit_program isBlock True (length (bulk_requests (bi_bulk st)))))"
      "taken (world t) = taken (world s) @ (if Flush \<in> set (commit_program isBlock True (length (bulk_requests (bi_bulk st))))
        then [(bulk_index (bi_bulk st), bulk_requests (bi_bulk st))] else [])"
      "bulk_requests (bi_bulk st') = []" "bi_total st' = 0" "bulk_index (bi_bulk st') = bulk_index (bi_bulk st)"
      using commitBulk_program[OF assms(1,2) refl, of isBlock True s] by (elim exE conjE)
    show ?thesis
      using c True assms(2,3,5)
      by (auto simp: bulk_message_def message_program_def control_def bnd_Ret[where m = "commitBulk E isBlock True st", OF c(1)]
          bulk_ok_def commit_program_def)
  next
    case False
    then have I: "I = added d" using assms(4) by simp
    show ?thesis
    proof (cases "sint (bi_total st) \<ge> sint bsize")
      case True
      obtain st' t where c: "commitBulk E isBlock False st s = Some (Ret st', t)"
        "acts t = acts s @ concat (map instr_acts (commit_program isBlock False (length (bulk_requests (bi_bulk st)))))"
        "taken (world t) = taken (world s) @ (if Flush \<in> set (commit_program isBlock False (length (bulk_requests (bi_bulk st))))
          then [(bulk_index (bi_bulk st), bulk_requests (bi_bulk st))] else [])"
        "bulk_requests (bi_bulk st') = []" "bi_total st' = 0" "bulk_index (bi_bulk st') = bulk_index (bi_bulk st)"
        using commitBulk_program[OF assms(1,2) refl, of isBlock False s] by (elim exE conjE)
      have ne: "bulk_requests (bi_bulk st) \<noteq> []" using True assms(3) tot by auto
      show ?thesis
        using c True tot ne assms(3,5) I
        by (auto simp: bulk_message_def message_program_def added_def bnd_Ret[where m = "commitBulk E isBlock False st", OF c(1)]
            bulk_ok_def commit_program_def Add_def create_request_def comp_def)
    next
      case False
      then show ?thesis
        using tot assms(5) I bulk_add[OF assms(2), of d]
        by (auto simp: bulk_message_def message_program_def added_def Add_def create_request_def)
    qed
  qed
qed

theorem indexer_follows_program_witness:
  "\<exists>st' t. bulk_message mem_env True 2 (added (DBlock (block_doc ''b'' 3)))
      \<lparr>bi_bulk = \<lparr>bulk_index = ''p_block'', bulk_requests = [create_request (DBlock (block_doc ''a'' 1)), create_request (DBlock (block_doc ''c'' 2))]\<rparr>,
        bi_total = 2, bi_begin = 0, bi_return_flag = False\<rparr> (sample_indexer empty_mem) = Some (Ret (True, st'), t) \<and>
    acts t = map (\<lambda>c. SendB c (control ChanType_Commit)) others @ replicate 5 RecvSynDone \<and>
    m_bulk (world t) = [(''p_block'', [create_request (DBlock (block_doc ''a'' 1)), create_request (DBlock (block_doc ''c'' 2))])] \<and>
    bulk_requests (bi_bulk st') = [create_request (DBlock (block_doc ''b'' 3))]"
proof -
  let ?rs = "[create_request (DBlock (block_doc ''a'' 1)), create_request (DBlock (block_doc ''c'' 2))]"
  let ?st = "\<lparr>bi_bulk = \<lparr>bulk_index = ''p_block'', bulk_requests = ?rs\<rparr>, bi_total = 2, bi_begin = 0, bi_return_flag = False\<rparr>"
  let ?p = "message_program True 2 (length (bulk_requests (bi_bulk ?st))) (added (DBlock (block_doc ''b'' 3)))"
  have tk: "takes_bulks mem_env m_bulk" by (simp add: takes_bulks_def mem_env_def)
  have ok: "bulk_ok 2 ?st" "0 < sint (2 :: int32)" by (simp_all add: bulk_ok_def)
  have p: "?p = map Ask others @ replicate 5 Await @ [Flush, Take (DBlock (block_doc ''b'' 3))]"
    by (simp add: message_program_def commit_program_def added_def)
  have m: "m_bulk (world (sample_indexer empty_mem)) = []" by (simp add: empty_mem_def)
  from indexer_follows_program[OF tk ok disjI1[OF refl] refl, where isBlock = True and s = "sample_indexer empty_mem"
      and d = "DBlock (block_doc ''b'' 3)"]
  obtain st' t where "bulk_message mem_env True 2 (added (DBlock (block_doc ''b'' 3))) ?st (sample_indexer empty_mem) = Some (Ret (True, st'), t)"
    "acts t = acts (sample_indexer empty_mem) @ concat (map instr_acts ?p)"
    "m_bulk (world t) = m_bulk (world (sample_indexer empty_mem)) @ (if Flush \<in> set ?p then [(bulk_index (bi_bulk ?st), bulk_requests (bi_bulk ?st))] else [])"
    "bulk_requests (bi_bulk st') = (if Flush \<in> set ?p then [] else bulk_requests (bi_bulk ?st)) @ map create_request (takes_of ?p)"
    by (elim exE conjE)
  then show ?thesis unfolding p m by (intro exI conjI) (assumption, simp_all add: comp_def)
qed

section \<open>The goroutines together\<close>

text \<open>What a miner has still to send, what was sent so far (by whom and to which indexer, in order), what every indexer is
  about to do, has collected and has committed.\<close>

type_synonym delivery = "nat \<times> chan \<times> doc"

record system =
  outs :: "nat \<Rightarrow> (chan \<times> doc) list"
  sent :: "delivery list"
  progs :: "chan \<Rightarrow> instr list"
  collected :: "chan \<Rightarrow> doc list"
  committed :: "chan \<Rightarrow> doc list"

definition start_system :: "(nat \<Rightarrow> (chan \<times> doc) list) \<Rightarrow> system" where
  "start_system os = \<lparr>outs = os, sent = [], progs = (\<lambda>_. []), collected = (\<lambda>_. []), committed = (\<lambda>_. [])\<rparr>"

definition receive :: "int32 \<Rightarrow> chan \<Rightarrow> ChanInfo \<Rightarrow> system \<Rightarrow> instr list" where
  "receive bsize c I s = message_program (c = ChBlock) bsize (length (collected s c)) I"

text \<open>The steps that do the work: an indexer receives only when it has nothing left to do with the last message.\<close>

inductive work_step :: "int32 \<Rightarrow> system \<Rightarrow> system \<Rightarrow> bool" for bsize :: int32 where
  deliver: "outs s i = (c, d) # r \<Longrightarrow> progs s c = [] \<Longrightarrow>
    work_step bsize s (s\<lparr>outs := (outs s)(i := r), sent := sent s @ [(i, c, d)],
      progs := (progs s)(c := receive bsize c (added d) s)\<rparr>)"
| ask: "progs s b = Ask c # p \<Longrightarrow> progs s c = [] \<Longrightarrow>
    work_step bsize s (s\<lparr>progs := (progs s)(b := p, c := receive bsize c (control ChanType_Commit) s)\<rparr>)"
| signal: "progs s b = Await # p \<Longrightarrow> progs s c = Signal # q \<Longrightarrow>
    work_step bsize s (s\<lparr>progs := (progs s)(b := p, c := q)\<rparr>)"
| flush: "progs s c = Flush # p \<Longrightarrow>
    work_step bsize s (s\<lparr>progs := (progs s)(c := p), committed := (committed s)(c := committed s c @ collected s c),
      collected := (collected s)(c := [])\<rparr>)"
| take: "progs s c = Take d # p \<Longrightarrow>
    work_step bsize s (s\<lparr>progs := (progs s)(c := p), collected := (collected s)(c := collected s c @ [d])\<rparr>)"

text \<open>A commit request to the indexer of blocks may come at any time.\<close>

definition commit_request :: "int32 \<Rightarrow> system \<Rightarrow> system" where
  "commit_request bsize s = s\<lparr>progs := (progs s)(ChBlock := receive bsize ChBlock (control ChanType_Commit) s)\<rparr>"

inductive sys_reach :: "int32 \<Rightarrow> (nat \<Rightarrow> (chan \<times> doc) list) \<Rightarrow> system \<Rightarrow> bool"
  for bsize :: int32 and os :: "nat \<Rightarrow> (chan \<times> doc) list" where
  start: "sys_reach bsize os (start_system os)"
| work: "sys_reach bsize os s \<Longrightarrow> work_step bsize s s' \<Longrightarrow> sys_reach bsize os s'"
| request: "sys_reach bsize os s \<Longrightarrow> progs s ChBlock = [] \<Longrightarrow> sys_reach bsize os (commit_request bsize s)"

text \<open>The documents that an indexer was sent, in order.\<close>

definition arrived :: "delivery list \<Rightarrow> chan \<Rightarrow> doc list" where
  "arrived l c = map (snd \<circ> snd) (filter (\<lambda>x. fst (snd x) = c) l)"

lemma arrived_simps [simp]: "arrived [] c = []" "arrived (l @ l') c = arrived l c @ arrived l' c"
  "arrived [(i, c', d)] c = (if c' = c then [d] else [])"
  by (simp_all add: arrived_def)

section \<open>The invariant\<close>

text \<open>An indexer other than the one of blocks adds a document, perhaps after a commit, or answers a request.\<close>

definition other_shape :: "instr list \<Rightarrow> bool" where
  "other_shape p \<longleftrightarrow> p \<in> {[], [Signal], [Flush, Signal]} \<or> (\<exists>d. p \<in> {[Take d], [Flush, Take d]})"

text \<open>The indexer of blocks asks the others, waits as many times, and commits.\<close>

definition block_prog :: "chan list \<Rightarrow> nat \<Rightarrow> bool \<Rightarrow> doc list \<Rightarrow> instr list" where
  "block_prog A k f ds = map Ask A @ replicate k Await @ (if f then [Flush] else []) @ map Take ds"

definition signals :: "system \<Rightarrow> nat" where
  "signals s = length (filter (\<lambda>c. Signal \<in> set (progs s c)) others)"

definition in_phase :: "system \<Rightarrow> chan list \<Rightarrow> nat \<Rightarrow> bool \<Rightarrow> doc list \<Rightarrow> bool" where
  "in_phase s A k f ds \<longleftrightarrow> progs s ChBlock = block_prog A k f ds \<and> distinct A \<and> set A \<subseteq> set others \<and>
     (\<not> f \<longrightarrow> A = [] \<and> k = 0) \<and> k = length A + signals s \<and> (\<forall>c \<in> set A. Signal \<notin> set (progs s c))"

text \<open>What was sent before one of the first \<open>n\<close> block documents.\<close>

definition before :: "delivery list \<Rightarrow> nat \<Rightarrow> delivery list \<Rightarrow> bool" where
  "before l n us \<longleftrightarrow> (\<exists>y vs. l = us @ y # vs \<and> fst (snd y) = ChBlock \<and> length (arrived us ChBlock) < n)"

definition durable :: "system \<Rightarrow> bool" where
  "durable s \<longleftrightarrow> (\<forall>us. before (sent s) (length (committed s ChBlock)) us \<longrightarrow>
     (\<forall>c. length (arrived us c) \<le> length (committed s c)))"

text \<open>How many documents of an indexer are committed when it has answered.\<close>

definition secured :: "system \<Rightarrow> chan \<Rightarrow> nat" where
  "secured s c = length (committed s c) +
     (if Signal \<in> set (progs s c) \<and> Flush \<in> set (progs s c) then length (collected s c) else 0)"

definition safe :: "system \<Rightarrow> chan list \<Rightarrow> bool" where
  "safe s A \<longleftrightarrow> (\<forall>us. before (sent s) (length (committed s ChBlock) + length (collected s ChBlock)) us \<longrightarrow>
     (\<forall>c. c \<noteq> ChBlock \<and> c \<notin> set A \<longrightarrow> length (arrived us c) \<le> secured s c))"

definition sys_inv :: "system \<Rightarrow> bool" where
  "sys_inv s \<longleftrightarrow> (\<forall>c. c \<noteq> ChBlock \<longrightarrow> other_shape (progs s c)) \<and>
     (\<forall>c. committed s c @ collected s c @ takes_of (progs s c) = arrived (sent s) c) \<and>
     (\<exists>A k f ds. in_phase s A k f ds \<and> (f \<longrightarrow> safe s A)) \<and> durable s"

lemma block_prog_simps:
  "block_prog A k f ds = [] \<longleftrightarrow> A = [] \<and> k = 0 \<and> \<not> f \<and> ds = []"
  "block_prog A k f ds = Ask c # p \<longleftrightarrow> (\<exists>A'. A = c # A' \<and> p = block_prog A' k f ds)"
  "block_prog A k f ds = Await # p \<longleftrightarrow> A = [] \<and> (\<exists>k'. k = Suc k' \<and> p = block_prog [] k' f ds)"
  "block_prog A k f ds = Flush # p \<longleftrightarrow> A = [] \<and> k = 0 \<and> f \<and> p = block_prog [] 0 False ds"
  "block_prog A k f ds = Take d # p \<longleftrightarrow> A = [] \<and> k = 0 \<and> \<not> f \<and> (\<exists>ds'. ds = d # ds' \<and> p = block_prog [] 0 False ds')"
  "block_prog A k f ds \<noteq> Signal # p"
  by (cases A; cases k; cases ds; auto simp: block_prog_def)+

lemma receive_block: "\<exists>A k f ds. receive bsize ChBlock I s = block_prog A k f ds \<and>
    (f \<longrightarrow> A = others \<and> k = 5) \<and> (\<not> f \<longrightarrow> A = [] \<and> k = 0)"
proof -
  let ?f = "ChanInfo_Type I \<noteq> ChanType_StopBulk \<and> collected s ChBlock \<noteq> [] \<and>
      (ChanInfo_Type I = ChanType_Commit \<or> int (length (collected s ChBlock)) \<ge> sint bsize)"
  let ?ds = "if ChanInfo_Type I \<in> {ChanType_StopBulk, ChanType_Commit} then [] else (case ChanInfo_Doc I of Some d \<Rightarrow> [d] | None \<Rightarrow> [])"
  have "receive bsize ChBlock I s = block_prog (if ?f then others else []) (if ?f then 5 else 0) ?f ?ds"
    by (auto simp: receive_def message_program_def commit_program_def block_prog_def split: option.split)
  then show ?thesis by (intro exI[of _ "if ?f then others else []"] exI[of _ "if ?f then 5 else 0"] exI[of _ ?f] exI[of _ ?ds]) simp
qed

lemma receive_takes: "takes_of (receive bsize c (added d) s) = [d]" "takes_of (receive bsize c (control ChanType_Commit) s) = []"
  by (simp_all add: receive_def message_program_def commit_program_def added_def control_def)

lemma receive_other:
  assumes "c \<noteq> ChBlock"
  shows "other_shape (receive bsize c (added d) s)" "Signal \<notin> set (receive bsize c (added d) s)"
    "receive bsize c (control ChanType_Commit) s = (if collected s c = [] then [Signal] else [Flush, Signal])"
  using assms by (auto simp: receive_def message_program_def commit_program_def added_def control_def other_shape_def)

lemma before_append: "before (l @ [(i, c, d)]) n us \<Longrightarrow> n \<le> length (arrived l ChBlock) \<Longrightarrow> before l n us"
  unfolding before_def by (auto simp: append_eq_append_conv2 Cons_eq_append_conv append_eq_Cons_conv)

lemma before_mono: "before l n us \<Longrightarrow> length (arrived us c) \<le> length (arrived l c)"
  by (auto simp: before_def)

text \<open>Parts of the invariant that a step of one indexer does not touch.\<close>

lemma sys_invE:
  assumes "sys_inv s"
  obtains A k f ds where "in_phase s A k f ds" "f \<Longrightarrow> safe s A" "durable s"
    "\<And>c. c \<noteq> ChBlock \<Longrightarrow> other_shape (progs s c)"
    "\<And>c. committed s c @ collected s c @ takes_of (progs s c) = arrived (sent s) c"
  using assms unfolding sys_inv_def by blast

lemma block_bound: "sys_inv s \<Longrightarrow> length (committed s ChBlock) + length (collected s ChBlock) \<le> length (arrived (sent s) ChBlock)"
  by (erule sys_invE) (metis length_append add.assoc le_add1)

lemma signals_cong: "(\<And>c. c \<noteq> ChBlock \<Longrightarrow> Signal \<in> set (progs s' c) \<longleftrightarrow> Signal \<in> set (progs s c)) \<Longrightarrow> signals s' = signals s"
  unfolding signals_def by (intro arg_cong[where f = length] filter_cong) auto

lemma signals_change:
  assumes "c \<noteq> ChBlock" and "\<And>c'. c' \<noteq> c \<Longrightarrow> c' \<noteq> ChBlock \<Longrightarrow> Signal \<in> set (progs s' c') \<longleftrightarrow> Signal \<in> set (progs s c')"
    and "Signal \<in> set (progs s' c)" and "Signal \<notin> set (progs s c)"
  shows "signals s' = Suc (signals s)"
proof -
  have n: "length (filter P others) = card {c. c \<noteq> ChBlock \<and> P c}" for P
    by (subst distinct_card[symmetric]) (auto intro: arg_cong[where f = card])
  have fin: "finite {c. c \<noteq> ChBlock \<and> P c}" for P
    by (rule finite_subset[of _ "set others"]) auto
  have "{c'. c' \<noteq> ChBlock \<and> Signal \<in> set (progs s' c')} = insert c {c'. c' \<noteq> ChBlock \<and> Signal \<in> set (progs s c')}"
  proof (rule set_eqI)
    fix x show "x \<in> {c'. c' \<noteq> ChBlock \<and> Signal \<in> set (progs s' c')} \<longleftrightarrow> x \<in> insert c {c'. c' \<noteq> ChBlock \<and> Signal \<in> set (progs s c')}"
      using assms(1,3) assms(2)[of x] by (cases "x = c") auto
  qed
  then show ?thesis unfolding signals_def n using assms(4) fin by simp
qed

lemma in_phase_idle: "in_phase s A k f ds \<Longrightarrow> progs s ChBlock = [] \<Longrightarrow> signals s = 0 \<and> A = [] \<and> \<not> f"
  using block_prog_simps(1)[of A k f ds] by (auto simp: in_phase_def)

lemma no_signals: "signals s = 0 \<Longrightarrow> c \<noteq> ChBlock \<Longrightarrow> Signal \<notin> set (progs s c)"
  by (simp add: signals_def filter_empty_conv)

lemma inv_deliver:
  assumes inv: "sys_inv s" and idle: "progs s c = []"
  shows "sys_inv (s\<lparr>outs := os, sent := sent s @ [(i, c, d)], progs := (progs s)(c := receive bsize c (added d) s)\<rparr>)"
    (is "sys_inv ?s")
  using inv
proof (rule sys_invE)
  fix A k f ds
  assume ph: "in_phase s A k f ds" and sf: "f \<Longrightarrow> safe s A" and du: "durable s"
    and sh: "\<And>c. c \<noteq> ChBlock \<Longrightarrow> other_shape (progs s c)"
    and fl: "\<And>c. committed s c @ collected s c @ takes_of (progs s c) = arrived (sent s) c"
  have bef: "before (sent ?s) n us \<Longrightarrow> before (sent s) n us"
    if "n \<le> length (committed s ChBlock) + length (collected s ChBlock)" for n us
    using before_append block_bound[OF inv] that by fastforce
  have "durable ?s" using du bef unfolding durable_def by simp
  moreover have "\<forall>c. committed ?s c @ collected ?s c @ takes_of (progs ?s c) = arrived (sent ?s) c"
    using fl idle fl[of c] by (auto simp: receive_takes)
  moreover have "\<forall>c. c \<noteq> ChBlock \<longrightarrow> other_shape (progs ?s c)" using sh receive_other(1) by simp
  moreover have "\<exists>A k f ds. in_phase ?s A k f ds \<and> (f \<longrightarrow> safe ?s A)"
  proof (cases "c = ChBlock")
    case True
    have sg: "signals ?s = signals s" using True by (intro signals_cong) simp
    have "signals s = 0" using in_phase_idle[OF ph] idle True by simp
    moreover obtain A' k' f' ds' where "receive bsize ChBlock (added d) s = block_prog A' k' f' ds'"
      "f' \<longrightarrow> A' = others \<and> k' = 5" "\<not> f' \<longrightarrow> A' = [] \<and> k' = 0" using receive_block by blast
    moreover note no_signals[OF \<open>signals s = 0\<close>]
    ultimately have "in_phase ?s A' k' f' ds'" using True sg by (cases f') (auto simp: in_phase_def)
    moreover have "f' \<longrightarrow> safe ?s A'" using \<open>f' \<longrightarrow> A' = others \<and> k' = 5\<close> by (simp add: safe_def)
    ultimately show ?thesis by blast
  next
    case False
    have sg: "signals ?s = signals s" using receive_other(2)[OF False] idle by (intro signals_cong) simp
    have "in_phase ?s A k f ds" using ph False sg receive_other(2)[OF False] by (auto simp: in_phase_def)
    moreover have "secured ?s = secured s"
      using receive_other(2)[OF False] idle by (auto simp: secured_def fun_eq_iff)
    then have "f \<longrightarrow> safe ?s A" using sf bef by (auto simp: safe_def)
    ultimately show ?thesis by blast
  qed
  ultimately show ?thesis unfolding sys_inv_def by blast
qed

lemma inv_request:
  assumes inv: "sys_inv s" and idle: "progs s ChBlock = []"
  shows "sys_inv (commit_request bsize s)" (is "sys_inv ?s")
  using inv
proof (rule sys_invE)
  fix A k f ds
  assume ph: "in_phase s A k f ds" and du: "durable s"
    and sh: "\<And>c. c \<noteq> ChBlock \<Longrightarrow> other_shape (progs s c)"
    and fl: "\<And>c. committed s c @ collected s c @ takes_of (progs s c) = arrived (sent s) c"
  have sg: "signals ?s = signals s" by (intro signals_cong) (simp add: commit_request_def)
  have z: "signals s = 0" using in_phase_idle[OF ph idle] by simp
  note q = no_signals[OF z]
  obtain A' k' f' ds' where r: "receive bsize ChBlock (control ChanType_Commit) s = block_prog A' k' f' ds'"
    "f' \<longrightarrow> A' = others \<and> k' = 5" "\<not> f' \<longrightarrow> A' = [] \<and> k' = 0" using receive_block by blast
  have "in_phase ?s A' k' f' ds'" using r sg z q by (cases f') (auto simp: in_phase_def commit_request_def)
  moreover have "f' \<longrightarrow> safe ?s A'" using r(2) by (simp add: safe_def)
  moreover have "durable ?s" using du by (simp add: durable_def commit_request_def)
  moreover have "committed ?s c @ collected ?s c @ takes_of (progs ?s c) = arrived (sent ?s) c" for c
    using fl[of c] idle by (auto simp: commit_request_def receive_takes)
  moreover have "c \<noteq> ChBlock \<Longrightarrow> other_shape (progs ?s c)" for c using sh by (simp add: commit_request_def)
  ultimately show ?thesis unfolding sys_inv_def by blast
qed

lemma other_shape_simps:
  "\<not> other_shape (Ask c # p)" "\<not> other_shape (Await # p)"
  "other_shape (Signal # p) \<longleftrightarrow> p = []" "other_shape (Take d # p) \<longleftrightarrow> p = []"
  "other_shape (Flush # p) \<longleftrightarrow> p = [Signal] \<or> (\<exists>d. p = [Take d])" "other_shape []" "other_shape [Take d]"
  by (auto simp: other_shape_def)

lemma ask_shape: "sys_inv s \<Longrightarrow> progs s b = Ask c # p \<Longrightarrow> b = ChBlock \<and> c \<noteq> ChBlock"
proof (erule sys_invE)
  fix A k f ds
  assume b: "progs s b = Ask c # p" and ph: "in_phase s A k f ds" and sh: "\<And>c. c \<noteq> ChBlock \<Longrightarrow> other_shape (progs s c)"
  have bb: "b = ChBlock" using sh[of b] b other_shape_simps(1) by metis
  then have "block_prog A k f ds = Ask c # p" using ph b by (simp add: in_phase_def)
  then obtain A' where "A = c # A'" using block_prog_simps(2) by metis
  then show ?thesis using ph bb by (auto simp: in_phase_def)
qed

lemma inv_asked:
  assumes inv: "sys_inv s" and b: "progs s b = Ask c # p" and idle: "progs s c = []"
  shows "sys_inv (s\<lparr>progs := (progs s)(b := p, c := receive bsize c (control ChanType_Commit) s)\<rparr>)" (is "sys_inv ?s")
  using inv
proof (rule sys_invE)
  fix A k f ds
  assume ph: "in_phase s A k f ds" and sf: "f \<Longrightarrow> safe s A" and du: "durable s"
    and sh: "\<And>c. c \<noteq> ChBlock \<Longrightarrow> other_shape (progs s c)"
    and fl: "\<And>c. committed s c @ collected s c @ takes_of (progs s c) = arrived (sent s) c"
  have bb: "b = ChBlock" and c0: "c \<noteq> ChBlock" using ask_shape[OF inv b] by simp_all
  then have "block_prog A k f ds = Ask c # p" using ph b by (simp add: in_phase_def)
  then obtain A' where A: "A = c # A'" "p = block_prog A' k f ds" using block_prog_simps(2) by metis
  then have c: "c \<noteq> ChBlock" "c \<notin> set A'" and f: f using ph c0 by (auto simp: in_phase_def)
  note r = receive_other(3)[OF c(1), of bsize s]
  have "signals ?s = Suc (signals s)"
    by (rule signals_change[OF c(1)]) (use bb c r idle in \<open>auto split: if_splits\<close>)
  then have "in_phase ?s A' k f ds" using ph A bb c f by (auto simp: in_phase_def)
  moreover have "safe ?s A'"
    unfolding safe_def
  proof (intro allI impI)
    fix us c' assume us: "before (sent ?s) (length (committed ?s ChBlock) + length (collected ?s ChBlock)) us"
      and c': "c' \<noteq> ChBlock \<and> c' \<notin> set A'"
    show "length (arrived us c') \<le> secured ?s c'"
    proof (cases "c' = c")
      case True
      have "length (arrived us c) \<le> length (committed s c) + length (collected s c)"
        using before_mono[of "sent s" _ us c] us fl[of c, symmetric] idle by simp
      then show ?thesis using True r by (simp add: secured_def split: if_splits)
    next
      case False
      then have "length (arrived us c') \<le> secured s c'" using sf[OF f] us c' A by (simp add: safe_def)
      then show ?thesis using False c' bb by (auto simp: secured_def)
    qed
  qed
  moreover have "durable ?s" using du by (simp add: durable_def)
  moreover have "committed ?s c' @ collected ?s c' @ takes_of (progs ?s c') = arrived (sent ?s) c'" for c'
    using fl[of c'] idle b bb c(1) by (auto simp: receive_takes)
  moreover have "c' \<noteq> ChBlock \<Longrightarrow> other_shape (progs ?s c')" for c'
    using sh bb r by (auto simp: other_shape_def)
  ultimately show ?thesis unfolding sys_inv_def by blast
qed

lemma inv_signal:
  assumes inv: "sys_inv s" and b: "progs s b = Await # p" and c: "progs s c = Signal # q"
  shows "sys_inv (s\<lparr>progs := (progs s)(b := p, c := q)\<rparr>)" (is "sys_inv ?s")
  using inv
proof (rule sys_invE)
  fix A k f ds
  assume ph: "in_phase s A k f ds" and sf: "f \<Longrightarrow> safe s A" and du: "durable s"
    and sh: "\<And>c. c \<noteq> ChBlock \<Longrightarrow> other_shape (progs s c)"
    and fl: "\<And>c. committed s c @ collected s c @ takes_of (progs s c) = arrived (sent s) c"
  have bb: "b = ChBlock" using sh[of b] b other_shape_simps(2) by metis
  have cb: "c \<noteq> ChBlock" using b c bb by auto
  have q: "q = []" using sh[OF cb] c other_shape_simps(3) by metis
  have "block_prog A k f ds = Await # p" using ph b bb by (simp add: in_phase_def)
  then obtain k' where A: "A = []" "k = Suc k'" "p = block_prog [] k' f ds" using block_prog_simps(3) by metis
  then have f: f using ph by (auto simp: in_phase_def)
  have "signals s = Suc (signals ?s)"
    by (rule signals_change[OF cb]) (use bb c cb q in auto)
  then have "in_phase ?s [] k' f ds" using ph A bb cb f by (auto simp: in_phase_def)
  moreover have "secured ?s c' = secured s c'" if "c' \<noteq> ChBlock" for c'
    using that bb c cb q by (auto simp: secured_def)
  then have "safe ?s []" using sf[OF f] A(1) by (simp add: safe_def)
  moreover have "durable ?s" using du by (simp add: durable_def)
  moreover have "committed ?s c' @ collected ?s c' @ takes_of (progs ?s c') = arrived (sent ?s) c'" for c'
    using fl[of c'] b bb c cb by auto
  moreover have "c' \<noteq> ChBlock \<Longrightarrow> other_shape (progs ?s c')" for c'
    using sh bb q by (auto simp: other_shape_simps)
  ultimately show ?thesis unfolding sys_inv_def by blast
qed

lemma inv_flush:
  assumes inv: "sys_inv s" and c: "progs s c = Flush # p"
  shows "sys_inv (s\<lparr>progs := (progs s)(c := p), committed := (committed s)(c := committed s c @ collected s c),
      collected := (collected s)(c := [])\<rparr>)" (is "sys_inv ?s")
  using inv
proof (rule sys_invE)
  fix A k f ds
  assume ph: "in_phase s A k f ds" and sf: "f \<Longrightarrow> safe s A" and du: "durable s"
    and sh: "\<And>c. c \<noteq> ChBlock \<Longrightarrow> other_shape (progs s c)"
    and fl: "\<And>c. committed s c @ collected s c @ takes_of (progs s c) = arrived (sent s) c"
  have flow: "committed ?s c' @ collected ?s c' @ takes_of (progs ?s c') = arrived (sent ?s) c'" for c'
    using fl[of c'] c by auto
  show ?thesis
  proof (cases "c = ChBlock")
    case True
    have "block_prog A k f ds = Flush # p" using ph c True by (simp add: in_phase_def)
    then have A: "A = []" "k = 0" f "p = block_prog [] 0 False ds" using block_prog_simps(4) by metis+
    then have z: "signals s = 0" using ph by (simp add: in_phase_def)
    have sg: "signals ?s = signals s" using True by (intro signals_cong) simp
    have "durable ?s"
      unfolding durable_def
    proof (intro allI impI)
      fix us c' assume us: "before (sent ?s) (length (committed ?s ChBlock)) us"
      show "length (arrived us c') \<le> length (committed ?s c')"
      proof (cases "c' = ChBlock")
        case True
        then show ?thesis using us by (auto simp: before_def)
      next
        case False
        then have "Signal \<notin> set (progs s c')" by (rule no_signals[OF z])
        moreover have "length (arrived us c') \<le> secured s c'"
          using sf[OF A(3)] us True False A(1) by (simp add: safe_def)
        ultimately show ?thesis using False True by (simp add: secured_def)
      qed
    qed
    moreover have "in_phase ?s [] 0 False ds" using A True z sg by (simp add: in_phase_def)
    moreover have "c' \<noteq> ChBlock \<Longrightarrow> other_shape (progs ?s c')" for c' using sh True by simp
    ultimately show ?thesis using flow unfolding sys_inv_def by blast
  next
    case False
    have p: "p = [Signal] \<or> (\<exists>d. p = [Take d])" using sh[OF False] c other_shape_simps(5) by metis
    have sg: "signals ?s = signals s" using c by (intro signals_cong) simp
    have "in_phase ?s A k f ds" using ph False sg c by (auto simp: in_phase_def)
    moreover have "secured s c' \<le> secured ?s c'" for c'
      using c p by (auto simp: secured_def)
    then have "f \<longrightarrow> safe ?s A" using sf False unfolding safe_def by (simp add: order_trans[rotated]) (meson order_trans)
    moreover have "durable ?s" using du False unfolding durable_def by (auto intro: trans_le_add1)
    moreover have "c' \<noteq> ChBlock \<Longrightarrow> other_shape (progs ?s c')" for c' using sh p by (auto simp: other_shape_def)
    ultimately show ?thesis using flow unfolding sys_inv_def by blast
  qed
qed

lemma inv_take:
  assumes inv: "sys_inv s" and c: "progs s c = Take d # p"
  shows "sys_inv (s\<lparr>progs := (progs s)(c := p), collected := (collected s)(c := collected s c @ [d])\<rparr>)" (is "sys_inv ?s")
  using inv
proof (rule sys_invE)
  fix A k f ds
  assume ph: "in_phase s A k f ds" and sf: "f \<Longrightarrow> safe s A" and du: "durable s"
    and sh: "\<And>c. c \<noteq> ChBlock \<Longrightarrow> other_shape (progs s c)"
    and fl: "\<And>c. committed s c @ collected s c @ takes_of (progs s c) = arrived (sent s) c"
  have flow: "committed ?s c' @ collected ?s c' @ takes_of (progs ?s c') = arrived (sent ?s) c'" for c'
    using fl[of c'] c by auto
  have sg: "signals ?s = signals s" using c by (intro signals_cong) simp
  have du': "durable ?s" using du by (simp add: durable_def)
  show ?thesis
  proof (cases "c = ChBlock")
    case True
    have "block_prog A k f ds = Take d # p" using ph c True by (simp add: in_phase_def)
    then obtain ds' where A: "A = []" "k = 0" "\<not> f" "p = block_prog [] 0 False ds'" using block_prog_simps(5) by metis
    then have "in_phase ?s [] 0 False ds'" using ph True sg by (simp add: in_phase_def)
    moreover have "c' \<noteq> ChBlock \<Longrightarrow> other_shape (progs ?s c')" for c' using sh True by simp
    ultimately show ?thesis using flow du' unfolding sys_inv_def by blast
  next
    case False
    have p: "p = []" using sh[OF False] c other_shape_simps(4) by metis
    have "in_phase ?s A k f ds" using ph False sg c by (auto simp: in_phase_def)
    moreover have "secured ?s c' = secured s c'" for c' using c p by (auto simp: secured_def)
    then have "f \<longrightarrow> safe ?s A" using sf False by (simp add: safe_def)
    moreover have "c' \<noteq> ChBlock \<Longrightarrow> other_shape (progs ?s c')" for c' using sh p by (simp add: other_shape_simps)
    ultimately show ?thesis using flow du' unfolding sys_inv_def by blast
  qed
qed

lemma inv_start: "sys_inv (start_system os)"
proof -
  have "in_phase (start_system os) [] 0 False []"
    by (simp add: in_phase_def start_system_def block_prog_def signals_def filter_empty_conv)
  then show ?thesis
    unfolding sys_inv_def by (auto simp: start_system_def other_shape_def durable_def before_def)
qed

lemma reach_inv: "sys_reach bsize os s \<Longrightarrow> sys_inv s"
proof (induction rule: sys_reach.induct)
  case start
  show ?case by (rule inv_start)
next
  case (work s s')
  from work.hyps(2) work.IH show ?case
    by cases (auto intro: inv_deliver inv_asked inv_signal inv_flush inv_take)
next
  case (request s)
  then show ?case by (intro inv_request)
qed

section \<open>Nothing is lost, and blocks come last\<close>

text \<open>A miner sends its documents in order.\<close>

definition sent_by :: "nat \<Rightarrow> delivery list \<Rightarrow> (chan \<times> doc) list" where
  "sent_by i l = map snd (filter (\<lambda>x. fst x = i) l)"

lemma sent_by_simps [simp]: "sent_by i [] = []" "sent_by i (l @ l') = sent_by i l @ sent_by i l'"
  "sent_by i [(j, x)] = (if j = i then [x] else [])" "sent_by i ((j, x) # l) = (if j = i then [x] else []) @ sent_by i l"
  by (simp_all add: sent_by_def)

lemma reach_scripts: "sys_reach bsize os s \<Longrightarrow> sent_by i (sent s) @ outs s i = os i"
proof (induction rule: sys_reach.induct)
  case start
  show ?case by (simp add: start_system_def)
next
  case (work s s')
  from work.hyps(2) work.IH show ?case by cases auto
next
  case (request s)
  then show ?case by (simp add: commit_request_def)
qed

lemma arrived_sent_by: "(i, c, d) \<in> set l \<Longrightarrow> d \<in> set (arrived l c)" "(c, d) \<in> set (sent_by i l) \<Longrightarrow> (i, c, d) \<in> set l"
  by (force simp: arrived_def sent_by_def)+

lemma arrived_split:
  "n < length (arrived l c) \<Longrightarrow> \<exists>us i vs. l = us @ (i, c, arrived l c ! n) # vs \<and> length (arrived us c) = n"
proof (induction l rule: rev_induct)
  case (snoc x l)
  obtain j c' d where x: "x = (j, c', d)" by (cases x)
  show ?case
  proof (cases "n < length (arrived l c)")
    case True
    from snoc.IH[OF this] obtain us i vs where "l = us @ (i, c, arrived l c ! n) # vs" "length (arrived us c) = n"
      by (elim exE conjE)
    then show ?thesis using True x
      by (intro exI[of _ us] exI[of _ i] exI[of _ "vs @ [x]"]) (simp add: nth_append)
  next
    case False
    then have "c' = c" "n = length (arrived l c)" using snoc.prems x by (auto split: if_splits)
    then show ?thesis using x by (intro exI[of _ l] exI[of _ j] exI[of _ "[]"]) simp
  qed
qed simp

lemma committed_before:
  assumes "sys_reach bsize os s" and "d \<in> set (committed s ChBlock)"
  shows "\<exists>i xs ys. os i = xs @ (ChBlock, d) # ys \<and> (\<forall>(c, d') \<in> set xs. d' \<in> set (committed s c))"
proof -
  from reach_inv[OF assms(1)] have du: "durable s"
    and fl: "\<And>c. committed s c @ collected s c @ takes_of (progs s c) = arrived (sent s) c" by (auto elim: sys_invE)
  obtain n where n: "n < length (committed s ChBlock)" "committed s ChBlock ! n = d" using assms(2) by (auto simp: in_set_conv_nth)
  then have a: "n < length (arrived (sent s) ChBlock)" "arrived (sent s) ChBlock ! n = d"
    unfolding fl[of ChBlock, symmetric] by (simp_all add: nth_append)
  from arrived_split[OF a(1)] a(2) obtain us i vs where us: "sent s = us @ (i, ChBlock, d) # vs" "length (arrived us ChBlock) = n"
    by (elim exE conjE) simp
  have "before (sent s) (length (committed s ChBlock)) us" using us n(1) by (auto simp: before_def)
  then have le: "length (arrived us c) \<le> length (committed s c)" for c using du by (simp add: durable_def)
  have "d' \<in> set (committed s c)" if "(c, d') \<in> set (sent_by i us)" for c d'
  proof -
    have "d' \<in> set (arrived us c)" by (rule arrived_sent_by(1)[OF arrived_sent_by(2)[OF that]])
    moreover have "committed s c @ collected s c @ takes_of (progs s c) = arrived us c @ arrived ((i, ChBlock, d) # vs) c"
      using fl[of c] us(1) by (metis arrived_simps(2))
    then have "arrived us c = take (length (arrived us c)) (committed s c)"
      using le[of c] by (metis append_eq_append_conv_if)
    ultimately show ?thesis by (metis in_set_takeD)
  qed
  moreover have "os i = sent_by i us @ (ChBlock, d) # sent_by i vs @ outs s i"
    using reach_scripts[OF assms(1), of i] us(1) by simp
  ultimately show ?thesis by blast
qed

section \<open>The goroutines do not block each other\<close>

definition at_rest :: "system \<Rightarrow> bool" where
  "at_rest s \<longleftrightarrow> (\<forall>i. outs s i = []) \<and> (\<forall>c. progs s c = [])"

lemma inv_progress:
  assumes inv: "sys_inv s" and busy: "\<not> at_rest s"
  shows "\<exists>s'. work_step bsize s s'"
  using inv
proof (rule sys_invE)
  fix A k f ds
  assume ph: "in_phase s A k f ds" and sh: "\<And>c. c \<noteq> ChBlock \<Longrightarrow> other_shape (progs s c)"
  have local: "\<exists>s'. work_step bsize s s'" if "progs s c = x # p" "x = Flush \<or> (\<exists>d. x = Take d)" for c x p
    using that work_step.flush work_step.take by metis
  show ?thesis
  proof (cases "progs s ChBlock")
    case Nil
    note z = in_phase_idle[OF ph Nil]
    show ?thesis
    proof (cases "\<exists>c. progs s c \<noteq> []")
      case True
      then obtain c x p where c: "progs s c = x # p" by (metis list.exhaust)
      then have "c \<noteq> ChBlock" using Nil by auto
      moreover from this have "Signal \<notin> set (progs s c)" using no_signals z by blast
      ultimately have "x = Flush \<or> (\<exists>d. x = Take d)" using sh[of c] c by (auto simp: other_shape_def)
      then show ?thesis by (rule local[OF c])
    next
      case False
      then obtain i where "outs s i \<noteq> []" using busy by (auto simp: at_rest_def)
      then obtain c d r where "outs s i = (c, d) # r" by (metis list.exhaust prod.exhaust)
      then show ?thesis using False work_step.deliver by blast
    qed
  next
    case (Cons x p)
    then have b: "block_prog A k f ds = x # p" using ph by (simp add: in_phase_def)
    show ?thesis
    proof (cases x)
      case (Ask c)
      then obtain A' where A: "A = c # A'" using b block_prog_simps(2) by metis
      then have c: "c \<noteq> ChBlock" "Signal \<notin> set (progs s c)" using ph by (auto simp: in_phase_def)
      show ?thesis
      proof (cases "progs s c")
        case Nil
        then show ?thesis using work_step.ask Cons Ask by blast
      next
        case c': (Cons y q)
        then have "y = Flush \<or> (\<exists>d. y = Take d)" using sh[OF c(1)] c(2) by (auto simp: other_shape_def)
        then show ?thesis by (rule local[OF c'])
      qed
    next
      case Await
      then have "A = []" "0 < k" using b block_prog_simps(3) by (metis zero_less_Suc)+
      then have "signals s \<noteq> 0" using ph by (simp add: in_phase_def)
      then obtain c where c: "c \<noteq> ChBlock" "Signal \<in> set (progs s c)" by (auto simp: signals_def filter_empty_conv)
      then have "progs s c = [Signal] \<or> progs s c = [Flush, Signal]" using sh[of c] by (auto simp: other_shape_def)
      then show ?thesis using work_step.signal[of s ChBlock p c "[]" bsize] local[of c Flush] Cons Await by blast
    next
      case Signal
      then show ?thesis using b block_prog_simps(6) by metis
    qed (use Cons local in auto)
  qed
qed

text \<open>Every step of work uses up some of it.\<close>

definition instr_cost :: "instr \<Rightarrow> nat" where
  "instr_cost x = (case x of Ask c \<Rightarrow> 4 | _ \<Rightarrow> 1)"

definition prog_cost :: "instr list \<Rightarrow> nat" where
  "prog_cost p = sum_list (map instr_cost p)"

definition work_left :: "nat \<Rightarrow> system \<Rightarrow> nat" where
  "work_left n s = 30 * (\<Sum>i<n. length (outs s i)) + (\<Sum>c \<in> set (ChBlock # others). prog_cost (progs s c))"

lemma sum_upd:
  assumes "finite C" and "c \<in> C"
  shows "(\<Sum>x\<in>C. f ((g(c := v)) x)) + f (g c) = (\<Sum>x\<in>C. f (g x)) + (f v :: nat)"
proof -
  have "(\<Sum>x\<in>C - {c}. f ((g(c := v)) x)) = (\<Sum>x\<in>C - {c}. f (g x))" by (intro sum.cong) auto
  then show ?thesis using assms by (simp add: sum.remove[of C c])
qed

lemma all_chans: "finite (set (ChBlock # others))" "c \<in> set (ChBlock # others)"
  by simp_all

lemma cost_simps [simp]: "prog_cost [] = 0" "prog_cost (x # p) = instr_cost x + prog_cost p"
  by (simp_all add: prog_cost_def)

lemma receive_cost: "prog_cost (receive bsize c (added d) s) < 30"
    "c \<noteq> ChBlock \<Longrightarrow> prog_cost (receive bsize c (control ChanType_Commit) s) \<le> 2"
  by (simp_all add: receive_def message_program_def commit_program_def added_def control_def others_def prog_cost_def
      instr_cost_def eval_nat_numeral)

lemma work_uses:
  assumes inv: "sys_inv s" and step: "work_step bsize s s'" and n: "\<forall>i \<ge> n. outs s i = []"
  shows "work_left n s' < work_left n s \<and> (\<forall>i \<ge> n. outs s' i = [])"
  using step
proof cases
  case (deliver i c d r)
  then have i: "i < n" using n by (metis list.distinct(1) not_le)
  then have "\<forall>j \<ge> n. outs s' j = []" using n deliver(1) by simp
  moreover have "(\<Sum>j<n. length (((outs s)(i := r)) j)) + length (outs s i) = (\<Sum>j<n. length (outs s j)) + length r"
    using sum_upd[of "{..<n}" i length "outs s" r] i by simp
  then have "Suc (\<Sum>j<n. length (((outs s)(i := r)) j)) = (\<Sum>j<n. length (outs s j))" using deliver(2) by simp
  moreover have "(\<Sum>x \<in> set (ChBlock # others). prog_cost (((progs s)(c := receive bsize c (added d) s)) x)) + prog_cost (progs s c) =
      (\<Sum>x \<in> set (ChBlock # others). prog_cost (progs s x)) + prog_cost (receive bsize c (added d) s)"
    by (rule sum_upd[OF all_chans])
  ultimately show ?thesis
    unfolding work_left_def using receive_cost(1)[of bsize c d s] deliver(1,3) by simp
next
  case (ask b c p)
  have cb: "b = ChBlock" "c \<noteq> ChBlock" using ask_shape[OF inv ask(2)] by simp_all
  let ?g = "(progs s)(b := p)" and ?r = "receive bsize c (control ChanType_Commit) s"
  have "(\<Sum>x \<in> set (ChBlock # others). prog_cost ((?g(c := ?r)) x)) + prog_cost (?g c) =
      (\<Sum>x \<in> set (ChBlock # others). prog_cost (?g x)) + prog_cost ?r"
    "(\<Sum>x \<in> set (ChBlock # others). prog_cost (?g x)) + prog_cost (progs s b) =
      (\<Sum>x \<in> set (ChBlock # others). prog_cost (progs s x)) + prog_cost p"
    by (rule sum_upd[OF all_chans])+
  then show ?thesis
    unfolding work_left_def using n ask cb receive_cost(2)[OF cb(2), of bsize s] by (simp add: instr_cost_def)
next
  case (signal b p c q)
  then have bc: "c \<noteq> b" by auto
  let ?g = "(progs s)(b := p)"
  have "(\<Sum>x \<in> set (ChBlock # others). prog_cost ((?g(c := q)) x)) + prog_cost (?g c) =
      (\<Sum>x \<in> set (ChBlock # others). prog_cost (?g x)) + prog_cost q"
    "(\<Sum>x \<in> set (ChBlock # others). prog_cost (?g x)) + prog_cost (progs s b) =
      (\<Sum>x \<in> set (ChBlock # others). prog_cost (progs s x)) + prog_cost p"
    by (rule sum_upd[OF all_chans])+
  then show ?thesis unfolding work_left_def using n signal bc by (simp add: instr_cost_def)
next
  case (flush c p)
  then show ?thesis
    using n sum_upd[OF all_chans, of prog_cost "progs s" c p] by (simp add: work_left_def instr_cost_def)
next
  case (take c d p)
  then show ?thesis
    using n sum_upd[OF all_chans, of prog_cost "progs s" c p] by (simp add: work_left_def instr_cost_def)
qed

lemma work_steps_reach: "(work_step bsize)\<^sup>*\<^sup>* s s' \<Longrightarrow> sys_reach bsize os s \<Longrightarrow> sys_reach bsize os s'"
  by (induction rule: rtranclp_induct) (auto intro: sys_reach.work)

lemma outs_finite: "sys_reach bsize os s \<Longrightarrow> \<forall>i \<ge> n. os i = [] \<Longrightarrow> \<forall>i \<ge> n. outs s i = []"
  using reach_scripts by (metis append_is_Nil_conv)

lemma comes_to_rest:
  assumes "sys_reach bsize os s" and os: "\<forall>i \<ge> n. os i = []"
  shows "\<exists>s'. (work_step bsize)\<^sup>*\<^sup>* s s' \<and> at_rest s'"
  using assms(1)
proof (induction "work_left n s" arbitrary: s rule: less_induct)
  case (less t)
  note inv = reach_inv[OF less.prems]
  show ?case
  proof (cases "at_rest t")
    case False
    from inv_progress[OF inv this] obtain u where u: "work_step bsize t u" by blast
    have "work_left n u < work_left n t" using work_uses[OF inv u outs_finite[OF less.prems os]] by simp
    from less.hyps[OF this sys_reach.work[OF less.prems u]] u show ?thesis by (meson converse_rtranclp_into_rtranclp)
  qed blast
qed

section \<open>The forced commit\<close>

definition draining :: "delivery list \<Rightarrow> system \<Rightarrow> bool" where
  "draining l s \<longleftrightarrow> sent s = l \<and> (\<forall>i. outs s i = []) \<and> takes_of (progs s ChBlock) = [] \<and>
     (collected s ChBlock = [] \<or> Flush \<in> set (progs s ChBlock))"

text \<open>The miners have sent everything, and the indexer of blocks is ready for the next message: so it is when
  \<open>StopBulkChannel\<close> has told every miner to stop, which a miner takes only between two blocks, and its commit is received.\<close>

definition miners_done :: "system \<Rightarrow> bool" where
  "miners_done s \<longleftrightarrow> (\<forall>i. outs s i = []) \<and> progs s ChBlock = []"

lemma rest_done: "at_rest s \<Longrightarrow> miners_done s"
  by (simp add: at_rest_def miners_done_def)

lemma draining_start: "miners_done s \<Longrightarrow> draining (sent s) (commit_request bsize s)"
proof -
  assume r: "miners_done s"
  have "collected s ChBlock = [] \<or> Flush \<in> set (receive bsize ChBlock (control ChanType_Commit) s)"
    by (simp add: receive_def message_program_def commit_program_def control_def)
  then show ?thesis using r by (simp add: draining_def miners_done_def commit_request_def receive_takes)
qed

lemma draining_step: "sys_inv s \<Longrightarrow> draining l s \<Longrightarrow> work_step bsize s s' \<Longrightarrow> draining l s'"
  by (erule work_step.cases) (auto simp: draining_def dest: ask_shape split: if_splits)

lemma draining_steps:
  assumes "(work_step bsize)\<^sup>*\<^sup>* s s'" and "sys_reach bsize os s" and "draining l s"
  shows "draining l s'"
  using assms(1)
proof (induction rule: rtranclp_induct)
  case (step t u)
  have "sys_inv t" using reach_inv[OF work_steps_reach[OF step.hyps(1) assms(2)]] .
  then show ?case using step draining_step by blast
qed (rule assms(3))

text \<open>When all is delivered and the indexer of blocks is done with the commit request, nothing is left uncommitted.\<close>

lemma forced_commit:
  assumes "sys_reach bsize os s" and "miners_done s" and "\<forall>i. os i \<noteq> [] \<longrightarrow> fst (last (os i)) = ChBlock"
    and "(work_step bsize)\<^sup>*\<^sup>* (commit_request bsize s) s'" and "progs s' ChBlock = []"
  shows "(\<forall>i. sent_by i (sent s) = os i) \<and>
    (\<forall>c. committed s' c = arrived (sent s) c \<and> collected s' c = [] \<and> takes_of (progs s' c) = [])"
proof -
  have r0: "sys_reach bsize os (commit_request bsize s)"
    using sys_reach.request[OF assms(1)] assms(2) by (simp add: miners_done_def)
  have d: "draining (sent s) s'" by (rule draining_steps[OF assms(4) r0 draining_start[OF assms(2)]])
  from reach_inv[OF work_steps_reach[OF assms(4) r0]] have du: "durable s'"
    and fl: "\<And>c. committed s' c @ collected s' c @ takes_of (progs s' c) = arrived (sent s') c" by (auto elim: sys_invE)
  have cb: "collected s' ChBlock = []" "takes_of (progs s' ChBlock) = []" using d assms(5) by (simp_all add: draining_def)
  have fl: "committed s' c @ collected s' c @ takes_of (progs s' c) = arrived (sent s) c" for c
    using fl[of c] d by (simp add: draining_def)
  have os: "sent_by i (sent s) = os i" for i using reach_scripts[OF assms(1), of i] assms(2) by (simp add: miners_done_def)
  have "collected s' c = [] \<and> takes_of (progs s' c) = []" for c
  proof (cases "sent s" rule: rev_cases)
    case Nil
    then show ?thesis using fl[of c] by simp
  next
    case (snoc us x)
    obtain i k dd where x: "x = (i, k, dd)" by (cases x)
    have "os i = sent_by i us @ [(k, dd)]" using os[of i] snoc x by simp
    then have k: "k = ChBlock" using assms(3)[rule_format, of i] by simp
    have "length (committed s' ChBlock) = Suc (length (arrived us ChBlock))" using fl[of ChBlock] cb snoc x k by simp
    moreover have "sent s' = us @ x # []" using d snoc by (simp add: draining_def)
    ultimately have "before (sent s') (length (committed s' ChBlock)) us" using x k unfolding before_def by fastforce
    then have le: "length (arrived us c) \<le> length (committed s' c)" using du by (simp add: durable_def)
    show ?thesis
    proof (cases "c = ChBlock")
      case False
      then have eq: "committed s' c @ collected s' c @ takes_of (progs s' c) = arrived us c" using fl[of c] snoc x k by simp
      have "length (committed s' c) + length (collected s' c @ takes_of (progs s' c)) = length (arrived us c)"
        using arg_cong[OF eq, of length] by simp
      then have "length (collected s' c @ takes_of (progs s' c)) = 0" using le by linarith
      then show ?thesis by simp
    qed (simp add: cb)
  qed
  then show ?thesis using fl os by simp
qed

end
