(* ===== verification/Check_System.thy ===== *)
theory Check_System
  imports Channels Run_Properties
begin

text \<open>
  A whole check as a concurrent system: the scripts of the miners come from their runs, the order of commits
  makes the index of blocks trustworthy, the goroutines always finish, and what is committed in the end are the missing blocks.
\<close>

section \<open>The miners of a check\<close>

text \<open>The documents that a goroutine sends to the indexers, from its log.\<close>

definition outbox :: "action list \<Rightarrow> (chan \<times> doc) list" where
  "outbox l = List.map_filter (\<lambda>a. case a of SendB c I \<Rightarrow>
     (if ChanInfo_Type I = ChanType_Add then map_option (Pair c) (ChanInfo_Doc I) else None) | _ \<Rightarrow> None) l"

lemma outbox_simps [simp]: "outbox [] = []" "outbox (l @ l') = outbox l @ outbox l'" "outbox [SendB c (added d)] = [(c, d)]"
  by (simp_all add: outbox_def List.map_filter_def added_def)

lemma sends_outbox: "sends c l = map snd (filter (\<lambda>x. fst x = c) (outbox l))"
proof (induction l)
  case (Cons a l)
  have "outbox (a # l) = outbox [a] @ outbox l" "sends c (a # l) = sends c [a] @ sends c l"
    by (metis append_Cons append_Nil outbox_simps(2) sends_append)+
  moreover have "sends c [a] = map snd (filter (\<lambda>x. fst x = c) (outbox [a]))"
  proof (cases a)
    case (SendB c' I)
    then show ?thesis
      by (cases "ChanInfo_Doc I") (simp_all add: sends_def sent_doc_def outbox_def List.map_filter_def)
  qed (simp_all add: sends_def sent_doc_def outbox_def List.map_filter_def)
  ultimately show ?case using Cons by simp
qed (simp add: sends_def outbox_def List.map_filter_def)

text \<open>The transactions of a block document are sent before it.\<close>

definition with_transactions :: "(chan \<times> doc) list \<Rightarrow> bool" where
  "with_transactions l \<longleftrightarrow> (\<forall>xs b ys. l = xs @ (ChBlock, DBlock b) # ys \<longrightarrow>
     (\<exists>ds. of_nat (length ds) = EsBlock_TxCount b \<and> map EsTx_TxIdx ds = map of_nat [0..<length ds] \<and>
       (\<forall>d \<in> set ds. (ChTx, DTx d) \<in> set xs \<and> EsTx_BlockNo d = EsBlock_BlockNo b)))"

lemma with_transactions_append:
  assumes "with_transactions l" and "with_transactions k"
  shows "with_transactions (l @ k)"
  unfolding with_transactions_def
proof (intro allI impI)
  fix xs b ys assume "l @ k = xs @ (ChBlock, DBlock b) # ys"
  then consider us where "l = xs @ (ChBlock, DBlock b) # us" | us where "xs = l @ us" "k = us @ (ChBlock, DBlock b) # ys"
    by (auto simp: append_eq_append_conv2 append_eq_Cons_conv)
  then show "\<exists>ds. of_nat (length ds) = EsBlock_TxCount b \<and> map EsTx_TxIdx ds = map of_nat [0..<length ds] \<and>
      (\<forall>d \<in> set ds. (ChTx, DTx d) \<in> set xs \<and> EsTx_BlockNo d = EsBlock_BlockNo b)"
  proof cases
    case 1
    then show ?thesis using assms(1) unfolding with_transactions_def by blast
  next
    case 2
    from assms(2)[unfolded with_transactions_def, rule_format, OF 2(2)] 2(1) show ?thesis by auto
  qed
qed

lemma mine_block_outbox:
  assumes bulk: "is_bulk info" and run: "mine_block E info s = Some (Ret (), s')"
  shows "\<exists>l b. acts s' = acts s @ l \<and> with_transactions (outbox l) \<and> last (outbox l) = (ChBlock, DBlock b) \<and> outbox l \<noteq> []"
proof -
  obtain block s1 Body k p blockDoc s2 where "get_block_retry E (PutUint64 (BlockInfo_Height info)) s = Some (Ret block, s1)"
    and "getPeerId E k s1 = Some (Ret p, s2)" and bd: "Block_Body block = Some Body" and c: "ConvBlock E block p = Ret blockDoc"
    and i: "index_block E info blockDoc (BlockBody_Txs Body) s2 = Some (Ret (), s')" and a: "acts s2 = acts s"
    by (rule mine_block_steps[OF run])
  have cnt: "EsBlock_TxCount blockDoc = of_nat (length (BlockBody_Txs Body))"
    using c bd by (auto simp: ConvBlock_def obnd_def split: option.splits outcome.splits)
  obtain s3 where t: "each_from 0 (\<lambda>i tx. MinerTx E (of_nat i) info blockDoc tx) (BlockBody_Txs Body) s2 = Some (Ret (), s3)"
    using i by (auto simp: index_block_def elim: sq_RetE)
  obtain ds l where l: "acts s' = acts s2 @ l @ [SendB ChBlock (added (DBlock blockDoc))]" "sends ChTx l = map DTx ds"
    "sends ChBlock l = []" "map Doc_Id ds = map (base58 E \<circ> Tx_Hash) (BlockBody_Txs Body)"
    "map EsTx_TxIdx ds = map of_nat [0..<length (BlockBody_Txs Body)]" "\<forall>d \<in> set ds. EsTx_BlockNo d = EsBlock_BlockNo blockDoc"
    using index_block_bulk[OF mine_txs_bodies[OF t] bulk i] by (elim exE conjE)
  have len: "length ds = length (BlockBody_Txs Body)" using l(4) by (metis length_map)
  have tx: "(ChTx, DTx d) \<in> set (outbox l)" if "d \<in> set ds" for d
  proof -
    have "DTx d \<in> set (sends ChTx l)" using l(2) that by simp
    then show ?thesis unfolding sends_outbox by auto
  qed
  have nob: "(ChBlock, x) \<notin> set (outbox l)" for x using l(3) unfolding sends_outbox by (force simp: filter_empty_conv)
  have "with_transactions (outbox l @ [(ChBlock, DBlock blockDoc)])"
    unfolding with_transactions_def
  proof (intro allI impI)
    fix xs b ys assume e: "outbox l @ [(ChBlock, DBlock blockDoc)] = xs @ (ChBlock, DBlock b) # ys"
    have "ys = []"
    proof (rule ccontr)
      assume "ys \<noteq> []"
      then have "outbox l = xs @ (ChBlock, DBlock b) # butlast ys"
        using arg_cong[OF e, of butlast] by (simp add: butlast_append)
      then show False using nob[of "DBlock b"] by simp
    qed
    with e have "xs = outbox l" "b = blockDoc" by simp_all
    then show "\<exists>ds. of_nat (length ds) = EsBlock_TxCount b \<and> map EsTx_TxIdx ds = map of_nat [0..<length ds] \<and>
        (\<forall>d \<in> set ds. (ChTx, DTx d) \<in> set xs \<and> EsTx_BlockNo d = EsBlock_BlockNo b)"
      using len cnt l(5,6) tx by (intro exI[of _ ds]) simp
  qed
  then show ?thesis using l(1) a by (intro exI[of _ "l @ [SendB ChBlock (added (DBlock blockDoc))]"] exI[of _ blockDoc]) simp
qed

lemma Miner_outbox:
  assumes "\<forall>info \<in> set infos. is_bulk info" and "Miner E (infos @ [stop_miner]) s = Some (Ret (), s')"
  shows "\<exists>l. acts s' = acts s @ l \<and> with_transactions (outbox l) \<and> (outbox l \<noteq> [] \<longrightarrow> fst (last (outbox l)) = ChBlock)"
  using assms
proof (induction infos arbitrary: s)
  case Nil
  then show ?case by (intro exI[of _ "[]"]) (simp add: stop_miner_def with_transactions_def)
next
  case (Cons info infos)
  then have "is_bulk info" by simp
  with Cons.prems(2) have "sq (mine_block E info) (Miner E (infos @ [stop_miner])) s = Some (Ret (), s')" by simp
  then obtain x s1 where "mine_block E info s = Some (Ret x, s1)" and m: "Miner E (infos @ [stop_miner]) s1 = Some (Ret (), s')"
    by (rule sq_RetE)
  then have r: "mine_block E info s = Some (Ret (), s1)" by simp
  from mine_block_outbox[OF \<open>is_bulk info\<close> r] obtain l1 b where 1: "acts s1 = acts s @ l1" "with_transactions (outbox l1)"
    "last (outbox l1) = (ChBlock, DBlock b)" by (elim exE conjE)
  have "\<forall>info \<in> set infos. is_bulk info" using Cons.prems(1) by simp
  from Cons.IH[OF this m] obtain l2 where 2: "acts s' = acts s1 @ l2" "with_transactions (outbox l2)"
    "outbox l2 \<noteq> [] \<longrightarrow> fst (last (outbox l2)) = ChBlock" by (elim exE conjE)
  show ?case
    using 1 2 with_transactions_append[OF 1(2) 2(2)] by (intro exI[of _ "l1 @ l2"]) (auto simp: last_append)
qed

text \<open>What the indexers receive is what the miners send.\<close>

lemma arrived_miners:
  "\<forall>x \<in> set l. fst x < n \<Longrightarrow> mset (arrived l c) = (\<Sum>i<n. mset (map snd (filter (\<lambda>x. fst x = c) (sent_by i l))))"
proof (induction l)
  case (Cons x l)
  obtain j c' d where x: "x = (j, c', d)" by (cases x)
  let ?f = "\<lambda>i. mset (map snd (filter (\<lambda>x. fst x = c) (sent_by i l)))"
  have IH: "mset (arrived l c) = (\<Sum>i<n. ?f i)" and j: "j < n" using Cons x by simp_all
  have "(\<Sum>i<n. mset (map snd (filter (\<lambda>x. fst x = c) (sent_by i (x # l))))) =
      (\<Sum>i<n. (if i = j then (if c' = c then {#d#} else {#}) else {#}) + ?f i)"
    using x by (intro sum.cong) auto
  also have "\<dots> = (if c' = c then {#d#} else {#}) + (\<Sum>i<n. ?f i)" using j by (simp add: sum.distrib)
  finally show ?case using IH x by (simp add: arrived_def)
qed simp

definition scripts :: "nat \<Rightarrow> (nat \<Rightarrow> action list) \<Rightarrow> nat \<Rightarrow> (chan \<times> doc) list" where
  "scripts n logs i = (if i < n then outbox (logs i) else [])"

lemma scripts_heights:
  assumes "\<forall>i. sent_by i l = scripts n logs i"
  shows "mset (arrived l c) = (\<Sum>i<n. mset (sends c (logs i)))"
proof -
  have "fst x < n" if "x \<in> set l" for x
  proof (rule ccontr)
    assume "\<not> fst x < n"
    then have "sent_by (fst x) l = []" using assms by (simp add: scripts_def)
    then show False using that by (auto simp: sent_by_def filter_empty_conv)
  qed
  then show ?thesis using arrived_miners[of l n c] assms by (simp add: scripts_def sends_outbox)
qed

section \<open>Properties\<close>

text \<open>C10: whatever the interleaving, a document that the indexer of blocks has committed was sent by a miner all of whose
  earlier documents are committed, each by its own indexer.\<close>

theorem block_after_its_documents:
  assumes "sys_reach bsize os s" and "d \<in> set (committed s ChBlock)"
  shows "\<exists>i xs ys. os i = xs @ (ChBlock, d) # ys \<and> (\<forall>(c, d') \<in> set xs. d' \<in> set (committed s c))"
  using assms by (rule committed_before)

text \<open>With finitely many miners the forced commit can be reached.\<close>

lemma comes_to_end:
  assumes "\<forall>i \<ge> n. os i = []"
  obtains t t' where "sys_reach bsize os t" "miners_done t" "(work_step bsize)\<^sup>*\<^sup>* (commit_request bsize t) t'" "progs t' ChBlock = []"
    "sys_reach bsize os t'"
proof -
  from comes_to_rest[OF sys_reach.start assms, of bsize] obtain t where t: "(work_step bsize)\<^sup>*\<^sup>* (start_system os) t" "at_rest t"
    by (elim exE conjE)
  have r: "sys_reach bsize os t" by (rule work_steps_reach[OF t(1) sys_reach.start])
  have q: "sys_reach bsize os (commit_request bsize t)" using sys_reach.request[OF r] t(2) by (simp add: at_rest_def)
  from comes_to_rest[OF q assms] obtain t' where "(work_step bsize)\<^sup>*\<^sup>* (commit_request bsize t) t'" "at_rest t'"
    by (elim exE conjE)
  with that[OF r rest_done[OF t(2)]] work_steps_reach[OF _ q] show thesis by (auto simp: at_rest_def)
qed

definition two_docs :: "nat \<Rightarrow> (chan \<times> doc) list" where
  "two_docs i = (if i = 0 then [(ChContract, DBlock (block_doc ''x'' 1)), (ChBlock, DBlock (block_doc ''b'' 1))] else [])"

theorem block_after_its_documents_witness:
  "\<exists>s i xs ys. sys_reach 10 two_docs s \<and> committed s ChBlock = [DBlock (block_doc ''b'' 1)] \<and>
    two_docs i = xs @ (ChBlock, DBlock (block_doc ''b'' 1)) # ys \<and> (\<forall>(c, d') \<in> set xs. d' \<in> set (committed s c))"
proof -
  have "\<forall>i \<ge> 1. two_docs i = []" by (simp add: two_docs_def)
  then obtain t t' where t: "sys_reach 10 two_docs t" "miners_done t" "(work_step 10)\<^sup>*\<^sup>* (commit_request 10 t) t'" "progs t' ChBlock = []"
    "sys_reach 10 two_docs t'" by (rule comes_to_end)
  from forced_commit[OF t(1,2) _ t(3,4)] have f: "\<And>i. sent_by i (sent t) = two_docs i" "committed t' ChBlock = arrived (sent t) ChBlock"
    by (simp_all add: two_docs_def)
  have "mset (arrived (sent t) ChBlock) = (\<Sum>i<1. mset (map snd (filter (\<lambda>x. fst x = ChBlock) (sent_by i (sent t)))))"
  proof (rule arrived_miners, rule ballI, rule ccontr)
    fix x assume x: "x \<in> set (sent t)" "\<not> fst x < 1"
    then have "sent_by (fst x) (sent t) = []" using f(1) by (simp add: two_docs_def)
    with x(1) show False by (auto simp: sent_by_def filter_empty_conv)
  qed
  then have c: "committed t' ChBlock = [DBlock (block_doc ''b'' 1)]" using f by (simp add: two_docs_def)
  then show ?thesis using block_after_its_documents[OF t(5), of "DBlock (block_doc ''b'' 1)"] t(5) by auto
qed

text \<open>C2: however the goroutines of a check interleave, a block document is committed only when the documents of all
  its transactions are: an index that holds a block holds its transactions.\<close>

theorem committed_block_complete:
  assumes "\<forall>i < n. acts (m i) = [] \<and> (\<forall>info \<in> set (infos i). is_bulk info) \<and>
      Miner E (infos i @ [stop_miner]) (m i) = Some (Ret (), m' i)"
    and "sys_reach bsize (scripts n (\<lambda>i. acts (m' i))) s" and "DBlock b \<in> set (committed s ChBlock)"
  shows "\<exists>ds. of_nat (length ds) = EsBlock_TxCount b \<and> map EsTx_TxIdx ds = map of_nat [0..<length ds] \<and>
    (\<forall>d \<in> set ds. DTx d \<in> set (committed s ChTx) \<and> EsTx_BlockNo d = EsBlock_BlockNo b)"
proof -
  obtain i xs ys where x: "scripts n (\<lambda>i. acts (m' i)) i = xs @ (ChBlock, DBlock b) # ys"
    and old: "\<forall>(c, d') \<in> set xs. d' \<in> set (committed s c)" using committed_before[OF assms(2,3)] by (elim exE conjE)
  have i: "i < n" using x by (auto simp: scripts_def split: if_splits)
  then have "\<forall>info \<in> set (infos i). is_bulk info" "Miner E (infos i @ [stop_miner]) (m i) = Some (Ret (), m' i)" "acts (m i) = []"
    using assms(1) by auto
  from Miner_outbox[OF this(1,2)] this(3) have "with_transactions (outbox (acts (m' i)))" by auto
  moreover have "outbox (acts (m' i)) = xs @ (ChBlock, DBlock b) # ys" using x i by (simp add: scripts_def)
  ultimately obtain ds where "of_nat (length ds) = EsBlock_TxCount b" "map EsTx_TxIdx ds = map of_nat [0..<length ds]"
    "\<forall>d \<in> set ds. (ChTx, DTx d) \<in> set xs \<and> EsTx_BlockNo d = EsBlock_BlockNo b" unfolding with_transactions_def by blast
  then show ?thesis using old by (intro exI[of _ ds]) auto
qed

theorem committed_block_complete_witness:
  "\<exists>s b ds m'. Miner mem_env ([bulk_block 0] @ [stop_miner]) (sample_indexer (empty_mem\<lparr>m_chain := [sample_block 0 [sample_tx]]\<rparr>)) =
      Some (Ret (), m') \<and> sys_reach 10 (scripts 1 (\<lambda>_. acts m')) s \<and> DBlock b \<in> set (committed s ChBlock) \<and>
    of_nat (length ds) = EsBlock_TxCount b \<and> (\<forall>d \<in> set ds. DTx d \<in> set (committed s ChTx) \<and> EsTx_BlockNo d = EsBlock_BlockNo b)"
proof -
  let ?s = "sample_indexer (empty_mem\<lparr>m_chain := [sample_block 0 [sample_tx]]\<rparr>)"
  obtain m' where r: "mine_block mem_env (bulk_block 0) ?s = Some (Ret (), m')" using sample_mined by blast
  then have m: "Miner mem_env ([bulk_block 0] @ [stop_miner]) ?s = Some (Ret (), m')"
    by (simp add: sq_Ret[where m = "mine_block mem_env (bulk_block 0)"]) (simp add: bulk_block_def stop_miner_def)
  have bulk: "is_bulk (bulk_block 0)" by (simp add: bulk_block_def)
  from mine_block_outbox[OF bulk r] obtain l b where l: "acts m' = l" "last (outbox l) = (ChBlock, DBlock b)" "outbox l \<noteq> []" by auto
  have "\<forall>i \<ge> 1. scripts 1 (\<lambda>_. acts m') i = []" by (simp add: scripts_def)
  then obtain t t' where t: "sys_reach 10 (scripts 1 (\<lambda>_. acts m')) t" "miners_done t"
    "(work_step 10)\<^sup>*\<^sup>* (commit_request 10 t) t'" "progs t' ChBlock = []" "sys_reach 10 (scripts 1 (\<lambda>_. acts m')) t'" by (rule comes_to_end)
  from forced_commit[OF t(1,2) _ t(3,4)] l have f: "sent_by 0 (sent t) = outbox l" "committed t' ChBlock = arrived (sent t) ChBlock"
    by (simp_all add: scripts_def)
  have "(ChBlock, DBlock b) \<in> set (sent_by 0 (sent t))" unfolding f(1) using l(2,3) by (metis last_in_set)
  then have b: "DBlock b \<in> set (committed t' ChBlock)" unfolding f(2) by (rule arrived_sent_by(1)[OF arrived_sent_by(2)])
  have "\<forall>i < 1. acts ?s = [] \<and> (\<forall>info \<in> set [bulk_block 0]. is_bulk info) \<and> Miner mem_env ([bulk_block 0] @ [stop_miner]) ?s = Some (Ret (), m')"
    using m bulk by simp
  from committed_block_complete[OF this t(5) b] m t(5) b show ?thesis by blast
qed

text \<open>C11: with finitely many miners the goroutines never block each other: from every state that can be reached, the work
  goes on until every document is delivered and every indexer is ready for the next message, and it cannot go on forever.\<close>

theorem goroutines_finish:
  assumes "sys_reach bsize os s" and "\<forall>i \<ge> n. os i = []"
  shows "(\<not> at_rest s \<longrightarrow> (\<exists>s'. work_step bsize s s')) \<and>
    (\<forall>s'. work_step bsize s s' \<longrightarrow> work_left n s' < work_left n s) \<and>
    (\<exists>s'. (work_step bsize)\<^sup>*\<^sup>* s s' \<and> at_rest s')"
  using inv_progress[OF reach_inv[OF assms(1)]] work_uses[OF reach_inv[OF assms(1)] _ outs_finite[OF assms]]
    comes_to_rest[OF assms] by blast

theorem goroutines_finish_witness:
  "\<exists>s'. (work_step 10)\<^sup>*\<^sup>* (start_system two_docs) s' \<and> at_rest s'"
proof -
  have "\<forall>i \<ge> 1. two_docs i = []" by (simp add: two_docs_def)
  from goroutines_finish[OF sys_reach.start this] show ?thesis by blast
qed



section \<open>A commit that fails\<close>

text \<open>C37: when a commit of the block documents fails, the indexer of blocks goes on, after the requests to the others, to
  ask itself for a commit (as part of \<open>StopBulkChannel\<close>); from there it never gets further, whatever the other goroutines do.\<close>

theorem failed_commit_blocks:
  assumes "bi_total st \<noteq> 0" and "\<forall>w. fst (es_Bulk E (bulk_index (bi_bulk st)) (bulk_requests (bi_bulk st)) w) = Some e"
  shows "(\<exists>st' t. commitBulk E True sync st s = Some (Ret st', t) \<and>
      acts t = acts s @ map (\<lambda>c. SendB c (control ChanType_Commit)) others @ replicate 5 RecvSynDone @ closing (minerNum s) \<and>
      SendB ChBlock (control ChanType_Commit) \<in> set (closing (minerNum s))) \<and>
    (\<forall>x p y. progs x ChBlock = Ask ChBlock # p \<and> (work_step bsize)\<^sup>*\<^sup>* x y \<longrightarrow>
      progs y ChBlock = Ask ChBlock # p \<and> committed y ChBlock = committed x ChBlock)"
proof
  obtain b w where b: "es_Bulk E (bulk_index (bi_bulk st)) (bulk_requests (bi_bulk st)) (world s) = (Some e, b, w)"
    using assms(2) by (metis prod.collapse)
  have e: "each (\<lambda>_. emit RecvSynDone) xs s1 = Some (Ret (), s1\<lparr>acts := acts s1 @ map (\<lambda>_. RecvSynDone) xs\<rparr>)"
    for xs :: "nat list" and s1 :: "'a Indexer" by (rule each_emit)
  have u: "[0..<5] = [0, 1, 2, 3, 4 :: nat]" by (simp add: upt_rec)
  show "\<exists>st' t. commitBulk E True sync st s = Some (Ret st', t) \<and>
      acts t = acts s @ map (\<lambda>c. SendB c (control ChanType_Commit)) others @ replicate 5 RecvSynDone @ closing (minerNum s) \<and>
      SendB ChBlock (control ChanType_Commit) \<in> set (closing (minerNum s))"
    using assms(1) b
    by (simp add: commitBulk_def Commit_def now_def bnd_assoc sq_Ret[OF each_emit] sq_Ret[OF e] sq_assoc others_def u
        sq_Ret[OF StopBulkChannel_run] eval_nat_numeral closing_def)
next
  show "\<forall>x p y. progs x ChBlock = Ask ChBlock # p \<and> (work_step bsize)\<^sup>*\<^sup>* x y \<longrightarrow>
      progs y ChBlock = Ask ChBlock # p \<and> committed y ChBlock = committed x ChBlock"
  proof (intro allI impI, elim conjE)
    fix x p y assume p: "progs x ChBlock = Ask ChBlock # p" and "(work_step bsize)\<^sup>*\<^sup>* x y"
    from this(2) show "progs y ChBlock = Ask ChBlock # p \<and> committed y ChBlock = committed x ChBlock"
    proof (induction rule: rtranclp_induct)
      case (step y z)
      from step.hyps(2) step.IH show ?case by cases (auto split: if_splits)
    qed (simp add: p)
  qed
qed

definition failing_env :: "mem env" where
  "failing_env = mem_env\<lparr>es_Bulk := \<lambda>i rs w. (Some (Err ''unavailable''), rs, w)\<rparr>"

theorem failed_commit_blocks_witness:
  "\<exists>st' t. commitBulk failing_env True True \<lparr>bi_bulk = \<lparr>bulk_index = ''p_block'', bulk_requests = [create_request (DBlock (block_doc ''a'' 1))]\<rparr>,
      bi_total = 1, bi_begin = 0, bi_return_flag = False\<rparr> (sample_indexer empty_mem) = Some (Ret st', t) \<and>
    acts t = map (\<lambda>c. SendB c (control ChanType_Commit)) others @ replicate 5 RecvSynDone @ closing 2"
proof -
  let ?st = "\<lparr>bi_bulk = \<lparr>bulk_index = ''p_block'', bulk_requests = [create_request (DBlock (block_doc ''a'' 1))]\<rparr>,
      bi_total = 1, bi_begin = 0, bi_return_flag = False\<rparr>"
  have "bi_total ?st \<noteq> 0" by simp
  moreover have "\<forall>w. fst (es_Bulk failing_env (bulk_index (bi_bulk ?st)) (bulk_requests (bi_bulk ?st)) w) = Some (Err ''unavailable'')"
    by (simp add: failing_env_def)
  ultimately show ?thesis using failed_commit_blocks[where s = "sample_indexer empty_mem" and sync = True] by fastforce
qed

text \<open>A commit of another indexer that fails. The indexer has answered before it looks at the error, and goes on to ask the
  indexer of blocks for a commit (as part of \<open>StopBulkChannel\<close>).\<close>

definition lose :: "chan \<Rightarrow> system \<Rightarrow> system" where
  "lose c s = s\<lparr>progs := (progs s)(c := tl (progs s c) @ [Ask ChBlock]), collected := (collected s)(c := [])\<rparr>"

definition lost_docs :: "nat \<Rightarrow> (chan \<times> doc) list" where
  "lost_docs i = (if i = 0 then [(ChTx, DBlock (block_doc ''t'' 1)), (ChBlock, DBlock (block_doc ''b'' 1))] else [])"

text \<open>Requests to idle indexers that have collected nothing are answered at once.\<close>

lemma asks_answered:
  assumes "progs s ChBlock = map Ask A @ p" and "distinct A" and "\<forall>c \<in> set A. c \<noteq> ChBlock \<and> progs s c = [] \<and> collected s c = []"
  shows "(work_step bsize)\<^sup>*\<^sup>* s (s\<lparr>progs := \<lambda>c. if c = ChBlock then p else if c \<in> set A then [Signal] else progs s c\<rparr>)"
  using assms
proof (induction A arbitrary: s)
  case Nil
  then have "s\<lparr>progs := \<lambda>c. if c = ChBlock then p else if c \<in> set [] then [Signal] else progs s c\<rparr> = s"
    by (simp add: fun_eq_iff)
  then show ?case by simp
next
  case (Cons c A)
  let ?s = "s\<lparr>progs := (progs s)(ChBlock := map Ask A @ p, c := [Signal])\<rparr>"
  have c: "c \<noteq> ChBlock" "progs s c = []" "collected s c = []" using Cons.prems(3) by simp_all
  have "receive bsize c (control ChanType_Commit) s = [Signal]" using receive_other(3)[OF c(1)] c(3) by simp
  then have 1: "work_step bsize s ?s" using work_step.ask[of s ChBlock c "map Ask A @ p" bsize] Cons.prems(1) c(2) by simp
  have "(work_step bsize)\<^sup>*\<^sup>* ?s (?s\<lparr>progs := \<lambda>x. if x = ChBlock then p else if x \<in> set A then [Signal] else progs ?s x\<rparr>)"
    using Cons.prems c by (intro Cons.IH) auto
  moreover have "(\<lambda>x. if x = ChBlock then p else if x \<in> set A then [Signal] else progs ?s x) =
      (\<lambda>x. if x = ChBlock then p else if x \<in> set (c # A) then [Signal] else progs s x)" using c by auto
  ultimately show ?case using 1 by (simp add: converse_rtranclp_into_rtranclp)
qed

lemma signals_taken:
  assumes "progs s ChBlock = replicate (length A) Await @ p" and "distinct A" and "\<forall>c \<in> set A. c \<noteq> ChBlock \<and> progs s c = Signal # f c"
  shows "(work_step bsize)\<^sup>*\<^sup>* s (s\<lparr>progs := \<lambda>c. if c = ChBlock then p else if c \<in> set A then f c else progs s c\<rparr>)"
  using assms
proof (induction A arbitrary: s)
  case Nil
  then have "s\<lparr>progs := \<lambda>c. if c = ChBlock then p else if c \<in> set [] then f c else progs s c\<rparr> = s"
    by (simp add: fun_eq_iff)
  then show ?case by simp
next
  case (Cons c A)
  let ?s = "s\<lparr>progs := (progs s)(ChBlock := replicate (length A) Await @ p, c := f c)\<rparr>"
  have c: "c \<noteq> ChBlock" "progs s c = Signal # f c" using Cons.prems(3) by simp_all
  have 1: "work_step bsize s ?s" using work_step.signal[of s ChBlock "replicate (length A) Await @ p" c "f c" bsize] Cons.prems(1) c by simp
  have "(work_step bsize)\<^sup>*\<^sup>* ?s (?s\<lparr>progs := \<lambda>x. if x = ChBlock then p else if x \<in> set A then f x else progs ?s x\<rparr>)"
    using Cons.prems c by (intro Cons.IH) auto
  moreover have "(\<lambda>x. if x = ChBlock then p else if x \<in> set A then f x else progs ?s x) =
      (\<lambda>x. if x = ChBlock then p else if x \<in> set (c # A) then f x else progs s x)" using c by auto
  ultimately show ?case using 1 by (simp add: converse_rtranclp_into_rtranclp)
qed

text \<open>C38: when a commit of the transactions fails, their indexer has already told the indexer of blocks that it is done,
  as after a success: in a state in which the blocks are to be committed and only transactions are collected besides, the
  blocks are committed and the transactions are not.\<close>

theorem failed_commit_unnoticed:
  assumes "bi_total st \<noteq> 0" and "\<forall>w. fst (es_Bulk E (bulk_index (bi_bulk st)) (bulk_requests (bi_bulk st)) w) = Some e"
    and "progs x ChBlock = commit_program True True (length (collected x ChBlock))" and "collected x ChBlock \<noteq> []"
    and "collected x ChTx \<noteq> []" and "\<forall>c. c \<noteq> ChBlock \<longrightarrow> progs x c = [] \<and> (c \<noteq> ChTx \<longrightarrow> collected x c = [])"
  shows "(\<exists>st' t. commitBulk E False True st s = Some (Ret st', t) \<and> acts t = acts s @ SendSynDone # closing (minerNum s)) \<and>
    (\<exists>x' y. work_step bsize x x' \<and> progs x' ChTx = commit_program False True (length (collected x ChTx)) \<and>
      (work_step bsize)\<^sup>*\<^sup>* (lose ChTx x') y \<and> committed y ChBlock = committed x ChBlock @ collected x ChBlock \<and>
      committed y ChTx = committed x ChTx \<and> progs y ChTx = [Ask ChBlock])"
proof
  obtain b w where "es_Bulk E (bulk_index (bi_bulk st)) (bulk_requests (bi_bulk st)) (world s) = (Some e, b, w)"
    using assms(2) by (metis prod.collapse)
  then show "\<exists>st' t. commitBulk E False True st s = Some (Ret st', t) \<and> acts t = acts s @ SendSynDone # closing (minerNum s)"
    using assms(1) by (simp add: commitBulk_def Commit_def now_def bnd_assoc sq_Ret[OF StopBulkChannel_run] sq_assoc)
next
  let ?rest = "[ChEvent, ChContract, ChTokenTransfer, ChAccTokens]"
  let ?tail = "replicate 5 Await @ [Flush]"
  let ?x = "x\<lparr>progs := (progs x)(ChBlock := map Ask ?rest @ ?tail, ChTx := [Flush, Signal])\<rparr>"
  have p: "progs x ChBlock = Ask ChTx # map Ask ?rest @ ?tail"
    using assms(3,4) by (simp add: commit_program_def others_def)
  have r: "receive bsize ChTx (control ChanType_Commit) x = [Flush, Signal]"
    using receive_other(3)[of ChTx bsize x] assms(5) by simp
  have 1: "work_step bsize x ?x" using work_step.ask[OF p, where bsize = bsize] assms(6) r by simp
  let ?l = "lose ChTx ?x"
  let ?m = "?l\<lparr>progs := \<lambda>c. if c = ChBlock then ?tail else if c \<in> set ?rest then [Signal] else progs ?l c\<rparr>"
  have 2: "(work_step bsize)\<^sup>*\<^sup>* ?l ?m" by (rule asks_answered) (use assms(6) in \<open>simp_all add: lose_def\<close>)
  let ?f = "\<lambda>c. if c = ChTx then [Ask ChBlock] else []"
  let ?y = "?m\<lparr>progs := \<lambda>c. if c = ChBlock then [Flush] else if c \<in> set others then ?f c else progs ?m c\<rparr>"
  have 3: "(work_step bsize)\<^sup>*\<^sup>* ?m ?y"
    by (rule signals_taken) (auto simp: lose_def others_def eval_nat_numeral)
  define y where "y = ?y"
  have run: "(work_step bsize)\<^sup>*\<^sup>* ?l y" unfolding y_def by (rule rtranclp_trans[OF 2 3])
  have y: "progs y ChBlock = [Flush]" "progs y ChTx = [Ask ChBlock]" "committed y = committed x" "collected y ChBlock = collected x ChBlock"
    by (simp_all add: y_def lose_def)
  have "\<exists>z. work_step bsize y z \<and> committed z ChBlock = committed x ChBlock @ collected x ChBlock \<and>
      committed z ChTx = committed x ChTx \<and> progs z ChTx = [Ask ChBlock]"
    by (rule exI, rule conjI, rule work_step.flush[OF y(1)]) (simp add: y)
  then obtain z where "work_step bsize y z" "committed z ChBlock = committed x ChBlock @ collected x ChBlock"
    "committed z ChTx = committed x ChTx" "progs z ChTx = [Ask ChBlock]" by (elim exE conjE)
  moreover from run this(1) have "(work_step bsize)\<^sup>*\<^sup>* ?l z" by (rule rtranclp.rtrancl_into_rtrancl)
  moreover have "progs ?x ChTx = commit_program False True (length (collected x ChTx))" using assms(5) by (simp add: commit_program_def)
  ultimately show "\<exists>x' y. work_step bsize x x' \<and> progs x' ChTx = commit_program False True (length (collected x ChTx)) \<and>
      (work_step bsize)\<^sup>*\<^sup>* (lose ChTx x') y \<and> committed y ChBlock = committed x ChBlock @ collected x ChBlock \<and>
      committed y ChTx = committed x ChTx \<and> progs y ChTx = [Ask ChBlock]"
    using 1 by blast
qed

text \<open>Such a state is reached when a transaction and then a block are sent and a commit is asked for.\<close>

lemma lost_docs_reach:
  obtains x where "sys_reach 10 lost_docs x" "progs x ChBlock = commit_program True True 1"
    "collected x = (\<lambda>_. [])(ChTx := [DBlock (block_doc ''t'' 1)], ChBlock := [DBlock (block_doc ''b'' 1)])"
    "\<forall>c. c \<noteq> ChBlock \<longrightarrow> progs x c = []" "committed x = (\<lambda>_. [])"
proof -
  let ?t = "DBlock (block_doc ''t'' 1)" and ?b = "DBlock (block_doc ''b'' 1)"
  let ?s0 = "start_system lost_docs"
  let ?s1 = "?s0\<lparr>outs := (outs ?s0)(0 := [(ChBlock, ?b)]), sent := [(0, ChTx, ?t)], progs := (progs ?s0)(ChTx := [Take ?t])\<rparr>"
  let ?s2 = "?s1\<lparr>progs := (progs ?s1)(ChTx := []), collected := (collected ?s1)(ChTx := [?t])\<rparr>"
  let ?s3 = "?s2\<lparr>outs := (outs ?s2)(0 := []), sent := [(0, ChTx, ?t), (0, ChBlock, ?b)], progs := (progs ?s2)(ChBlock := [Take ?b])\<rparr>"
  let ?s4 = "?s3\<lparr>progs := (progs ?s3)(ChBlock := []), collected := (collected ?s3)(ChBlock := [?b])\<rparr>"
  have r: "receive 10 c (added d) s = [Take d]" if "collected s c = []" for c d s
    using that by (simp add: receive_def message_program_def added_def)
  have 1: "work_step 10 ?s0 ?s1"
    using work_step.deliver[of ?s0 0 ChTx ?t "[(ChBlock, ?b)]" 10] by (simp add: start_system_def lost_docs_def r)
  have 2: "work_step 10 ?s1 ?s2" using work_step.take[of ?s1 ChTx ?t "[]" 10] by (simp add: start_system_def)
  have 3: "work_step 10 ?s2 ?s3"
    using work_step.deliver[of ?s2 0 ChBlock ?b "[]" 10] by (simp add: start_system_def r)
  have 4: "work_step 10 ?s3 ?s4" using work_step.take[of ?s3 ChBlock ?b "[]" 10] by (simp add: start_system_def)
  have "sys_reach 10 lost_docs ?s4" by (intro sys_reach.work[OF _ 4] sys_reach.work[OF _ 3] sys_reach.work[OF _ 2] sys_reach.work[OF _ 1] sys_reach.start)
  then have "sys_reach 10 lost_docs (commit_request 10 ?s4)" by (rule sys_reach.request) simp
  then show thesis
    by (rule that) (simp_all add: commit_request_def receive_def message_program_def control_def start_system_def fun_eq_iff)
qed

theorem failed_commit_unnoticed_witness:
  "\<exists>x x' y. sys_reach 10 lost_docs x \<and> work_step 10 x x' \<and> (work_step 10)\<^sup>*\<^sup>* (lose ChTx x') y \<and>
    committed y ChBlock = [DBlock (block_doc ''b'' 1)] \<and> committed y ChTx = []"
proof (rule lost_docs_reach)
  let ?st = "\<lparr>bi_bulk = \<lparr>bulk_index = ''p_tx'', bulk_requests = [create_request (DBlock (block_doc ''t'' 1))]\<rparr>,
      bi_total = 1, bi_begin = 0, bi_return_flag = False\<rparr>"
  fix x assume x: "sys_reach 10 lost_docs x" "progs x ChBlock = commit_program True True 1"
    "collected x = (\<lambda>_. [])(ChTx := [DBlock (block_doc ''t'' 1)], ChBlock := [DBlock (block_doc ''b'' 1)])"
    "\<forall>c. c \<noteq> ChBlock \<longrightarrow> progs x c = []" "committed x = (\<lambda>_. [])"
  have st: "bi_total ?st \<noteq> 0" "\<forall>w. fst (es_Bulk failing_env (bulk_index (bi_bulk ?st)) (bulk_requests (bi_bulk ?st)) w) = Some (Err ''unavailable'')"
    by (simp_all add: failing_env_def)
  have "\<exists>x' y. work_step 10 x x' \<and> progs x' ChTx = commit_program False True (length (collected x ChTx)) \<and>
      (work_step 10)\<^sup>*\<^sup>* (lose ChTx x') y \<and> committed y ChBlock = committed x ChBlock @ collected x ChBlock \<and>
      committed y ChTx = committed x ChTx \<and> progs y ChTx = [Ask ChBlock]"
    by (rule conjunct2[OF failed_commit_unnoticed[OF st, where s = "sample_indexer empty_mem"]]) (use x in simp_all)
  then show ?thesis using x(1,3,5) by auto
qed

end
