(* ===== verification/Start_Properties.thy ===== *)
theory Start_Properties
  imports Memory
begin

text \<open>
  The properties of starting: the indices that are adopted, the refusal of another chain, the lists given on the
  command line, the height from which the stream goes on, and the scrolls over stored documents.
\<close>

section \<open>Indices\<close>

text \<open>C40: on a database that holds the chain info of another chain than the one of the node, starting ends the program
  with nothing handed to a miner and nothing started, in whatever mode it runs.\<close>

theorem other_chain_refused:
  assumes "aliases_at E (index_prefix s @ ''_'') p"
    and "\<forall>w. fst (es_IndicesByAlias E (index_prefix s @ ''_chain_info'') w) \<noteq> Inr []"
    and "\<forall>w. fst (GetChainInfo E w) = Inr ci" and "ConvChainInfo ci = Ret here"
    and "\<forall>w. fst (SelectOne E (chain_info_query (p @ ''chain_info'')) EsChainInfo_decode w) = Inr (Some there)"
    and "there \<noteq> here" and "Start E startFrom stopAt s = Some (r, s')"
  shows "r = Ret True \<and> acts s' = acts s \<and> indexNamePrefix s' = p"
proof -
  obtain r1 s1 where i: "InitIndex E s = Some (r1, s1)"
    using assms(7) by (cases "InitIndex E s") (auto simp: Start_def bnd_def)
  have "(\<exists>e. r1 = Ret (Some e)) \<and> indexNamePrefix s1 = p"
    using assms(2,3,5) by (intro InitIndex_refuses[OF assms(1) _ _ assms(4) _ assms(6) i]) simp_all
  then obtain e where "InitIndex E s = Some (Ret (Some e), s1)" and p: "indexNamePrefix s1 = p" using i by auto
  from Start_refused[OF this(1)] show ?thesis using assms(7) p by simp
qed

lemma foreign_info_found:
  "SelectOne foreign_env (chain_info_query i) EsChainInfo_decode w = (Inr (Some foreign_info), w)"
  by (simp add: SelectOne_def foreign_env_def chain_info_query_def zeroQueryParams_def EsChainInfo_roundtrip)
    (simp add: foreign_info_def SetID_def)

lemma foreign_InitIndex: "\<exists>r s'. InitIndex foreign_env fresh_indexer = Some (r, s')"
proof -
  have c: "clock_Now foreign_env empty_mem = (m_time empty_mem, empty_mem)"
    by (simp add: foreign_env_def aliased_env_def mem_env_def)
  have "\<exists>e. ValidChainInfo foreign_env s = Some (Ret (Some e), s)" for s
    using foreign_info_found[unfolded chain_info_query_def]
    by (simp add: ValidChainInfo_def GetChainInfo_def foreign_env_def aliased_env_def mem_env_def ConvChainInfo_def foreign_info_def)
  then obtain e where v: "\<And>s. ValidChainInfo foreign_env s = Some (Ret (Some (e s)), s)" by metis
  show ?thesis
    by (simp add: InitIndex_def now_def c sq_Ret[where m = "create_chain_info foreign_env", OF aliased_chain_info]
        bnd_Ret[where m = "ValidChainInfo foreign_env", OF v])
qed

theorem other_chain_refused_witness:
  "\<exists>s'. Start foreign_env 0 0 fresh_indexer = Some (Ret True, s') \<and> acts s' = [] \<and> indexNamePrefix s' = ''old_''"
proof -
  let ?ci = "\<lparr>ChainInfo_Id = Some \<lparr>ChainId_Magic = ''dev.chain'', ChainId_Public = True, ChainId_Mainnet = False,
      ChainId_Consensus = ''dpos'', ChainId_Version = 3\<rparr>\<rparr>"
  obtain r1 s1 where "InitIndex foreign_env fresh_indexer = Some (r1, s1)" using foreign_InitIndex by blast
  moreover have al: "aliases_at foreign_env (index_prefix fresh_indexer @ ''_'') ''old_''"
    and known: "\<forall>w. fst (es_IndicesByAlias foreign_env (index_prefix fresh_indexer @ ''_chain_info'') w) \<noteq> Inr []"
    by (simp_all add: aliases_at_def foreign_env_def aliased_env_def)
  moreover have node: "\<forall>w. fst (GetChainInfo foreign_env w) = Inr ?ci"
    by (simp add: GetChainInfo_def foreign_env_def aliased_env_def mem_env_def)
  moreover obtain here where here: "ConvChainInfo ?ci = Ret here" "Doc_Id here = ''dev.chain''" by (simp add: ConvChainInfo_def)
  moreover have differ: "foreign_info \<noteq> here" using here(2) by (auto simp: foreign_info_def)
  moreover have db: "\<forall>w. fst (SelectOne foreign_env (chain_info_query (''old_'' @ ''chain_info'')) EsChainInfo_decode w) =
      Inr (Some foreign_info)" by (simp add: foreign_info_found)
  ultimately obtain e where "InitIndex foreign_env fresh_indexer = Some (Ret (Some e), s1)"
    using InitIndex_refuses[OF al _ _ here(1) _ differ] by fastforce
  from Start_refused[OF this] have "Start foreign_env 0 0 fresh_indexer = Some (Ret True, s1)" by simp
  with other_chain_refused[OF al known node here(1) db differ this] show ?thesis by simp
qed

section \<open>The lists of the command line\<close>

text \<open>The lists of tokens and contracts given on the command line are stored while the prefix of the indices is
  still empty: no index with a prefix sees them.\<close>

lemma whitelist_stray:
  assumes "es_store E view" and "indexNamePrefix s = []" and "p \<noteq> []"
  shows "\<exists>s'. NewCache E s = Some (Ret (), s') \<and>
    (\<forall>d. view (world s') (p @ ''whitelist'') d = view (world s) (p @ ''whitelist'') d)"
proof -
  have "p @ ''whitelist'' \<noteq> indexNamePrefix s @ ''whitelist''" using assms(2,3) by simp
  note f = NewCache_frame[OF assms(1) this]
  obtain s' where r: "NewCache E s = Some (Ret (), s')" using f by blast
  with f show ?thesis by fastforce
qed

section \<open>The height of the start\<close>

lemma below_lost: "1000 < - 1 - (n + 1) \<and> n < - 1" if "n < - 1002" for n :: uint64
proof -
  have "unat n < unat (- 1002 :: uint64)" using that by (rule unat_mono)
  then have n: "unat n < 18446744073709550614" by simp
  then have s: "unat (n + 1) = Suc (unat n)" by (simp add: unat_plus_if')
  have "n + 1 \<le> - 1" by simp
  then have "unat (- 1 - (n + 1)) = unat (- 1 :: uint64) - unat (n + 1)" by (rule unat_sub)
  moreover have "unat (- 1 :: uint64) = 18446744073709551615" by (simp add: unsigned_minus_1_eq_mask mask_eq_exp_minus_1)
  ultimately show ?thesis using n s by (simp add: word_less_nat_alt)
qed

text \<open>C15: when the node does not tell its height at the start, the height from which the stream goes on wraps around:
  the first block that arrives is taken for a rollback of the whole chain, and the stream ends in a panic.\<close>

theorem unreachable_height:
  assumes "runMode s = ''onsync''" and "\<forall>w. \<exists>e. fst (rpc_Blockchain E w) = Inl e"
    and "Start E a b s = Some (Ret False, s1)"
    and "ListBlockStream E (world s1) = (Inr (Some q), w1)" and "stream_Recv E q w1 = (Inr blk, w2)"
    and "Block_Header blk = Some h" and "BlockHeader_BlockNo h < - 1002"
  shows "\<exists>s'. startStream E s1 = Some (Panic NilInterfaceCall, s')"
proof -
  have hi: "lastHeight s1 = 0 - 1"
  proof (rule Start_onsync_height[OF assms(1,3)])
    fix w show "(case fst (rpc_Blockchain E w) of Inl e \<Rightarrow> 0 | Inr n \<Rightarrow> n) = 0" using assms(2)[rule_format, of w] by auto
  qed
  let ?s = "s1\<lparr>acts := acts s1 @ [GoStreamMiner], world := w1, stream := Some q\<rparr>"
  have o: "openStream E (s1\<lparr>acts := acts s1 @ [GoStreamMiner]\<rparr>) = Some (Ret (), ?s)"
    using assms(4) by (subst openStream.simps) simp
  have n: "BlockHeader_BlockNo h < lastHeight ?s" "1000 < lastHeight ?s - (BlockHeader_BlockNo h + 1)"
    using hi below_lost[OF assms(7)] by simp_all
  have l: "\<exists>s'. recv_loop E ?s = Some (Panic NilInterfaceCall, s') \<and> lastHeight s' = BlockHeader_BlockNo h"
    by (rule recv_loop_big_rewind[OF _ _ assms(6) n]) (use assms(5) in simp_all)
  then obtain s' where l: "recv_loop E ?s = Some (Panic NilInterfaceCall, s')" by blast
  have "stream_round E (s1\<lparr>acts := acts s1 @ [GoStreamMiner]\<rparr>) = Some (Panic NilInterfaceCall, s')"
    unfolding stream_round_def sq_Ret[where m = "openStream E", OF o] by (rule sq_Panic[where m = "recv_loop E", OF l])
  then show ?thesis
    by (subst startStream_def) (simp, subst stream_rounds.simps, simp add: sq_Panic[where m = "stream_round E"])
qed

theorem unreachable_height_witness:
  "\<exists>s1 s'. Start aliased_env 0 0 fresh_indexer = Some (Ret False, s1) \<and>
    startStream aliased_env s1 = Some (Panic NilInterfaceCall, s')"
proof -
  obtain s1 where r: "Start aliased_env 0 0 fresh_indexer = Some (Ret False, s1)" using fresh_Start by blast
  let ?w = "(world s1)\<lparr>m_stream := [sample_block 3 []]\<rparr>"
  have "ListBlockStream aliased_env (world s1) = (Inr (Some 0), ?w)" by (simp add: ListBlockStream_def aliased_env_def)
  moreover have "stream_Recv aliased_env 0 ?w = (Inr (sample_block 3 []), ?w\<lparr>m_stream := []\<rparr>)"
    by (simp add: aliased_env_def mem_env_def)
  moreover have "Block_Header (sample_block 3 []) = Some (sample_header 3)" by (simp add: sample_block_def)
  moreover have "BlockHeader_BlockNo (sample_header 3) < - 1002" by (simp add: sample_header_def word_less_nat_alt)
  moreover have "\<forall>w. \<exists>e. fst (rpc_Blockchain aliased_env w) = Inl e" by (simp add: aliased_env_def)
  ultimately show ?thesis using r unreachable_height[OF fresh_simps(2) _ r] by blast
qed

end
