(* ===== verification/Spec2Isabelle.thy ===== *)
theory Spec2Isabelle
  imports Data_Properties Run_Properties Refinement Aliases Verification Contracts Balances Registration Refresh Follow Compiler Db_Suite Check_System Start_Properties Es_Mappings Miner_Facts Bulk_Facts Command
begin

text \<open>
  A model of the Aergo indexer, the program that reads the blocks of an Aergo node and writes them, with what they
  contain, as documents to Elasticsearch.

  \<^bold>\<open>The program.\<close> The command (\<open>main.go\<close>) makes an indexer from its flags (\<open>indexer/option.go\<close>,
  \<open>indexer/indexer.go\<close>) and starts it. Starting sets up the indices or adopts existing ones, compares the chain
  of the node with the one of the database, and then follows the chain (\<open>indexer/run_onsync.go\<close>), checks
  the stored range for missing blocks (\<open>indexer/run_check.go\<close>), or does both. Both hand heights to miners
  (\<open>indexer/miner.go\<close>), which get a block from the node (\<open>indexer/client/client.go\<close>), classify its
  transactions and read its events (\<open>indexer/transaction\<close>), convert everything to documents
  (\<open>indexer/documents\<close>) and store them (\<open>indexer/dto.go\<close>), either at once through the database controller
  (\<open>indexer/db\<close>) or through the channels of the bulk indexers (\<open>indexer/bulk.go\<close>). Caches
  (\<open>indexer/cache.go\<close>) hold what was sent already and what is refreshed every 300 blocks.

  \<^bold>\<open>How it is modelled.\<close> A function with effects is a state transformer \<open>('e, 'a) idx\<close>: from an \<open>Indexer\<close>
  record to a value or a panic with the state reached, or to nothing when the code does not return. The record
  has the fields of the structs \<open>Indexer\<close>, \<open>Cache\<close> and \<open>Bulk\<close>, the log \<open>acts\<close> of what was done on channels and
  which goroutines were started, and the \<open>world\<close>, the state of node and database. Loops that may not end are
  \<^theory_text>\<open>partial_function\<close>s, so that not returning is the value \<open>None\<close>; no fuel is used. Loops over the heights of a
  range are total functions with a termination proof. Go's \<open>uint64\<close>, \<open>int32\<close> and \<open>uint8\<close> are words, a byte slice is an optional
  byte string, a string is its bytes. What is not in the repository is a field of the record \<open>env\<close> (the requests
  of node and Elasticsearch, the clock, base58, libp2p, Unicode classes), and what the code relies on there is a
  named hypothesis: \<open>es_store\<close> (Elasticsearch returns by id what was written), \<open>rolling_store\<close> (a deletion by range
  takes what is in the range), \<open>reads_keep\<close> (reading changes no document), \<open>takes_bulks\<close> and \<open>reliable\<close> (requests
  succeed), \<open>tells_heights\<close>, \<open>one_height\<close> and \<open>settled_txs\<close> (the node gives the block of the height asked for; the id of a
  block, the hash of a transaction determine its height), \<open>tells_balances\<close> (the node answers for a balance), \<open>accepting\<close>, \<open>base58check_codec\<close>, \<open>aliases_at\<close>.

  \<^bold>\<open>The theories.\<close>
  \<open>Prelude\<close>: results of Go functions, their combinators, frames and invariants of computations, decimals.
  \<open>Go_Text\<close>, \<open>Go_Float\<close>, \<open>Go_Json\<close>: what the program uses of Go's library: strings, UTF-8 and hex;
  \<open>strconv.ParseFloat\<close> with 32 bits and \<open>math/big\<close>, with correct rounding; \<open>encoding/json\<close>, lexer, parser, decoding
  into structs and interfaces, and the encoding of strings.
  \<open>Chain_Types\<close>: the messages of the node and addresses (\<open>types/address.go\<close>).
  \<open>Account\<close>, \<open>Category\<close>, \<open>Events\<close>: the package \<open>indexer/transaction\<close>.
  \<open>Documents\<close>, \<open>Conv\<close>, \<open>Es_Mappings\<close>: the package \<open>indexer/documents\<close>, each document with its JSON form
  and decoder (interface \<open>DocType\<close>), its conversion, and the mappings of the indices.
  \<open>Db\<close>: the database controller (\<open>indexer/db/elasticsearch.go\<close>), scrolls, bulks, and the interface
  \<open>document_store\<close>. \<open>Elastic\<close>: Elasticsearch as an abstract database, the interface \<open>elastic\<close>. \<open>Client\<close>: the queries of the node.
  \<open>Indexer_State\<close>: the state, the maps of the caches and \<open>dto.go\<close>. \<open>Connect\<close>: connecting and best blocks.
  \<open>Bulk\<close>, \<open>Bulk_Facts\<close>: \<open>bulk.go\<close>. \<open>Check\<close>: \<open>run_check.go\<close>. \<open>Miner\<close>, \<open>Miner_Facts\<close>: \<open>miner.go\<close>, \<open>cccv.go\<close>
  and the refresh of the caches.
  \<open>Sync\<close>: \<open>run_onsync.go\<close>. \<open>Index\<close>: \<open>indexer.go\<close> and \<open>option.go\<close>. \<open>Command\<close>: \<open>main.go\<close>.
  \<open>Channels\<close>: the goroutines of a check, miners and the indexers of the six channels, as a step relation over unbuffered
  channels; what an indexer does with a message is a program of channel operations, tied to \<open>Bulk\<close> by C9.
  \<open>Pipeline\<close>: what a check hands to the miners and what these send. \<open>Check_System\<close>: both together.
  \<open>Storage\<close>, \<open>Follow\<close>: what the miner of the stream stores and keeps; the loop over the stream and its miner as a step
  relation. \<open>Memory\<close>: a node and a database in memory, on which the interface \<open>elastic\<close> is
  interpreted and every property is run on a concrete input. \<open>Marks\<close>: the indices of tokens and contracts, whose
  documents carry a mark of verification, and the interface \<open>marked_index\<close>. \<open>Verification\<close>, \<open>Contracts\<close>: the verification of
  tokens and of contracts against specifications. \<open>Balances\<close>: the refresh of the tracked balances. \<open>Scrolls\<close>: scrolling while
  documents are written, the interface \<open>scrolling\<close> and the rule for the loops over an index. \<open>Registration\<close>: the lists filled at the
  start (\<open>registerVariables\<close>). \<open>Refresh\<close>: the refresh of the whitelist (\<open>refreshVariables\<close>). \<open>Aliases\<close>: the interface \<open>alias_store\<close> and the aliases of the indices. \<open>Db_Suite\<close>: the suite of tests for
  database controllers (\<open>indexer/db/db_testsuite.go\<close>). \<open>Compiler\<close>:
  \<open>lua_compiler/compiler.go\<close>.
  \<open>Data_Properties\<close>, \<open>Run_Properties\<close>, \<open>Refinement\<close>, \<open>Start_Properties\<close>: the other properties.

  \<^bold>\<open>Interfaces.\<close> \<open>document_store\<close> (reading and writing by id) and \<open>rolling_store\<close> (deleting) are what the indexer relies on
  in the database, \<open>alias_store\<close> (the indices an alias points to) what starting it relies on; \<open>elastic\<close>, which says
  of every request what it does to an abstract database, gives the three; \<open>scrolling\<close> extends it to scrolls that show an
  index as it was when they were opened. \<open>marked_index\<close> is what verifying needs of an index, \<open>whole_documents\<close> what refining an
  index by a map of its documents does. \<open>visiting\<close> is the contract of verifying tokens and contracts with an invariant,
  \<open>mining\<close>, which gives it, that of mining a transaction: harmless requests, writes to the indices beside blocks and
  transactions; \<open>miner_invariant\<close> and \<open>block_invariant\<close> extend it to invariants
  that no request can break and to whole blocks. They are interpreted on the invariants used: what was sent so far,
  account tokens sent once, the last height, stored documents.

  \<^bold>\<open>What is proved.\<close> A check commits the documents of exactly the missing heights of its range, each once, however its
  goroutines interleave (C1), through: the heights handed out (C4, C26 for the gap left below an indexed lower bound),
  the documents of a mined block, its transactions in order and then itself (C5, C6, C20, C21), a bulk indexer that
  loses, repeats and reorders nothing (C7, C9), and the system of goroutines, which ends without blocking (C11). A
  committed block has all its transactions committed before it (C2, C10); a failed commit blocks the indexer of blocks,
  and the failed commit of another index goes unnoticed (C37, C38). Following the chain, with rewinds and in any
  interleaving with the miner, every height up to the last one is stored or waits for the miner (C3, C8, C35), and a rewind
  takes exactly what is above it out of six indices (C14). The index of NFTs refines a map in which the newest block
  wins, so that the order of the writers does not matter (C12, C13), and the balance of an account is the newest one
  (C22), also when the tracked balances are refreshed (C23). The index of tokens refines a map from addresses to tokens, in
  which at most one contract is verified for a name (C16); the start fills the whitelist from the indices (C19), and every
  refresh keeps both in step (C18); the source of a contract is fetched once, whether or not that succeeds (C17). When
  transactions are transfers and tokens (C24, C25) and how events are read (C27); the sum of a balance
  and the floats of amounts (C28, C29); documents and accounts can be read
  back (C30, C31), the controller passes the suite of its tests on every lawful database (C32), ids tell events apart, and
  documents fit their mappings (C33, C34). An alias points to the index it was
  moved to, and its prefix is found there (C39). What starting misses and refuses (C15, C40); where the code panics (C36).

  \<^bold>\<open>Bounds.\<close> No fuel is used. The measure of C11 counts 30 for a document not yet delivered, which is more than the longest
  program it can start costs, and 4 for a request, more than its answer costs.

  \<^bold>\<open>Not modelled.\<close> In \<open>Channels\<close> commits succeed, but for C37 and C38, and the closing of the channels after the last commit is
  not a step. In \<open>Follow\<close> a block is followed and a block is mined in one step each, and the stream does not go to sleep; that the
  goroutine that drains a sleeping stream goes on receiving is only recorded. Memory races are outside (the flag of the
  time-out goroutine of \<open>BulkIndexer\<close> is read in \<open>timeout_round\<close> from the state the reader is given; the maps
  that miners share). A range over a Go map or \<open>sync.Map\<close> runs in the order of the list that stands for it. Log output,
  the texts of library errors, command-line parsing
  and the generated protocol code are left out.
\<close>

end
